(* ===== verification/Prelude.thy ===== *)
theory Prelude
  imports Main "HOL-Library.Word"
begin

text \<open>
  Shared vocabulary of the development: the C integer types at their widths on the LP64
  Linux targets of the library, the faults a call can end in, state-passing loops that
  stop at the first fault, the character classes of the C locale, and the few generic
  list lemmas that the parsers share.
\<close>

section \<open>Machine integers\<close>

text \<open>
  \<open>int\<close> and \<open>pid_t\<close> are 32 bits wide, \<open>long\<close> and \<open>long long\<close> are 64 bits wide.  The
  signed types are words read with \<^term>\<open>sint\<close>, the unsigned ones words read with
  \<^term>\<open>uint\<close>.
\<close>

type_synonym c_int = "32 word"
type_synonym c_uint = "32 word"
type_synonym c_long = "64 word"
type_synonym c_ulong = "64 word"
type_synonym c_ull = "64 word"

definition signed_min :: "'a::len itself \<Rightarrow> int" where
  "signed_min _ = - (2 ^ (LENGTH('a) - 1))"

definition signed_max :: "'a::len itself \<Rightarrow> int" where
  "signed_max _ = 2 ^ (LENGTH('a) - 1) - 1"

lemma signed_bounds32 [simp]:
  "signed_min TYPE(32) = -2147483648" "signed_max TYPE(32) = 2147483647"
  by (simp_all add: signed_min_def signed_max_def)

lemma signed_bounds64 [simp]:
  "signed_min TYPE(64) = -9223372036854775808" "signed_max TYPE(64) = 9223372036854775807"
  by (simp_all add: signed_min_def signed_max_def)

lemma sint_in_range: "signed_min TYPE('a) \<le> sint w \<and> sint w \<le> signed_max TYPE('a)"
  for w :: "'a::len word"
  using sint_greater_eq [of w] sint_less [of w]
  by (auto simp: signed_min_def signed_max_def)

lemma uint_in_range: "0 \<le> uint w \<and> uint w < 2 ^ LENGTH('a)"
  for w :: "'a::len word"
  by (simp add: uint_lt2p)

section \<open>Faults and outcomes\<close>

text \<open>
  How a call can end other than by returning: the exceptions of \<open>std::stoi\<close> and
  \<open>std::stol\<close>, the exception of \<open>boost::filesystem\<close>, a thrown \<open>std::string\<close>, and
  undefined behaviour (an element of a vector past its end).
\<close>

datatype fault =
    Invalid_argument
  | Out_of_range
  | Filesystem_error
  | String_exn string
  | Undefined_behaviour

type_synonym 'a outcome = "fault + 'a"

text \<open>
  A member function that returns \<open>'a\<close>: the object it leaves behind together with how it
  ended.  The object is there in both cases, because what was assigned before an exception
  stays assigned.
\<close>

type_synonym ('s, 'a) action = "'s \<Rightarrow> 's \<times> 'a outcome"

definition returns :: "'a \<Rightarrow> ('s, 'a) action" where
  "returns a s = (s, Inr a)"

definition throws :: "fault \<Rightarrow> ('s, 'a) action" where
  "throws e s = (s, Inl e)"

definition and_then :: "('s, 'a) action \<Rightarrow> ('a \<Rightarrow> ('s, 'b) action) \<Rightarrow> ('s, 'b) action" where
  "and_then m k s = (case m s of (s', Inl e) \<Rightarrow> (s', Inl e) | (s', Inr a) \<Rightarrow> k a s')"

text \<open>Assign the value of a fallible expression: nothing is assigned when it throws.\<close>

definition assign :: "'a outcome \<Rightarrow> ('a \<Rightarrow> 's \<Rightarrow> 's) \<Rightarrow> ('s, unit) action" where
  "assign v put s = (case v of Inl e \<Rightarrow> (s, Inl e) | Inr a \<Rightarrow> (put a s, Inr ()))"

definition modify :: "('s \<Rightarrow> 's) \<Rightarrow> ('s, unit) action" where
  "modify f s = (f s, Inr ())"

text \<open>Statements one after another, and a loop over the elements of a container.\<close>

fun do_all :: "('s, unit) action list \<Rightarrow> ('s, unit) action" where
  "do_all [] s = (s, Inr ())"
| "do_all (a # as) s =
     (case a s of (s', Inl e) \<Rightarrow> (s', Inl e) | (s', Inr _) \<Rightarrow> do_all as s')"

fun for_each :: "('x \<Rightarrow> ('s, unit) action) \<Rightarrow> 'x list \<Rightarrow> ('s, unit) action" where
  "for_each f [] s = (s, Inr ())"
| "for_each f (x # xs) s =
     (case f x s of (s', Inl e) \<Rightarrow> (s', Inl e) | (s', Inr _) \<Rightarrow> for_each f xs s')"

named_theorems run_simps \<open>rules that run a composed action\<close>

lemma returns_run [run_simps]: "returns a s = (s, Inr a)"
  by (simp add: returns_def)

lemma throws_run [run_simps]: "throws e s = (s, Inl e)"
  by (simp add: throws_def)

lemma modify_run [run_simps]: "modify f s = (f s, Inr ())"
  by (simp add: modify_def)

lemma assign_run [run_simps]:
  "assign (Inr a) put s = (put a s, Inr ())" "assign (Inl e) put s = (s, Inl e)"
  by (simp_all add: assign_def)

lemma and_then_run [run_simps]:
  "m s = (s', Inr a) \<Longrightarrow> and_then m k s = k a s'"
  "m s = (s', Inl e) \<Longrightarrow> and_then m k s = (s', Inl e)"
  by (simp_all add: and_then_def)

lemma do_all_last: "do_all [a] s = a s"
  by (cases "a s") (auto split: sum.splits)

lemma for_each_do_all: "for_each f xs s = do_all (map f xs) s"
  by (induction xs arbitrary: s) simp_all

lemma for_each_append:
  "for_each f (xs @ ys) s =
     (case for_each f xs s of (s', Inl e) \<Rightarrow> (s', Inl e) | (s', Inr _) \<Rightarrow> for_each f ys s')"
  by (induction xs arbitrary: s) (auto split: prod.splits sum.splits)

text \<open>What every pass of the body keeps, the loop keeps, however it ends.\<close>

lemma for_each_invariant:
  assumes "\<And>x s. x \<in> set xs \<Longrightarrow> I s \<Longrightarrow> I (fst (f x s))" and "I s"
  shows "I (fst (for_each f xs s))"
  using assms
proof (induction xs arbitrary: s)
  case Nil
  then show ?case by simp
next
  case (Cons x xs)
  obtain s' r where step: "f x s = (s', r)" by fastforce
  with Cons.prems have I': "I s'" by (metis fst_conv list.set_intros(1))
  show ?case
  proof (cases r)
    case (Inl e)
    with step I' show ?thesis by simp
  next
    case (Inr u)
    have "I (fst (for_each f xs s'))"
      using Cons.IH [OF _ I'] Cons.prems(1) by simp
    with step Inr show ?thesis by simp
  qed
qed

lemma for_each_frame:
  assumes "\<And>x s. view (fst (f x s)) = view s"
  shows "view (fst (for_each f xs s)) = view s"
  by (rule for_each_invariant [where I = "\<lambda>t. view t = view s"]) (simp_all add: assms)

lemma for_each_total:
  assumes "\<And>x s. x \<in> set xs \<Longrightarrow> \<exists>s'. f x s = (s', Inr ())"
  shows "\<exists>s'. for_each f xs s = (s', Inr ())"
  using assms
proof (induction xs arbitrary: s)
  case Nil
  then show ?case by simp
next
  case (Cons x xs)
  from Cons.prems obtain s' where "f x s = (s', Inr ())" by fastforce
  with Cons show ?case by simp
qed

lemma for_each_pure:
  assumes "\<And>x s. x \<in> set xs \<Longrightarrow> f x s = (g x s, Inr ())"
  shows "for_each f xs s = (fold g xs s, Inr ())"
  using assms by (induction xs arbitrary: s) simp_all

section \<open>Character classes of the C locale\<close>

definition is_space :: "char \<Rightarrow> bool" where
  "is_space c = (let n = (of_char c :: nat) in n = 32 \<or> (9 \<le> n \<and> n \<le> 13))"

definition is_digit :: "char \<Rightarrow> bool" where
  "is_digit c = (let n = (of_char c :: nat) in 48 \<le> n \<and> n \<le> 57)"

definition is_xdigit :: "char \<Rightarrow> bool" where
  "is_xdigit c = (let n = (of_char c :: nat)
     in (48 \<le> n \<and> n \<le> 57) \<or> (65 \<le> n \<and> n \<le> 70) \<or> (97 \<le> n \<and> n \<le> 102))"

definition is_alpha :: "char \<Rightarrow> bool" where
  "is_alpha c = (let n = (of_char c :: nat) in (65 \<le> n \<and> n \<le> 90) \<or> (97 \<le> n \<and> n \<le> 122))"

lemmas char_class_defs = is_space_def is_digit_def is_xdigit_def is_alpha_def

lemma digit_not_space [simp]: "is_digit c \<Longrightarrow> \<not> is_space c"
  by (simp add: char_class_defs Let_def)

lemma xdigit_not_space [simp]: "is_xdigit c \<Longrightarrow> \<not> is_space c"
  by (auto simp: char_class_defs Let_def)

lemma digit_is_xdigit [simp]: "is_digit c \<Longrightarrow> is_xdigit c"
  by (simp add: char_class_defs Let_def)

lemma char_class_literals [simp]:
  "is_space CHR '' ''" "is_space CHR 0x09" "is_space CHR 0x0A"
  "\<not> is_space CHR ''-''" "\<not> is_space CHR ''+''" "\<not> is_space CHR '':''"
  "\<not> is_digit CHR ''-''" "\<not> is_digit CHR ''+''" "\<not> is_digit CHR '' ''"
  "\<not> is_digit CHR 0x0A" "\<not> is_digit CHR 0x09" "\<not> is_digit CHR '':''"
  by (simp_all add: char_class_defs)

section \<open>Lists\<close>

text \<open>\<open>std::string::find (t) != npos\<close>.\<close>

fun has_substr :: "string \<Rightarrow> string \<Rightarrow> bool" where
  "has_substr t [] = (t = [])"
| "has_substr t (c # cs) = (take (length t) (c # cs) = t \<or> has_substr t cs)"

lemma has_substr_iff: "has_substr t s \<longleftrightarrow> (\<exists>u v. s = u @ t @ v)"
proof (induction s)
  case Nil
  then show ?case by simp
next
  case (Cons c s)
  show ?case
  proof
    assume "has_substr t (c # s)"
    then consider "take (length t) (c # s) = t" | "has_substr t s" by auto
    then show "\<exists>u v. c # s = u @ t @ v"
    proof cases
      case 1
      then have "c # s = [] @ t @ drop (length t) (c # s)"
        by (metis append_Nil append_take_drop_id)
      then show ?thesis by blast
    next
      case 2
      with Cons.IH obtain u v where "s = u @ t @ v" by blast
      then have "c # s = (c # u) @ t @ v" by simp
      then show ?thesis by blast
    qed
  next
    assume "\<exists>u v. c # s = u @ t @ v"
    then obtain u v where uv: "c # s = u @ t @ v" by blast
    show "has_substr t (c # s)"
    proof (cases u)
      case Nil
      with uv have "take (length t) (c # s) = t" by simp
      then show ?thesis by simp
    next
      case (Cons d u')
      with uv have "s = u' @ t @ v" by simp
      with Cons.IH show ?thesis by auto
    qed
  qed
qed

lemma takeWhile_all: "list_all P xs \<Longrightarrow> takeWhile P xs = xs"
  by (simp add: list_all_iff takeWhile_eq_all_conv)

lemma dropWhile_all: "list_all P xs \<Longrightarrow> dropWhile P xs = []"
  by (simp add: list_all_iff)

lemma takeWhile_prefix:
  "list_all P xs \<Longrightarrow> ys = [] \<or> \<not> P (hd ys) \<Longrightarrow> takeWhile P (xs @ ys) = xs"
  by (induction xs) (auto, cases ys, auto)

lemma dropWhile_prefix:
  "list_all P xs \<Longrightarrow> ys = [] \<or> \<not> P (hd ys) \<Longrightarrow> dropWhile P (xs @ ys) = ys"
  by (induction xs) (auto, cases ys, auto)

lemma list_all_takeWhile [simp]: "list_all P (takeWhile P xs)"
  by (induction xs) auto

lemma takeWhile_not_in: "d \<notin> set xs \<Longrightarrow> takeWhile (\<lambda>c. c \<noteq> d) (xs @ d # ys) = xs"
  by (induction xs) auto

lemma dropWhile_not_in: "d \<notin> set xs \<Longrightarrow> dropWhile (\<lambda>c. c \<noteq> d) (xs @ d # ys) = d # ys"
  by (induction xs) auto

end
