(* ===== verification/Numbers.thy ===== *)
theory Numbers
  imports Prelude
begin

text \<open>
  Numbers and their text.  \<open>nat_str\<close> and \<open>int_str\<close> print as \<open>std::to_string\<close>,
  \<open>operator<<\<close> and the kernel's \<open>%d\<close> do; \<open>stoi\<close> and \<open>stol\<close> read as the standard
  library does: leading white space, an optional sign, an optional \<open>0x\<close> when the base is
  16, the longest run of digits, and the two exceptions.  The lemmas show that reading what
  was printed gives the number back, for every value of the width.
\<close>

section \<open>Printing\<close>

definition digit_char :: "nat \<Rightarrow> char" where
  "digit_char d = char_of (48 + d)"

fun nat_str :: "nat \<Rightarrow> string" where
  "nat_str n = (if n < 10 then [digit_char n] else nat_str (n div 10) @ [digit_char (n mod 10)])"

declare nat_str.simps [simp del]

definition int_str :: "int \<Rightarrow> string" where
  "int_str i = (if i < 0 then CHR ''-'' # nat_str (nat (- i)) else nat_str (nat i))"

definition to_string :: "c_int \<Rightarrow> string" where
  "to_string w = int_str (sint w)"

section \<open>Values of digit strings\<close>

definition digit_val :: "char \<Rightarrow> nat" where
  "digit_val c = (let n = of_char c in if n \<le> 57 then n - 48 else if n \<le> 70 then n - 55 else n - 87)"

definition is_base_digit :: "nat \<Rightarrow> char \<Rightarrow> bool" where
  "is_base_digit b c = (if b = 16 then is_xdigit c else is_digit c)"

fun num_val :: "nat \<Rightarrow> nat \<Rightarrow> string \<Rightarrow> nat" where
  "num_val b a [] = a"
| "num_val b a (c # cs) = num_val b (a * b + digit_val c) cs"

lemma num_val_append: "num_val b a (xs @ ys) = num_val b (num_val b a xs) ys"
  by (induction xs arbitrary: a) auto

lemma digit_char_class [simp]: "d < 10 \<Longrightarrow> is_digit (digit_char d)"
  by (simp add: digit_char_def is_digit_def Let_def)

lemma digit_val_char [simp]: "d < 10 \<Longrightarrow> digit_val (digit_char d) = d"
  by (simp add: digit_char_def digit_val_def Let_def)

lemma digit_char_literals:
  "digit_char 0 = CHR ''0''" "digit_char 1 = CHR ''1''" "digit_char 2 = CHR ''2''"
  "digit_char 3 = CHR ''3''" "digit_char 4 = CHR ''4''" "digit_char 5 = CHR ''5''"
  "digit_char 6 = CHR ''6''" "digit_char 7 = CHR ''7''" "digit_char 8 = CHR ''8''"
  "digit_char 9 = CHR ''9''"
  by (simp_all add: digit_char_def char_of_eq_iff)

lemma nat_str_nonempty [simp]: "nat_str n \<noteq> []"
  by (subst nat_str.simps) simp

lemma nat_str_digits [simp]: "list_all is_digit (nat_str n)"
proof (induction n rule: nat_str.induct)
  case (1 n)
  then show ?case by (subst nat_str.simps) simp
qed

lemma nat_str_hd: "is_digit (hd (nat_str n))"
  using nat_str_digits [of n] nat_str_nonempty [of n] by (cases "nat_str n") auto

lemma num_val_nat_str [simp]: "num_val 10 0 (nat_str n) = n"
proof (induction n rule: nat_str.induct)
  case (1 n)
  show ?case
  proof (cases "n < 10")
    case True
    then show ?thesis by (subst nat_str.simps) simp
  next
    case False
    with 1 show ?thesis by (subst nat_str.simps) (simp add: num_val_append)
  qed
qed

lemma digits_not_special:
  "list_all is_digit ds \<Longrightarrow> c \<in> set ds \<Longrightarrow> is_digit c"
  by (simp add: list_all_iff)

lemma int_str_nonempty [simp]: "int_str i \<noteq> []"
  by (simp add: int_str_def)

lemma int_str_hd: "hd (int_str i) = CHR ''-'' \<or> is_digit (hd (int_str i))"
  by (simp add: int_str_def nat_str_hd)

lemma int_str_chars: "c \<in> set (int_str i) \<Longrightarrow> c = CHR ''-'' \<or> is_digit c"
  using digits_not_special [OF nat_str_digits] by (auto simp: int_str_def split: if_splits)

lemma int_str_no_space [simp]: "c \<in> set (int_str i) \<Longrightarrow> \<not> is_space c"
  using int_str_chars [of c i] by auto

section \<open>std::stoi and std::stol\<close>

text \<open>An optional sign in front of a number: whether it is a minus, and what follows.\<close>

fun split_sign :: "string \<Rightarrow> bool \<times> string" where
  "split_sign (c # cs) =
     (if c = CHR ''-'' then (True, cs) else if c = CHR ''+'' then (False, cs) else (False, c # cs))"
| "split_sign [] = (False, [])"

text \<open>\<open>strtol\<close> with base 16 accepts \<open>0x\<close> when a hexadecimal digit follows.\<close>

definition strip_0x :: "nat \<Rightarrow> string \<Rightarrow> string" where
  "strip_0x b s =
     (if b = 16 \<and> take 1 s = ''0'' \<and> take 1 (drop 1 s) \<in> {''x'', ''X''}
         \<and> takeWhile is_xdigit (drop 2 s) \<noteq> []
      then drop 2 s else s)"

text \<open>The number at the start of the text; \<^term>\<open>None\<close> when there is no digit.\<close>

definition strto :: "nat \<Rightarrow> string \<Rightarrow> int option" where
  "strto b s =
     (let (neg, s1) = split_sign (dropWhile is_space s);
          ds = takeWhile (is_base_digit b) (strip_0x b s1);
          v = int (num_val b 0 ds)
      in if ds = [] then None else Some (if neg then - v else v))"

text \<open>The conversions of the standard library, for the width of their result type.\<close>

definition sto :: "nat \<Rightarrow> string \<Rightarrow> 'a::len word outcome" where
  "sto b s = (case strto b s of
       None \<Rightarrow> Inl Invalid_argument
     | Some v \<Rightarrow>
         if v < signed_min TYPE('a) \<or> signed_max TYPE('a) < v then Inl Out_of_range
         else Inr (word_of_int v))"

definition stoi :: "nat \<Rightarrow> string \<Rightarrow> c_int outcome" where
  "stoi b s = sto b s"

definition stol :: "nat \<Rightarrow> string \<Rightarrow> c_long outcome" where
  "stol b s = sto b s"

lemma split_sign_digit: "s \<noteq> [] \<Longrightarrow> is_digit (hd s) \<Longrightarrow> split_sign s = (False, s)"
  by (cases s) (auto simp: is_digit_def Let_def)

lemma split_sign_int_str:
  "split_sign (int_str i @ r) = (i < 0, nat_str (nat \<bar>i\<bar>) @ r)"
proof (cases "i < 0")
  case True
  then show ?thesis by (simp add: int_str_def)
next
  case False
  have "is_digit (hd (nat_str (nat i) @ r))"
    using nat_str_hd [of "nat i"] by simp
  with False show ?thesis
    using split_sign_digit [of "nat_str (nat i) @ r"] by (simp add: int_str_def)
qed

lemma base_digit_10 [simp]: "is_base_digit 10 = is_digit"
  by (simp add: fun_eq_iff is_base_digit_def)

lemma base_digit_16 [simp]: "is_base_digit 16 = is_xdigit"
  by (simp add: fun_eq_iff is_base_digit_def)

lemma strip_0x_10 [simp]: "strip_0x 10 s = s"
  by (simp add: strip_0x_def)

lemma strto_int_str:
  assumes "list_all is_space sp" and "r = [] \<or> \<not> is_digit (hd r)"
  shows "strto 10 (sp @ int_str i @ r) = Some i"
proof -
  have "dropWhile is_space (sp @ int_str i @ r) = int_str i @ r"
    using assms(1) int_str_hd [of i] int_str_nonempty [of i]
    by (intro dropWhile_prefix) (auto simp: hd_append)
  moreover have "takeWhile is_digit (nat_str (nat \<bar>i\<bar>) @ r) = nat_str (nat \<bar>i\<bar>)"
    using assms(2) by (intro takeWhile_prefix) simp_all
  ultimately show ?thesis
    by (cases "i < 0") (simp_all add: strto_def split_sign_int_str)
qed

text \<open>Reading back what was printed, at either width.\<close>

lemma sto_int_str:
  fixes w :: "'a::len word"
  assumes "list_all is_space sp" and "r = [] \<or> \<not> is_digit (hd r)"
  shows "sto 10 (sp @ int_str (sint w) @ r) = Inr w"
  using strto_int_str [OF assms, of "sint w"] sint_in_range [of w]
  by (auto simp: sto_def)

lemma stoi_int_str [simp]: "stoi 10 (int_str (sint w)) = Inr w"
  using sto_int_str [of "[]" "[]" w] by (simp add: stoi_def)

lemma stol_int_str [simp]: "stol 10 (int_str (sint w)) = Inr w"
  using sto_int_str [of "[]" "[]" w] by (simp add: stol_def)

text \<open>The exact outcome on a digit string: no exception but the one for the range.\<close>

lemma strto_digits:
  assumes "ds \<noteq> []" and "list_all is_digit ds"
  shows "strto 10 ds = Some (int (num_val 10 0 ds))"
proof -
  from assms have hd: "is_digit (hd ds)" by (cases ds) auto
  then have "dropWhile is_space ds = ds" by (cases ds) auto
  with assms hd show ?thesis
    by (simp add: strto_def split_sign_digit takeWhile_all)
qed

lemma sto_digits:
  assumes "ds \<noteq> []" and "list_all is_digit ds"
  shows "(sto 10 ds :: 'a::len word outcome) =
    (if int (num_val 10 0 ds) \<le> signed_max TYPE('a)
     then Inr (word_of_int (int (num_val 10 0 ds))) else Inl Out_of_range)"
proof -
  have "signed_min TYPE('a) \<le> int (num_val 10 0 ds)"
    using order_trans [of "signed_min TYPE('a)" 0] by (simp add: signed_min_def)
  then show ?thesis
    using strto_digits [OF assms] by (auto simp: sto_def)
qed

lemmas num_eval = stoi_def stol_def sto_def strto_def strip_0x_def is_base_digit_def
  digit_val_def is_digit_def is_xdigit_def is_space_def

lemma nat_str_digit: "n < 10 \<Longrightarrow> nat_str n = [digit_char n]"
  by (subst nat_str.simps) simp

lemma nat_str_single_iff: "length (nat_str n) = 1 \<longleftrightarrow> n < 10"
proof -
  have "0 < length (nat_str (n div 10))" by simp
  then show ?thesis by (subst nat_str.simps) auto
qed

lemma nat_str_length_le: "length (nat_str n) \<le> Suc k \<longleftrightarrow> n < 10 ^ Suc k"
proof (induction k arbitrary: n)
  case 0
  show ?case by (subst nat_str.simps) auto
next
  case (Suc k)
  have "length (nat_str n) \<le> Suc (Suc k) \<longleftrightarrow> n < 10 \<or> length (nat_str (n div 10)) \<le> Suc k"
    by (subst nat_str.simps) auto
  also have "\<dots> \<longleftrightarrow> n < 10 ^ Suc (Suc k)"
    using less_le_trans [of n 10 "10 * (10 * 10 ^ k)"] by (auto simp: Suc.IH div_less_iff_less_mult mult.commute)
  finally show ?case .
qed

section \<open>Printing to a width\<close>

text \<open>The kernel's \<open>%kd\<close>: at least \<open>k\<close> columns, blanks in front.\<close>

definition aligned :: "nat \<Rightarrow> nat \<Rightarrow> string" where
  "aligned k n = replicate (k - length (nat_str n)) CHR '' '' @ nat_str n"

lemma aligned_wide: "10 ^ k \<le> n \<Longrightarrow> aligned (Suc k) n = nat_str n"
proof (cases k)
  case 0
  have "0 < length (nat_str n)" by simp
  then show ?thesis unfolding aligned_def 0 by (simp del: length_greater_0_conv)
next
  case (Suc j)
  assume "10 ^ k \<le> n"
  then have "\<not> length (nat_str n) \<le> k"
    unfolding Suc nat_str_length_le by simp
  then show ?thesis by (simp add: aligned_def)
qed

lemma aligned_narrow:
  assumes "0 < k" and "n < 10 ^ k"
  shows "\<exists>j. aligned (Suc k) n = CHR '' '' # replicate j CHR '' '' @ nat_str n"
proof -
  obtain i where k: "k = Suc i" using assms(1) gr0_implies_Suc by blast
  have "length (nat_str n) \<le> k"
    using assms(2) unfolding k nat_str_length_le .
  then have "Suc k - length (nat_str n) = Suc (k - length (nat_str n))" by simp
  then show ?thesis
    by (intro exI [of _ "k - length (nat_str n)"]) (simp add: aligned_def)
qed

lemma aligned_no_newline [simp]: "CHR 0x0A \<notin> set (aligned k n)"
  using nat_str_digits [of n] by (auto simp: aligned_def list_all_iff)

end
