(* ===== verification/Streams.thy ===== *)
theory Streams
  imports Numbers
begin

text \<open>
  Input streams of the standard library as the parsers use them: \<open>std::ifstream\<close> and
  \<open>std::istringstream\<close> are the characters still to be read and the two state bits the code
  depends on.  \<open>std::getline\<close>, the loop \<open>while (getline (...))\<close>, and \<open>operator>>\<close> for
  strings and for the integer types, with what each does to its destination when it fails:
  a stream that is no longer good leaves the destination alone, a failed integer
  conversion stores 0 or the nearest bound.
\<close>

record instream =
  buf :: string
  eofbit :: bool
  failbit :: bool

text \<open>\<open>std::ifstream(path)\<close>: a file that cannot be opened leaves \<open>failbit\<close> set.\<close>

definition open_file :: "string option \<Rightarrow> instream" where
  "open_file f = (case f of
       None \<Rightarrow> \<lparr>buf = [], eofbit = False, failbit = True\<rparr>
     | Some s \<Rightarrow> \<lparr>buf = s, eofbit = False, failbit = False\<rparr>)"

definition istringstream :: "string \<Rightarrow> instream" where
  "istringstream s = \<lparr>buf = s, eofbit = False, failbit = False\<rparr>"

definition good :: "instream \<Rightarrow> bool" where
  "good is \<longleftrightarrow> \<not> eofbit is \<and> \<not> failbit is"

lemma good_simps [simp]:
  "good (istringstream s)" "buf (istringstream s) = s" "good (open_file (Some s))"
  "buf (open_file (Some s)) = s" "\<not> good (open_file None)"
  "\<not> eofbit (istringstream s)" "\<not> failbit (istringstream s)"
  by (simp_all add: good_def istringstream_def open_file_def)

section \<open>std::getline\<close>

text \<open>The second component is the new content of the string that was \<open>old\<close>.\<close>

definition getline :: "char \<Rightarrow> instream \<Rightarrow> string \<Rightarrow> instream \<times> string" where
  "getline d is old =
     (if \<not> good is then (is\<lparr>failbit := True\<rparr>, old)
      else let line = takeWhile (\<lambda>c. c \<noteq> d) (buf is)
           in case dropWhile (\<lambda>c. c \<noteq> d) (buf is) of
                [] \<Rightarrow> (\<lparr>buf = [], eofbit = True, failbit = (line = [])\<rparr>, line)
              | _ # rest \<Rightarrow> (is\<lparr>buf := rest\<rparr>, line))"

lemma getline_delimited:
  "d \<notin> set l \<Longrightarrow> getline d (istringstream (l @ d # r)) old = (istringstream r, l)"
  by (simp add: getline_def takeWhile_not_in dropWhile_not_in good_def istringstream_def)

lemma getline_to_end:
  "d \<notin> set l \<Longrightarrow>
   getline d (istringstream l) old = (\<lparr>buf = [], eofbit = True, failbit = (l = [])\<rparr>, l)"
proof -
  assume "d \<notin> set l"
  then have all: "list_all (\<lambda>c. c \<noteq> d) l" by (auto simp: list_all_iff)
  show ?thesis
    by (simp add: getline_def takeWhile_all [OF all] dropWhile_all [OF all])
qed

lemma getline_bad [simp]: "\<not> good is \<Longrightarrow> snd (getline d is old) = old"
  by (simp add: getline_def)

lemma getline_progress:
  assumes "getline d is old = (is', line)" and "\<not> failbit is'"
  shows "(if eofbit is' then 0 else Suc (length (buf is')))
       < (if eofbit is then 0 else Suc (length (buf is)))"
proof -
  have "length (dropWhile (\<lambda>c. c \<noteq> d) (buf is)) \<le> length (buf is)"
    by (rule length_dropWhile_le)
  with assms show ?thesis
    by (auto simp: getline_def good_def Let_def split: if_splits list.splits)
qed

text \<open>
  \<open>while (std::getline (is, line, d))\<close>, with a body that does not touch the stream: the
  lines in the order the body sees them, each with the value of \<open>eof ()\<close> at that point.
\<close>

function getlines :: "char \<Rightarrow> instream \<Rightarrow> (string \<times> bool) list" where
  "getlines d is =
     (let (is', line) = getline d is []
      in if failbit is' then [] else (line, eofbit is') # getlines d is')"
  by pat_completeness auto
termination
  by (relation "measure (\<lambda>(d, is). if eofbit is then 0 else Suc (length (buf is)))")
     (auto dest!: getline_progress [OF sym])

declare getlines.simps [simp del]

definition lines_of :: "instream \<Rightarrow> string list" where
  "lines_of is = map fst (getlines CHR 0x0A is)"

definition chunks_of :: "char \<Rightarrow> instream \<Rightarrow> string list" where
  "chunks_of d is = map fst (getlines d is)"

lemma getlines_bad [simp]: "\<not> good is \<Longrightarrow> getlines d is = []"
  by (subst getlines.simps) (simp add: getline_def)

lemma getlines_empty [simp]: "getlines d (istringstream []) = []"
  by (subst getlines.simps) (simp add: getline_def)

lemma getlines_delimited:
  "d \<notin> set l \<Longrightarrow>
   getlines d (istringstream (l @ d # r)) = (l, False) # getlines d (istringstream r)"
  by (subst getlines.simps) (simp add: getline_delimited)

lemma getlines_last:
  "d \<notin> set l \<Longrightarrow> l \<noteq> [] \<Longrightarrow> getlines d (istringstream l) = [(l, True)]"
  by (subst getlines.simps) (simp add: getline_to_end good_def)

text \<open>A text file made of terminated lines is read back as exactly those lines.\<close>

definition unlines :: "char \<Rightarrow> string list \<Rightarrow> string" where
  "unlines d ls = concat (map (\<lambda>l. l @ [d]) ls)"

lemma unlines_simps [simp]:
  "unlines d [] = []" "unlines d (l # ls) = l @ d # unlines d ls"
  by (simp_all add: unlines_def)

lemma getlines_unlines:
  "\<forall>l \<in> set ls. d \<notin> set l \<Longrightarrow>
   getlines d (istringstream (unlines d ls)) = map (\<lambda>l. (l, False)) ls"
  by (induction ls) (simp_all add: getlines_delimited)

lemma open_file_Some: "open_file (Some s) = istringstream s"
  by (simp add: open_file_def istringstream_def)

lemma lines_of_unlines:
  "\<forall>l \<in> set ls. CHR 0x0A \<notin> set l \<Longrightarrow>
   lines_of (open_file (Some (unlines (CHR 0x0A) ls))) = ls"
  by (simp add: lines_of_def open_file_Some getlines_unlines comp_def)

lemma chunks_of_unlines:
  "\<forall>l \<in> set ls. d \<notin> set l \<Longrightarrow> chunks_of d (open_file (Some (unlines d ls))) = ls"
  by (simp add: chunks_of_def open_file_Some getlines_unlines comp_def)

lemma lines_of_missing [simp]: "lines_of (open_file None) = []"
  by (simp add: lines_of_def)

lemma chunks_of_missing [simp]: "chunks_of d (open_file None) = []"
  by (simp add: chunks_of_def)

text \<open>
  The two \<open>getline\<close> calls on a fresh \<open>istringstream\<close> that split a line at the first
  delimiter: the key, and the value up to the next newline.
\<close>

definition key_value :: "char \<Rightarrow> string \<Rightarrow> string \<times> string" where
  "key_value d line =
     (let (stream, key) = getline d (istringstream line) [];
          (_, value) = getline CHR 0x0A stream []
      in (key, value))"

lemma key_value_split:
  assumes "d \<notin> set k"
  shows "key_value d (k @ d # v) = (k, takeWhile (\<lambda>c. c \<noteq> CHR 0x0A) v)"
proof -
  have "snd (getline CHR 0x0A (istringstream v) []) = takeWhile (\<lambda>c. c \<noteq> CHR 0x0A) v"
    by (simp add: getline_def Let_def split: list.split)
  then show ?thesis
    by (simp add: key_value_def getline_delimited [OF assms] split_beta)
qed

lemma key_value_line:
  "d \<notin> set k \<Longrightarrow> CHR 0x0A \<notin> set v \<Longrightarrow> key_value d (k @ d # v) = (k, v)"
  by (auto simp: key_value_split takeWhile_eq_all_conv)

lemma key_value_no_delimiter: "d \<notin> set l \<Longrightarrow> key_value d l = (l, [])"
  by (simp add: key_value_def getline_to_end split_beta good_def)

section \<open>operator>>\<close>

text \<open>
  The sentry of a formatted extraction: fails on a stream that is not good, skips white
  space, and fails when that reaches the end.
\<close>

definition sentry :: "instream \<Rightarrow> bool \<times> instream" where
  "sentry is =
     (if \<not> good is then (False, is\<lparr>failbit := True\<rparr>)
      else case dropWhile is_space (buf is) of
             [] \<Rightarrow> (False, \<lparr>buf = [], eofbit = True, failbit = True\<rparr>)
           | c # cs \<Rightarrow> (True, is\<lparr>buf := c # cs\<rparr>))"

definition extract_string :: "instream \<Rightarrow> string \<Rightarrow> instream \<times> string" where
  "extract_string is old =
     (case sentry is of
        (False, is') \<Rightarrow> (is', old)
      | (True, is') \<Rightarrow>
          let rest = dropWhile (\<lambda>c. \<not> is_space c) (buf is')
          in (is'\<lparr>buf := rest, eofbit := (rest = [])\<rparr>,
              takeWhile (\<lambda>c. \<not> is_space c) (buf is')))"

text \<open>
  Sign, digits and remaining text of an integer in base 10, and the stream after them:
  reaching the end of the text sets \<open>eofbit\<close>.
\<close>

definition scan_number :: "instream \<Rightarrow> bool \<times> string \<times> instream" where
  "scan_number is =
     (let (neg, s) = split_sign (buf is);
          rest = dropWhile is_digit s
      in (neg, takeWhile is_digit s, is\<lparr>buf := rest, eofbit := (rest = [])\<rparr>))"

definition extract_signed :: "instream \<Rightarrow> 'a::len word \<Rightarrow> instream \<times> 'a word" where
  "extract_signed is old =
     (case sentry is of
        (False, is') \<Rightarrow> (is', old)
      | (True, is') \<Rightarrow>
          let (neg, ds, is'') = scan_number is';
              v = (if neg then - int (num_val 10 0 ds) else int (num_val 10 0 ds))
          in if ds = [] then (is''\<lparr>failbit := True\<rparr>, 0)
             else if v < signed_min TYPE('a)
               then (is''\<lparr>failbit := True\<rparr>, word_of_int (signed_min TYPE('a)))
             else if signed_max TYPE('a) < v
               then (is''\<lparr>failbit := True\<rparr>, word_of_int (signed_max TYPE('a)))
             else (is'', word_of_int v))"

text \<open>A minus sign is accepted for the unsigned types, and negates modulo the width.\<close>

definition extract_unsigned :: "instream \<Rightarrow> 'a::len word \<Rightarrow> instream \<times> 'a word" where
  "extract_unsigned is old =
     (case sentry is of
        (False, is') \<Rightarrow> (is', old)
      | (True, is') \<Rightarrow>
          let (neg, ds, is'') = scan_number is';
              v = num_val 10 0 ds
          in if ds = [] then (is''\<lparr>failbit := True\<rparr>, 0)
             else if 2 ^ LENGTH('a) \<le> v
               then (is''\<lparr>failbit := True\<rparr>, word_of_int (2 ^ LENGTH('a) - 1))
             else (is'', if neg then - word_of_nat v else word_of_nat v))"

lemma sentry_bad [simp]: "\<not> good is \<Longrightarrow> sentry is = (False, is\<lparr>failbit := True\<rparr>)"
  by (simp add: sentry_def)

lemma sentry_word:
  assumes "list_all is_space sp" and "s \<noteq> []" and "\<not> is_space (hd s)"
  shows "sentry (istringstream (sp @ s)) = (True, istringstream s)"
proof -
  have "dropWhile is_space (sp @ s) = s"
    using assms by (intro dropWhile_prefix) auto
  with assms(2) show ?thesis
    by (cases s) (simp_all add: sentry_def istringstream_def good_def)
qed

text \<open>On a stream that is not good nothing is stored, and it stays that way.\<close>

lemma extract_bad:
  assumes "\<not> good is"
  shows "extract_string is s = (is\<lparr>failbit := True\<rparr>, s)"
    and "extract_signed is w = (is\<lparr>failbit := True\<rparr>, w)"
    and "extract_unsigned is w = (is\<lparr>failbit := True\<rparr>, w)"
  using assms by (simp_all add: extract_string_def extract_signed_def extract_unsigned_def)

lemma extract_string_word:
  assumes "list_all is_space sp" and "s \<noteq> []" and "\<forall>c \<in> set s. \<not> is_space c"
    and "r \<noteq> []" and "is_space (hd r)"
  shows "extract_string (istringstream (sp @ s @ r)) old = (istringstream r, s)"
proof -
  have "sentry (istringstream (sp @ s @ r)) = (True, istringstream (s @ r))"
    using assms by (intro sentry_word) auto
  moreover have "takeWhile (\<lambda>c. \<not> is_space c) (s @ r) = s"
    using assms by (intro takeWhile_prefix) (auto simp: list_all_iff)
  moreover have "dropWhile (\<lambda>c. \<not> is_space c) (s @ r) = r"
    using assms by (intro dropWhile_prefix) (auto simp: list_all_iff)
  ultimately show ?thesis
    using assms(4)
    by (simp add: extract_string_def istringstream_def del: dropWhile_eq_Nil_conv)
qed

lemma scan_number_int_str:
  assumes "r \<noteq> []" and "\<not> is_digit (hd r)"
  shows "scan_number (istringstream (int_str i @ r))
       = (i < 0, nat_str (nat \<bar>i\<bar>), istringstream r)"
proof -
  have "takeWhile is_digit (nat_str (nat \<bar>i\<bar>) @ r) = nat_str (nat \<bar>i\<bar>)"
    and "dropWhile is_digit (nat_str (nat \<bar>i\<bar>) @ r) = r"
    using assms by (auto intro: takeWhile_prefix dropWhile_prefix)
  with assms show ?thesis
    by (simp add: scan_number_def split_sign_int_str istringstream_def
        del: dropWhile_eq_Nil_conv)
qed

lemma sentry_int_str:
  assumes "list_all is_space sp"
  shows "sentry (istringstream (sp @ int_str i @ r)) = (True, istringstream (int_str i @ r))"
proof -
  have "\<not> is_space (hd (int_str i))"
    using int_str_hd [of i] by auto
  with assms show ?thesis
    by (intro sentry_word) (simp_all add: hd_append)
qed

text \<open>Extraction reads back every value of the width that was printed before.\<close>

lemma extract_signed_int_str:
  fixes w :: "'a::len word"
  assumes "list_all is_space sp" and "r \<noteq> []" and "\<not> is_digit (hd r)"
  shows "extract_signed (istringstream (sp @ int_str (sint w) @ r)) old = (istringstream r, w)"
  using sint_in_range [of w]
  by (auto simp: extract_signed_def sentry_int_str [OF assms(1)]
      scan_number_int_str [OF assms(2,3)] Let_def)

lemma extract_unsigned_int_str:
  fixes w :: "'a::len word"
  assumes "list_all is_space sp" and "r \<noteq> []" and "\<not> is_digit (hd r)"
  shows "extract_unsigned (istringstream (sp @ int_str (uint w) @ r)) old = (istringstream r, w)"
proof -
  have "\<not> 2 ^ LENGTH('a) \<le> unat w"
    using unsigned_less [of w, where ?'a = nat] by linarith
  then show ?thesis
    by (simp add: extract_unsigned_def sentry_int_str [OF assms(1)]
        scan_number_int_str [OF assms(2,3)] Let_def)
qed

text \<open>Text that is no number stores 0 and makes the stream fail.\<close>

lemma extract_signed_not_number:
  assumes "list_all is_space sp" and "s \<noteq> []" and "\<not> is_space (hd s)"
    and "takeWhile is_digit (snd (split_sign s)) = []"
  shows "snd (extract_signed (istringstream (sp @ s)) old) = 0"
    and "\<not> good (fst (extract_signed (istringstream (sp @ s)) old))"
  using assms sentry_word [OF assms(1-3)]
  by (simp_all add: extract_signed_def scan_number_def good_def split_beta Let_def)

text \<open>\<open>while (stream >> word)\<close>: the words of the rest of the stream.\<close>

lemma extract_string_progress:
  assumes "extract_string is old = (is', s)" and "\<not> failbit is'"
  shows "length (buf is') < length (buf is)"
proof (cases "good is \<and> dropWhile is_space (buf is) \<noteq> []")
  case False
  then have "failbit (fst (extract_string is old))"
    by (auto simp: extract_string_def sentry_def simp del: dropWhile_eq_Nil_conv)
  with assms show ?thesis by simp
next
  case True
  then obtain c cs where c: "dropWhile is_space (buf is) = c # cs" by (cases "dropWhile is_space (buf is)") auto
  then have "\<not> is_space c"
    by (metis hd_dropWhile list.distinct(1) list.sel(1))
  then have "buf is' = dropWhile (\<lambda>c. \<not> is_space c) cs"
    using assms(1) True c by (auto simp: extract_string_def sentry_def Let_def)
  moreover have "length (c # cs) \<le> length (buf is)"
    using length_dropWhile_le [of is_space "buf is"] c by simp
  ultimately show ?thesis
    using length_dropWhile_le [of "\<lambda>c. \<not> is_space c" cs] by simp
qed

function extract_words :: "instream \<Rightarrow> string list" where
  "extract_words is =
     (let (is', word) = extract_string is []
      in if failbit is' then [] else word # extract_words is')"
  by pat_completeness auto
termination
  by (relation "measure (\<lambda>is. length (buf is))") (auto dest!: extract_string_progress [OF sym])

declare extract_words.simps [simp del]

end
