(* ===== verification/Regex.thy ===== *)
theory Regex
  imports Prelude
begin

text \<open>
  The regular expressions of the library and what \<open>boost::regex_match\<close> promises about
  them.  A pattern is written as the sequence of its items; the anchors at both ends of the
  source's patterns are left out because \<open>regex_match\<close> matches the whole text.  The
  relation \<open>fits\<close> says declaratively that a text is an instance of a pattern with given
  captures.  Boost is not part of the repository: it is the parameter of the locale
  \<open>regex_engine\<close> (a match is an instance, an instance is matched) and of its extension
  \<open>perl_engine\<close> (of several instances, the one that a depth-first search with greedy
  repetition finds first, as documented for Perl-syntax expressions).  \<open>backtrack\<close>, an
  executable depth-first matcher, is proved to meet both contracts.
\<close>

section \<open>Patterns\<close>

datatype cls = Digit | XDigit | Alpha | Space | Any | OneOf string

fun in_cls :: "cls \<Rightarrow> char \<Rightarrow> bool" where
  "in_cls Digit c = is_digit c"
| "in_cls XDigit c = is_xdigit c"
| "in_cls Alpha c = is_alpha c"
| "in_cls Space c = is_space c"
| "in_cls Any c = True"
| "in_cls (OneOf cs) c = (c \<in> set cs)"

text \<open>\<open>Many\<close> is \<open>*\<close>, \<open>Many1\<close> is \<open>+\<close>, \<open>Either\<close> is the alternative.\<close>

datatype atom = Lit string | One cls | Many cls | Many1 cls | Either atom atom

text \<open>\<open>Group\<close> is a capturing parenthesis; every group of the source holds one atom.\<close>

datatype item = Bare atom | Group atom

type_synonym pattern = "item list"

fun accepts :: "atom \<Rightarrow> string \<Rightarrow> bool" where
  "accepts (Lit l) u = (u = l)"
| "accepts (One k) u = (length u = 1 \<and> list_all (in_cls k) u)"
| "accepts (Many k) u = list_all (in_cls k) u"
| "accepts (Many1 k) u = (u \<noteq> [] \<and> list_all (in_cls k) u)"
| "accepts (Either a b) u = (accepts a u \<or> accepts b u)"

inductive fits :: "pattern \<Rightarrow> string \<Rightarrow> string list \<Rightarrow> bool" where
  fits_Nil: "fits [] [] []"
| fits_Bare: "accepts a u \<Longrightarrow> fits p s cs \<Longrightarrow> fits (Bare a # p) (u @ s) cs"
| fits_Group: "accepts a u \<Longrightarrow> fits p s cs \<Longrightarrow> fits (Group a # p) (u @ s) (u # cs)"

inductive_cases fits_NilE: "fits [] s cs"
inductive_cases fits_BareE: "fits (Bare a # p) s cs"
inductive_cases fits_GroupE: "fits (Group a # p) s cs"

lemma fits_Nil_iff [simp]: "fits [] s cs \<longleftrightarrow> s = [] \<and> cs = []"
  by (auto intro: fits_Nil elim: fits_NilE)

fun groups :: "pattern \<Rightarrow> nat" where
  "groups [] = 0"
| "groups (Bare _ # p) = groups p"
| "groups (Group _ # p) = Suc (groups p)"

lemma fits_groups: "fits p s cs \<Longrightarrow> length cs = groups p"
  by (induction rule: fits.induct) auto

section \<open>Depth-first search with greedy repetition\<close>

fun greedy :: "cls \<Rightarrow> string \<Rightarrow> (string \<times> string) list" where
  "greedy k [] = [([], [])]"
| "greedy k (c # cs) =
     (if in_cls k c then map (\<lambda>(u, r). (c # u, r)) (greedy k cs) else []) @ [([], c # cs)]"

fun cuts :: "atom \<Rightarrow> string \<Rightarrow> (string \<times> string) list" where
  "cuts (Lit l) s = (if take (length l) s = l then [(l, drop (length l) s)] else [])"
| "cuts (One k) s = (case s of [] \<Rightarrow> [] | c # r \<Rightarrow> if in_cls k c then [([c], r)] else [])"
| "cuts (Many k) s = greedy k s"
| "cuts (Many1 k) s = filter (\<lambda>(u, r). u \<noteq> []) (greedy k s)"
| "cuts (Either a b) s = cuts a s @ cuts b s"

fun search :: "pattern \<Rightarrow> string \<Rightarrow> string list list" where
  "search [] s = (if s = [] then [[]] else [])"
| "search (Bare a # p) s = concat (map (\<lambda>(u, r). search p r) (cuts a s))"
| "search (Group a # p) s = concat (map (\<lambda>(u, r). map ((#) u) (search p r)) (cuts a s))"

definition backtrack :: "pattern \<Rightarrow> string \<Rightarrow> string list option" where
  "backtrack p s = (case search p s of [] \<Rightarrow> None | cs # _ \<Rightarrow> Some cs)"

lemma set_greedy: "(u, r) \<in> set (greedy k s) \<longleftrightarrow> s = u @ r \<and> list_all (in_cls k) u"
proof (induction s arbitrary: u)
  case Nil
  then show ?case by auto
next
  case (Cons c s)
  show ?case
  proof (cases u)
    case Nil
    then show ?thesis by auto
  next
    case (Cons d v)
    have "(d # v, r) \<in> set (greedy k (c # s)) \<longleftrightarrow>
        in_cls k c \<and> d = c \<and> (v, r) \<in> set (greedy k s)"
      by auto
    with Cons show ?thesis by (auto simp: Cons.IH)
  qed
qed

lemma set_cuts: "(u, r) \<in> set (cuts a s) \<longleftrightarrow> s = u @ r \<and> accepts a u"
proof (induction a)
  case (Lit l)
  show ?case by (auto simp: append_eq_conv_conj) (metis append_take_drop_id)
next
  case (One k)
  show ?case by (cases s) (auto simp: length_Suc_conv Cons_eq_append_conv)
qed (auto simp: set_greedy)

lemma set_search: "cs \<in> set (search p s) \<longleftrightarrow> fits p s cs"
proof (induction p arbitrary: s cs)
  case Nil
  then show ?case by auto
next
  case (Cons i p)
  show ?case
  proof (cases i)
    case (Bare a)
    with Cons.IH show ?thesis
      by (fastforce simp: set_cuts intro: fits_Bare elim: fits_BareE)
  next
    case (Group a)
    with Cons.IH show ?thesis
      by (fastforce simp: set_cuts intro: fits_Group elim: fits_GroupE)
  qed
qed

lemma backtrack_sound: "backtrack p s = Some cs \<Longrightarrow> fits p s cs"
  by (auto simp: backtrack_def split: list.splits simp flip: set_search)

lemma backtrack_complete: "fits p s cs \<Longrightarrow> backtrack p s \<noteq> None"
  by (auto simp: backtrack_def split: list.splits simp flip: set_search)

section \<open>Patterns with a single way to match\<close>

text \<open>
  A repetition is decided by its text alone when no character it accepts can start what
  follows it.  \<open>starts\<close> over-approximates the first characters of the texts of a pattern.
\<close>

fun atom_starts :: "atom \<Rightarrow> char \<Rightarrow> bool" where
  "atom_starts (Lit l) c = (l \<noteq> [] \<and> hd l = c)"
| "atom_starts (One k) c = in_cls k c"
| "atom_starts (Many k) c = in_cls k c"
| "atom_starts (Many1 k) c = in_cls k c"
| "atom_starts (Either a b) c = (atom_starts a c \<or> atom_starts b c)"

fun nullable :: "atom \<Rightarrow> bool" where
  "nullable (Lit l) = (l = [])"
| "nullable (One k) = False"
| "nullable (Many k) = True"
| "nullable (Many1 k) = False"
| "nullable (Either a b) = (nullable a \<or> nullable b)"

fun atom_of :: "item \<Rightarrow> atom" where
  "atom_of (Bare a) = a"
| "atom_of (Group a) = a"

fun starts :: "pattern \<Rightarrow> char \<Rightarrow> bool" where
  "starts [] c = False"
| "starts (i # p) c = (atom_starts (atom_of i) c \<or> nullable (atom_of i) \<and> starts p c)"

fun decided :: "atom \<Rightarrow> pattern \<Rightarrow> bool" where
  "decided (Lit l) p = True"
| "decided (One k) p = True"
| "decided (Many k) p = (\<forall>c. in_cls k c \<longrightarrow> \<not> starts p c)"
| "decided (Many1 k) p = (\<forall>c. in_cls k c \<longrightarrow> \<not> starts p c)"
| "decided (Either a b) p = False"

fun unambiguous :: "pattern \<Rightarrow> bool" where
  "unambiguous [] = True"
| "unambiguous (i # p) = (decided (atom_of i) p \<and> unambiguous p)"

lemma accepts_starts: "accepts a (c # u) \<Longrightarrow> atom_starts a c"
  by (induction a) auto

lemma accepts_nullable: "accepts a [] \<Longrightarrow> nullable a"
  by (induction a) auto

lemma fits_starts: "fits p s cs \<Longrightarrow> s \<noteq> [] \<Longrightarrow> starts p (hd s)"
proof (induction rule: fits.induct)
  case fits_Nil
  then show ?case by simp
next
  case (fits_Bare a u p s cs)
  then show ?case
    by (cases u) (auto dest: accepts_starts accepts_nullable)
next
  case (fits_Group a u p s cs)
  then show ?case
    by (cases u) (auto dest: accepts_starts accepts_nullable)
qed

lemma decided_no_longer:
  assumes "decided a p" and "accepts a u" and "accepts a (u @ v)"
    and "fits p (v @ s) cs"
  shows "v = []"
proof (rule ccontr)
  assume v: "v \<noteq> []"
  then have st: "starts p (hd v)"
    using fits_starts [OF assms(4)] by simp
  from v have "hd v \<in> set v" by simp
  with assms(1-3) st v show False
    by (cases a) (auto simp: list_all_iff)
qed

lemma decided_unique:
  assumes "decided a p" and "accepts a u" and "accepts a u'"
    and "fits p s cs" and "fits p s' cs'" and "u @ s = u' @ s'"
  shows "u = u' \<and> s = s'"
proof -
  from assms(6) obtain v where
    "u = u' @ v \<and> v @ s = s' \<or> u @ v = u' \<and> s = v @ s'"
    unfolding append_eq_append_conv2 by blast
  then show ?thesis
    using decided_no_longer [OF assms(1)] assms(2-6)
    by (metis append_Nil append_Nil2)
qed

lemma unambiguous_unique:
  "unambiguous p \<Longrightarrow> fits p s cs \<Longrightarrow> fits p s cs' \<Longrightarrow> cs = cs'"
proof (induction p arbitrary: s cs cs')
  case Nil
  then show ?case by simp
next
  case (Cons i p)
  from Cons.prems(1) have dec: "decided (atom_of i) p" and un: "unambiguous p" by simp_all
  show ?case
  proof (cases i)
    case (Bare a)
    from Cons.prems(2) [unfolded Bare] obtain u t where
      1: "s = u @ t" "accepts a u" "fits p t cs" by (rule fits_BareE)
    from Cons.prems(3) [unfolded Bare] obtain u' t' where
      2: "s = u' @ t'" "accepts a u'" "fits p t' cs'" by (rule fits_BareE)
    have "t = t'"
      using decided_unique [of a p u u' t cs t' cs'] dec Bare 1 2 by simp
    with Cons.IH [OF un] 1 2 show ?thesis by simp
  next
    case (Group a)
    from Cons.prems(2) [unfolded Group] obtain u t ds where
      1: "s = u @ t" "cs = u # ds" "accepts a u" "fits p t ds" by (rule fits_GroupE)
    from Cons.prems(3) [unfolded Group] obtain u' t' ds' where
      2: "s = u' @ t'" "cs' = u' # ds'" "accepts a u'" "fits p t' ds'" by (rule fits_GroupE)
    have "u = u' \<and> t = t'"
      using decided_unique [of a p u u' t ds t' ds'] dec Group 1 2 by simp
    with Cons.IH [OF un] 1 2 show ?thesis by simp
  qed
qed

section \<open>The contract of boost::regex_match\<close>

locale regex_engine =
  fixes rx :: "pattern \<Rightarrow> string \<Rightarrow> string list option"
  assumes match_is_instance: "rx p s = Some cs \<Longrightarrow> fits p s cs"
    and instance_is_matched: "fits p s cs \<Longrightarrow> rx p s \<noteq> None"
begin

lemma no_match_iff: "rx p s = None \<longleftrightarrow> (\<forall>cs. \<not> fits p s cs)"
  by (metis instance_is_matched match_is_instance not_None_eq)

lemma match_groups: "rx p s = Some cs \<Longrightarrow> length cs = groups p"
  using match_is_instance fits_groups by blast

lemma match_unique: "unambiguous p \<Longrightarrow> fits p s cs \<Longrightarrow> rx p s = Some cs"
  by (metis instance_is_matched match_is_instance not_None_eq unambiguous_unique)

end

locale perl_engine =
  fixes rx :: "pattern \<Rightarrow> string \<Rightarrow> string list option"
  assumes first_found: "rx p s = (case search p s of [] \<Rightarrow> None | cs # _ \<Rightarrow> Some cs)"

sublocale perl_engine \<subseteq> regex_engine rx
proof unfold_locales
  fix p s cs
  assume "rx p s = Some cs"
  then show "fits p s cs"
    using backtrack_sound [of p s cs] by (simp add: first_found backtrack_def)
next
  fix p s cs
  assume "fits p s cs"
  then show "rx p s \<noteq> None"
    using backtrack_complete [of p s cs] by (simp add: first_found backtrack_def)
qed

lemma search_Lit [simp]: "search (Bare (Lit l) # p) (l @ r) = search p r"
  by simp

lemma search_One [simp]: "in_cls k c \<Longrightarrow> search (Bare (One k) # p) (c # r) = search p r"
  by simp

text \<open>The longest run comes first in the search.\<close>

lemma greedy_longest:
  assumes "list_all (in_cls k) u" and "r = [] \<or> \<not> in_cls k (hd r)"
  shows "\<exists>others. greedy k (u @ r) = (u, r) # others"
  using assms
proof (induction u)
  case Nil
  then show ?case by (cases r) auto
next
  case (Cons c u)
  then show ?case by auto
qed

context perl_engine
begin

lemma match_nil: "rx [] [] = Some []"
  by (simp add: first_found)

lemma match_lit: "rx p r = Some cs \<Longrightarrow> rx (Bare (Lit l) # p) (l @ r) = Some cs"
  by (simp add: first_found)

lemma match_char: "rx p r = Some cs \<Longrightarrow> rx (Bare (Lit [c]) # p) (c # r) = Some cs"
  using match_lit [of p r cs "[c]"] by simp

lemma match_one: "in_cls k c \<Longrightarrow> rx p r = Some cs \<Longrightarrow> rx (Bare (One k) # p) (c # r) = Some cs"
  by (simp add: first_found)

lemma match_one_group:
  "in_cls k c \<Longrightarrow> rx p r = Some cs \<Longrightarrow> rx (Group (One k) # p) (c # r) = Some ([c] # cs)"
  by (auto simp: first_found split: list.splits)

lemma match_many:
  assumes "list_all (in_cls k) u" and "r = [] \<or> \<not> in_cls k (hd r)" and "rx p r = Some cs"
  shows "rx (Bare (Many k) # p) (u @ r) = Some cs"
    and "rx (Group (Many k) # p) (u @ r) = Some (u # cs)"
    and "u \<noteq> [] \<Longrightarrow> rx (Bare (Many1 k) # p) (u @ r) = Some cs"
    and "u \<noteq> [] \<Longrightarrow> rx (Group (Many1 k) # p) (u @ r) = Some (u # cs)"
proof -
  obtain others where g: "greedy k (u @ r) = (u, r) # others"
    using greedy_longest [OF assms(1,2)] by blast
  obtain more where p: "search p r = cs # more"
    using assms(3) by (auto simp: first_found split: list.splits)
  show "rx (Bare (Many k) # p) (u @ r) = Some cs"
    and "rx (Group (Many k) # p) (u @ r) = Some (u # cs)"
    and "u \<noteq> [] \<Longrightarrow> rx (Bare (Many1 k) # p) (u @ r) = Some cs"
    and "u \<noteq> [] \<Longrightarrow> rx (Group (Many1 k) # p) (u @ r) = Some (u # cs)"
    by (simp_all add: first_found g p)
qed

lemma match_rest:
  assumes "list_all (in_cls k) s"
  shows "rx [Bare (Many k)] s = Some []" and "rx [Group (Many k)] s = Some [s]"
  using match_many(1,2) [OF assms, of "[]" "[]" "[]"] match_nil by simp_all

lemmas match_steps =
  match_char match_one match_one_group match_many(4) match_many(3) match_rest match_nil

end

interpretation depth_first: perl_engine backtrack
  by unfold_locales (simp add: backtrack_def)

end
