(* ===== verification/World.thy ===== *)
theory World
  imports Streams Regex
begin

text \<open>
  What the library gets from outside the repository.  A \<open>boost\<close> value holds the three
  Boost string functions the code calls; the locales say what their documentation promises,
  and \<open>reference_boost\<close> is an executable instance that keeps the promises.  A \<open>world\<close>
  value is what one call of the library finds in the file system, the clock, the user
  database and the system configuration.  No call of the library opens the same path twice,
  so one value per call covers every interleaving with the kernel: it says what each path
  holds at the moment the call reads it.
\<close>

section \<open>boost::trim and boost::split\<close>

locale trimming =
  fixes tr :: "string \<Rightarrow> string"
  assumes trim_core:
    "list_all is_space u \<Longrightarrow> list_all is_space w \<Longrightarrow>
     v = [] \<or> (\<not> is_space (hd v) \<and> \<not> is_space (last v)) \<Longrightarrow> tr (u @ v @ w) = v"
begin

lemma trim_spaces: "list_all is_space u \<Longrightarrow> tr u = []"
  using trim_core [of u "[]" "[]"] by simp

lemma trim_clean: "v = [] \<or> (\<not> is_space (hd v) \<and> \<not> is_space (last v)) \<Longrightarrow> tr v = v"
  using trim_core [of "[]" "[]" v] by simp

lemma trim_no_space: "\<forall>c \<in> set v. \<not> is_space c \<Longrightarrow> tr v = v"
  by (rule trim_clean) (cases "v = []", auto)

end

text \<open>
  \<open>boost::split\<close> with \<open>is_any_of\<close> of one character and without token compression: one
  token more than there are delimiters.
\<close>

locale splitting =
  fixes sp :: "char \<Rightarrow> string \<Rightarrow> string list"
  assumes split_plain: "d \<notin> set s \<Longrightarrow> sp d s = [s]"
    and split_at: "d \<notin> set t \<Longrightarrow> sp d (t @ d # s) = t # sp d s"
begin

lemma split_nonempty: "sp d s \<noteq> []"
proof (cases "d \<in> set s")
  case True
  then obtain t u where "s = t @ d # u" "d \<notin> set t"
    by (metis split_list_first)
  then show ?thesis by (simp add: split_at)
next
  case False
  then show ?thesis by (simp add: split_plain)
qed

end

fun join :: "char \<Rightarrow> string list \<Rightarrow> string" where
  "join d [] = []"
| "join d [t] = t"
| "join d (t # u # ts) = t @ d # join d (u # ts)"

context splitting
begin

lemma split_join: "ts \<noteq> [] \<Longrightarrow> \<forall>t \<in> set ts. d \<notin> set t \<Longrightarrow> sp d (join d ts) = ts"
  by (induction d ts rule: join.induct) (simp_all add: split_plain split_at)

end

definition strip :: "string \<Rightarrow> string" where
  "strip s = rev (dropWhile is_space (rev (dropWhile is_space s)))"

fun tokens :: "char \<Rightarrow> string \<Rightarrow> string list" where
  "tokens d [] = [[]]"
| "tokens d (c # cs) =
     (if c = d then [] # tokens d cs
      else case tokens d cs of [] \<Rightarrow> [[c]] | t # ts \<Rightarrow> (c # t) # ts)"

lemma strip_core:
  assumes "list_all is_space u" and "list_all is_space w"
    and "v = [] \<or> (\<not> is_space (hd v) \<and> \<not> is_space (last v))"
  shows "strip (u @ v @ w) = v"
proof (cases "v = []")
  case True
  with assms have "dropWhile is_space (u @ w) = []"
    by (intro dropWhile_all) simp
  with True show ?thesis
    by (simp add: strip_def del: dropWhile_eq_Nil_conv)
next
  case False
  with assms have "dropWhile is_space (u @ v @ w) = v @ w"
    by (intro dropWhile_prefix) auto
  moreover have "dropWhile is_space (rev w @ rev v) = rev v"
    using assms False by (intro dropWhile_prefix) (auto simp: hd_rev list_all_iff)
  ultimately show ?thesis by (simp add: strip_def)
qed

lemma tokens_plain: "d \<notin> set s \<Longrightarrow> tokens d s = [s]"
  by (induction s) auto

lemma tokens_at: "d \<notin> set t \<Longrightarrow> tokens d (t @ d # s) = t # tokens d s"
  by (induction t) auto

section \<open>The Boost string library\<close>

record boost =
  regex_match :: "pattern \<Rightarrow> string \<Rightarrow> string list option"
  trim :: "string \<Rightarrow> string"
  split_any :: "char \<Rightarrow> string \<Rightarrow> string list"

locale boost_library =
  regex_engine "regex_match B" + trimming "trim B" + splitting "split_any B"
  for B :: boost

locale boost_perl = boost_library B + perl_engine "regex_match B"
  for B :: boost

definition reference_boost :: boost where
  "reference_boost = \<lparr>regex_match = backtrack, trim = strip, split_any = tokens\<rparr>"

interpretation reference: boost_perl reference_boost
proof unfold_locales
  show "regex_match reference_boost p s = (case search p s of [] \<Rightarrow> None | cs # _ \<Rightarrow> Some cs)"
    for p s
    by (simp add: reference_boost_def backtrack_def)
next
  show "regex_match reference_boost p s = Some cs \<Longrightarrow> fits p s cs" for p s cs
    by (simp add: reference_boost_def backtrack_sound)
next
  show "fits p s cs \<Longrightarrow> regex_match reference_boost p s \<noteq> None" for p s cs
    by (simp add: reference_boost_def backtrack_complete)
next
  show "list_all is_space u \<Longrightarrow> list_all is_space w \<Longrightarrow>
     v = [] \<or> (\<not> is_space (hd v) \<and> \<not> is_space (last v)) \<Longrightarrow>
     trim reference_boost (u @ v @ w) = v" for u v w
    by (simp add: reference_boost_def strip_core)
next
  show "d \<notin> set s \<Longrightarrow> split_any reference_boost d s = [s]" for d s
    by (simp add: reference_boost_def tokens_plain)
next
  show "d \<notin> set t \<Longrightarrow>
     split_any reference_boost d (t @ d # s) = t # split_any reference_boost d s" for d t s
    by (simp add: reference_boost_def tokens_at)
qed

lemma reference_boost_simps [simp]:
  "regex_match reference_boost = backtrack" "trim reference_boost = strip"
  "split_any reference_boost = tokens"
  by (simp_all add: reference_boost_def)

section \<open>The system around a call\<close>

record dir_entry =
  filename :: string
  is_dir :: bool

text \<open>
  \<open>files\<close>: the content of a file, or \<^term>\<open>None\<close> when it cannot be opened.
  \<open>symlinks\<close>: the target of a link, or \<^term>\<open>None\<close> when \<open>read_symlink\<close> reports an error.
  \<open>directories\<close>: the entries in the order of the iterator, or \<^term>\<open>None\<close> when the
  iterator throws.  \<open>rdevs\<close>: \<open>st_rdev\<close> of a path whose \<open>stat\<close> succeeds.  \<open>users\<close>:
  \<open>getpwuid\<close>.  \<open>clk_tck\<close> and \<open>uptime\<close>: \<open>sysconf(_SC_CLK_TCK)\<close> and \<open>sysinfo\<close>.
  \<open>clock\<close>: \<open>system_clock::now\<close> in nanoseconds.
\<close>

record world =
  files :: "string \<Rightarrow> string option"
  symlinks :: "string \<Rightarrow> string option"
  directories :: "string \<Rightarrow> dir_entry list option"
  rdevs :: "string \<Rightarrow> c_ulong option"
  users :: "c_int \<Rightarrow> string option"
  clk_tck :: c_long
  uptime :: c_long
  clock :: c_long

definition empty_world :: world where
  "empty_world = \<lparr>files = Map.empty, symlinks = Map.empty, directories = Map.empty,
     rdevs = Map.empty, users = Map.empty, clk_tck = 100, uptime = 0, clock = 0\<rparr>"

definition ifstream :: "world \<Rightarrow> string \<Rightarrow> instream" where
  "ifstream w path = open_file (files w path)"

definition is_open :: "world \<Rightarrow> string \<Rightarrow> bool" where
  "is_open w path = (files w path \<noteq> None)"

text \<open>
  \<open>read_symlink(path, ec).string()\<close>: the error code form does not throw and yields the
  empty path.
\<close>

definition read_symlink :: "world \<Rightarrow> string \<Rightarrow> string" where
  "read_symlink w path = (case symlinks w path of None \<Rightarrow> [] | Some t \<Rightarrow> t)"

end
