(* ===== verification/MMap.thy ===== *)
theory MMap
  imports World
begin

text \<open>
  \<open>mmap.h\<close> and \<open>mmap.cpp\<close>: one mapping of \<open>/proc/<pid>/smaps\<close>, its constructor from
  the text of the mapping, its getters and its category.  The scalar members have no
  initialiser in the source, so the constructor takes the values they happen to hold as
  its argument \<open>raw\<close>.
\<close>

section \<open>Data\<close>

datatype mapping_type = shared | priv

record mmap =
  m_address_from :: string
  m_address_to :: string
  m_perm_read :: bool
  m_perm_write :: bool
  m_perm_execute :: bool
  m_type :: mapping_type
  m_offset :: c_int
  m_dev_major :: c_int
  m_dev_minor :: c_int
  m_inode :: c_long
  m_pathname :: string
  m_size :: c_int
  m_rss :: c_int
  m_pss :: c_int
  m_shared_clean :: c_int
  m_shared_dirty :: c_int
  m_private_clean :: c_int
  m_private_dirty :: c_int
  m_referenced :: c_int
  m_anonymous :: c_int
  m_anonhugepages :: c_int
  m_swap :: c_int
  m_kernelpagesize :: c_int
  m_mmupagesize :: c_int
  m_locked :: c_int
  m_vmflags :: "string list"
  m_category :: string

section \<open>Parsing\<close>

text \<open>
  \<^verbatim>\<open>^([[:xdigit:]]+)-([[:xdigit:]]+)\s([r-])([w-])([x-])([sp])\s([[:xdigit:]]+)\s([[:xdigit:]]+):([[:xdigit:]]+)\s([[:digit:]]+)\s+(.*)$\<close>
\<close>

definition regex_declare_mapping :: pattern where
  "regex_declare_mapping =
    [Group (Many1 XDigit), Bare (Lit ''-''), Group (Many1 XDigit), Bare (One Space),
     Group (One (OneOf ''r-'')), Group (One (OneOf ''w-'')), Group (One (OneOf ''x-'')),
     Group (One (OneOf ''sp'')), Bare (One Space), Group (Many1 XDigit), Bare (One Space),
     Group (Many1 XDigit), Bare (Lit '':''), Group (Many1 XDigit), Bare (One Space),
     Group (Many1 Digit), Bare (Many1 Space), Group (Many Any)]"

text \<open>\<^verbatim>\<open>^([[:alpha:]]+):\s+(.*)$\<close> and \<^verbatim>\<open>^([[:digit:]])\s.*$\<close>\<close>

definition regex_key_value :: pattern where
  "regex_key_value =
    [Group (Many1 Alpha), Bare (Lit '':''), Bare (Many1 Space), Group (Many Any)]"

definition regex_value :: pattern where
  "regex_value = [Group (One Digit), Bare (One Space), Bare (Many Any)]"

definition parse_declaration :: "boost \<Rightarrow> string \<Rightarrow> (mmap, unit) action" where
  "parse_declaration B map_declaration =
     (case regex_match B regex_declare_mapping map_declaration of
        Some [m1, m2, m3, m4, m5, m6, m7, m8, m9, m10, m11] \<Rightarrow>
          do_all
            [modify (\<lambda>m. m\<lparr>m_address_from := m1\<rparr>),
             modify (\<lambda>m. m\<lparr>m_address_to := m2\<rparr>),
             modify (\<lambda>m. m\<lparr>m_perm_read := (m3 = ''r'')\<rparr>),
             modify (\<lambda>m. m\<lparr>m_perm_write := (m4 = ''w'')\<rparr>),
             modify (\<lambda>m. m\<lparr>m_perm_execute := (m5 = ''x'')\<rparr>),
             modify (\<lambda>m. m\<lparr>m_type := (if m6 = ''p'' then priv else shared)\<rparr>),
             assign (stol 10 m7) (\<lambda>v m. m\<lparr>m_offset := ucast v\<rparr>),
             assign (stoi 16 m8) (\<lambda>v m. m\<lparr>m_dev_major := v\<rparr>),
             assign (stoi 16 m9) (\<lambda>v m. m\<lparr>m_dev_minor := v\<rparr>),
             assign (stol 10 m10) (\<lambda>v m. m\<lparr>m_inode := v\<rparr>),
             modify (\<lambda>m. m\<lparr>m_pathname := m11\<rparr>)]
      | _ \<Rightarrow> returns ())"

text \<open>The chain of comparisons with the names of the attributes, in the source's order.\<close>

definition attribute_field :: "string \<Rightarrow> (c_int \<Rightarrow> mmap \<Rightarrow> mmap) option" where
  "attribute_field = map_of
    [(''Size'', \<lambda>n m. m\<lparr>m_size := n\<rparr>),
     (''Rss'', \<lambda>n m. m\<lparr>m_rss := n\<rparr>),
     (''Pss'', \<lambda>n m. m\<lparr>m_pss := n\<rparr>),
     (''Shared_Clean'', \<lambda>n m. m\<lparr>m_shared_clean := n\<rparr>),
     (''Shared_Dirty'', \<lambda>n m. m\<lparr>m_shared_dirty := n\<rparr>),
     (''Private_Clean'', \<lambda>n m. m\<lparr>m_private_clean := n\<rparr>),
     (''Private_Dirty'', \<lambda>n m. m\<lparr>m_private_dirty := n\<rparr>),
     (''Referenced'', \<lambda>n m. m\<lparr>m_referenced := n\<rparr>),
     (''Anonymous'', \<lambda>n m. m\<lparr>m_anonymous := n\<rparr>),
     (''AnonHugePages'', \<lambda>n m. m\<lparr>m_anonhugepages := n\<rparr>),
     (''Swap'', \<lambda>n m. m\<lparr>m_swap := n\<rparr>),
     (''KernelPageSize'', \<lambda>n m. m\<lparr>m_kernelpagesize := n\<rparr>),
     (''MMUPageSize'', \<lambda>n m. m\<lparr>m_mmupagesize := n\<rparr>),
     (''Locked'', \<lambda>n m. m\<lparr>m_locked := n\<rparr>)]"

definition parse_attribute :: "boost \<Rightarrow> string \<Rightarrow> (mmap, unit) action" where
  "parse_attribute B line =
     (case regex_match B regex_key_value line of
        Some [m1, m2] \<Rightarrow>
          (let value = trim B m2
           in case regex_match B regex_value value of
                Some match_value \<Rightarrow>
                  (case attribute_field m1 of
                     Some field \<Rightarrow>
                       assign (stoi 10 (case match_value of [] \<Rightarrow> [] | v # _ \<Rightarrow> v)) field
                   | None \<Rightarrow> returns ())
              | None \<Rightarrow> modify (\<lambda>m. m\<lparr>m_vmflags := split_any B CHR '' '' value\<rparr>))
      | _ \<Rightarrow> returns ())"

definition defineCategory :: "mmap \<Rightarrow> mmap" where
  "defineCategory m =
     (if has_substr ''/usr/bin'' (m_pathname m) \<or> has_substr ''/usr/lib'' (m_pathname m)
         \<or> m_pathname m = ''[vsyscall]'' \<or> m_pathname m = ''[vdso]''
         \<or> m_pathname m = ''[vvar]''
      then m\<lparr>m_category := ''Image''\<rparr>
      else if has_substr ''[heap]'' (m_pathname m) then m\<lparr>m_category := ''Heap''\<rparr>
      else if has_substr ''[stack'' (m_pathname m) then m\<lparr>m_category := ''Stack''\<rparr>
      else if m_type m = shared then m\<lparr>m_category := ''Shareable''\<rparr>
      else if m_pathname m \<noteq> [] then m\<lparr>m_category := ''Mapped File''\<rparr>
      else if m_pathname m = [] then m\<lparr>m_category := ''Private''\<rparr>
      else m)"

text \<open>The members of class type start empty, the others hold what the memory held.\<close>

definition fresh_mmap :: "mmap \<Rightarrow> mmap" where
  "fresh_mmap raw = raw\<lparr>m_address_from := [], m_address_to := [], m_pathname := [],
     m_vmflags := [], m_category := []\<rparr>"

definition mk_MMap :: "boost \<Rightarrow> mmap \<Rightarrow> string \<Rightarrow> mmap \<times> unit outcome" where
  "mk_MMap B raw ss =
     (let (ss', map_declaration) = getline CHR 0x0A (istringstream ss) []
      in do_all
           [parse_declaration B map_declaration,
            for_each (parse_attribute B) (lines_of ss'),
            modify defineCategory] (fresh_mmap raw))"

section \<open>Getters\<close>

definition addressFrom :: "mmap \<Rightarrow> string" where "addressFrom m = m_address_from m"
definition addressTo :: "mmap \<Rightarrow> string" where "addressTo m = m_address_to m"
definition permRead :: "mmap \<Rightarrow> bool" where "permRead m = m_perm_read m"
definition permWrite :: "mmap \<Rightarrow> bool" where "permWrite m = m_perm_write m"
definition permExecute :: "mmap \<Rightarrow> bool" where "permExecute m = m_perm_execute m"

definition permissions :: "mmap \<Rightarrow> string" where
  "permissions m =
     (let p1 = [] @ (if m_perm_read m then ''r'' else ''-'');
          p2 = p1 @ (if m_perm_write m then ''w'' else ''-'')
      in p2 @ (if m_perm_execute m then ''x'' else ''-''))"

definition map_type :: "mmap \<Rightarrow> string" where
  "map_type m = (if m_type m = shared then ''Shared'' else ''Private'')"

definition vmFlags :: "mmap \<Rightarrow> string list" where "vmFlags m = m_vmflags m"
definition map_path :: "mmap \<Rightarrow> string" where "map_path m = m_pathname m"
definition map_size :: "mmap \<Rightarrow> c_int" where "map_size m = m_size m"
definition category :: "mmap \<Rightarrow> string" where "category m = m_category m"

section \<open>The declaration line\<close>

text \<open>The line as the kernel prints it, from its parts.\<close>

definition declaration_line ::
  "string \<Rightarrow> string \<Rightarrow> bool \<Rightarrow> bool \<Rightarrow> bool \<Rightarrow> bool \<Rightarrow> string \<Rightarrow> string \<Rightarrow> string \<Rightarrow> string
   \<Rightarrow> string \<Rightarrow> string \<Rightarrow> string" where
  "declaration_line from to r w x p off maj mino ino sp path =
     from @ CHR ''-'' # to @ CHR '' '' # (if r then CHR ''r'' else CHR ''-'')
     # (if w then CHR ''w'' else CHR ''-'') # (if x then CHR ''x'' else CHR ''-'')
     # (if p then CHR ''p'' else CHR ''s'') # CHR '' '' # off @ CHR '' '' # maj @ CHR '':''
     # mino @ CHR '' '' # ino @ sp @ path"

definition hex_field :: "string \<Rightarrow> bool" where
  "hex_field s \<longleftrightarrow> s \<noteq> [] \<and> list_all is_xdigit s"

definition dec_field :: "string \<Rightarrow> bool" where
  "dec_field s \<longleftrightarrow> s \<noteq> [] \<and> list_all is_digit s"

definition padding :: "string \<Rightarrow> bool" where
  "padding s \<longleftrightarrow> s \<noteq> [] \<and> list_all is_space s"

lemma in_cls_eta [simp]:
  "in_cls XDigit = is_xdigit" "in_cls Digit = is_digit" "in_cls Space = is_space"
  "in_cls Alpha = is_alpha"
  by (simp_all add: fun_eq_iff)

lemma padding_hd: "padding s \<Longrightarrow> is_space (hd (s @ r))"
  by (cases s) (auto simp: padding_def)

lemma space_not_digit: "is_space c \<Longrightarrow> \<not> is_digit c"
  by auto

lemma list_all_Any [simp]: "list_all (in_cls Any) s"
  by (simp add: list_all_iff)

lemma xdigit_literals [simp]:
  "\<not> is_xdigit CHR '' ''" "\<not> is_xdigit CHR '':''" "\<not> is_xdigit CHR ''-''"
  by (simp_all add: is_xdigit_def)

text \<open>The items up to the inode, in front of any pattern \<open>q\<close> that matches the rest.\<close>

lemma declaration_head:
  assumes "perl_engine rx"
    and "hex_field from" "hex_field to" "hex_field off" "hex_field maj" "hex_field mino"
    and "cr \<in> set ''r-''" "cw \<in> set ''w-''" "cx \<in> set ''x-''" "cp \<in> set ''sp''"
    and "rx q t = Some cs"
  shows "rx (Group (Many1 XDigit) # Bare (Lit ''-'') # Group (Many1 XDigit) # Bare (One Space)
      # Group (One (OneOf ''r-'')) # Group (One (OneOf ''w-'')) # Group (One (OneOf ''x-''))
      # Group (One (OneOf ''sp'')) # Bare (One Space) # Group (Many1 XDigit) # Bare (One Space)
      # Group (Many1 XDigit) # Bare (Lit '':'') # Group (Many1 XDigit) # Bare (One Space) # q)
      (from @ CHR ''-'' # to @ CHR '' '' # cr # cw # cx # cp # CHR '' '' # off @ CHR '' ''
        # maj @ CHR '':'' # mino @ CHR '' '' # t)
    = Some (from # to # [cr] # [cw] # [cx] # [cp] # off # maj # mino # cs)"
  using assms(2-10)
  by (intro perl_engine.match_steps [OF assms(1)] assms(11)) (simp_all add: hex_field_def)

lemma declaration_captures:
  assumes "boost_perl B"
    and "hex_field from" "hex_field to" "hex_field off" "hex_field maj" "hex_field mino"
    and "dec_field ino" "padding sp" "path = [] \<or> \<not> is_space (hd path)"
  shows "regex_match B regex_declare_mapping
      (declaration_line from to r w x p off maj mino ino sp path) =
    Some [from, to, [if r then CHR ''r'' else CHR ''-''], [if w then CHR ''w'' else CHR ''-''],
          [if x then CHR ''x'' else CHR ''-''], [if p then CHR ''p'' else CHR ''s''],
          off, maj, mino, ino, path]"
proof -
  have perl: "perl_engine (regex_match B)"
    using assms(1) by (simp add: boost_perl_def)
  note many = perl_engine.match_many [OF perl] and rest = perl_engine.match_rest [OF perl]
  have ino: "sp @ path = [] \<or> \<not> is_digit (hd (sp @ path))"
    using padding_hd [OF assms(8)] space_not_digit by blast
  have "regex_match B [Bare (Many1 Space), Group (Many Any)] (sp @ path) = Some [path]"
    using assms(8,9) by (intro many(3) rest) (auto simp: padding_def)
  then have tail: "regex_match B [Group (Many1 Digit), Bare (Many1 Space), Group (Many Any)]
      (ino @ sp @ path) = Some [ino, path]"
    using assms(7) ino by (intro many(4)) (auto simp: dec_field_def)
  show ?thesis
    unfolding regex_declare_mapping_def declaration_line_def
    by (rule declaration_head [OF perl assms(2-6) _ _ _ _ tail]) simp_all
qed

lemma parse_declaration_line:
  assumes "boost_perl B"
    and "hex_field from" "hex_field to" "hex_field off" "hex_field maj" "hex_field mino"
    and "dec_field ino" "padding sp" "path = [] \<or> \<not> is_space (hd path)"
  shows "parse_declaration B (declaration_line from to r w x p off maj mino ino sp path) m =
    do_all
      [assign (stol 10 off) (\<lambda>v m. m\<lparr>m_offset := ucast v\<rparr>),
       assign (stoi 16 maj) (\<lambda>v m. m\<lparr>m_dev_major := v\<rparr>),
       assign (stoi 16 mino) (\<lambda>v m. m\<lparr>m_dev_minor := v\<rparr>),
       assign (stol 10 ino) (\<lambda>v m. m\<lparr>m_inode := v\<rparr>),
       modify (\<lambda>m. m\<lparr>m_pathname := path\<rparr>)]
      (m\<lparr>m_address_from := from, m_address_to := to, m_perm_read := r, m_perm_write := w,
         m_perm_execute := x, m_type := (if p then priv else shared)\<rparr>)"
  unfolding parse_declaration_def declaration_captures [OF assms]
  by (cases r; cases w; cases x; cases p) (simp_all add: run_simps)

section \<open>Attribute lines\<close>

lemma key_value_captures:
  assumes "boost_perl B" and "k \<noteq> []" "list_all is_alpha k" "padding sp"
    and "v = [] \<or> \<not> is_space (hd v)"
  shows "regex_match B regex_key_value (k @ CHR '':'' # sp @ v) = Some [k, v]"
proof -
  have perl: "perl_engine (regex_match B)"
    using assms(1) by (simp add: boost_perl_def)
  show ?thesis
    unfolding regex_key_value_def using assms(2-5)
    by (intro perl_engine.match_steps [OF perl])
       (auto simp: padding_def is_alpha_def Let_def)
qed

lemma unambiguous_value: "unambiguous regex_value"
  by (simp add: regex_value_def)

lemma value_instance:
  "fits regex_value s cs \<longleftrightarrow> (\<exists>d c r. s = d # c # r \<and> cs = [[d]] \<and> is_digit d \<and> is_space c)"
proof
  assume "fits regex_value s cs"
  then show "\<exists>d c r. s = d # c # r \<and> cs = [[d]] \<and> is_digit d \<and> is_space c"
    unfolding regex_value_def
    by (auto elim!: fits_GroupE fits_BareE simp: length_Suc_conv)
next
  assume "\<exists>d c r. s = d # c # r \<and> cs = [[d]] \<and> is_digit d \<and> is_space c"
  then obtain d c r where *: "s = d # c # r" "cs = [[d]]" "is_digit d" "is_space c" by blast
  have "fits [Bare (Many Any)] (r @ []) []"
    by (rule fits_Bare) simp_all
  then have "fits [Bare (One Space), Bare (Many Any)] ([c] @ r) []"
    using * by (intro fits_Bare) simp_all
  then have "fits regex_value ([d] @ [c] @ r) [[d]]"
    unfolding regex_value_def using * by (intro fits_Group) simp_all
  with * show "fits regex_value s cs" by simp
qed

lemma value_match:
  assumes "boost_library B"
  shows "regex_match B regex_value (d # c # r) =
    (if is_digit d \<and> is_space c then Some [[d]] else None)"
proof -
  have rx: "regex_engine (regex_match B)"
    using assms by (simp add: boost_library_def)
  show ?thesis
    using regex_engine.match_unique [OF rx unambiguous_value, of "d # c # r" "[[d]]"]
      regex_engine.no_match_iff [OF rx, of regex_value "d # c # r"]
    by (auto simp: value_instance)
qed

lemma nat_str_two:
  assumes "\<not> n < 10"
  obtains d e ds where "nat_str n = d # e # ds" and "is_digit d" and "is_digit e"
proof -
  have "length (nat_str n) \<noteq> 0" and "length (nat_str n) \<noteq> 1"
    using assms nat_str_single_iff [of n] by auto
  then obtain d e ds where n: "nat_str n = d # e # ds"
    by (metis One_nat_def length_0_conv length_Cons list.exhaust)
  moreover have "list_all is_digit (d # e # ds)"
    using nat_str_digits [of n] n by simp
  ultimately show thesis using that by simp
qed

lemma space_not_in_nat_str: "CHR '' '' \<notin> set (nat_str n)"
  using nat_str_digits [of n] by (auto simp: list_all_iff)

text \<open>A line of the kernel's form \<open>Key:  n kB\<close> with an alphabetic key that the code knows.\<close>

lemma attribute_line:
  assumes "boost_perl B" and "attribute_field k = Some field" and "list_all is_alpha k"
    and "k \<noteq> []" and "padding sp"
  shows "parse_attribute B (k @ CHR '':'' # sp @ nat_str n @ '' kB'') m =
    (if n < 10 then (field (of_nat n) m, Inr ())
     else (m\<lparr>m_vmflags := [nat_str n, ''kB'']\<rparr>, Inr ()))"
proof -
  have lib: "boost_library B"
    using assms(1) by (simp add: boost_perl_def)
  have tr: "trimming (trim B)" and sp: "splitting (split_any B)"
    using lib by (simp_all add: boost_library_def)
  let ?v = "nat_str n @ '' kB''"
  have hd: "\<not> is_space (hd ?v)"
    using nat_str_hd [of n] by (auto simp: hd_append)
  have kv: "regex_match B regex_key_value (k @ CHR '':'' # sp @ ?v) = Some [k, ?v]"
    using key_value_captures [OF assms(1,4,3,5), of ?v] hd by simp
  have tv: "trim B ?v = ?v"
    by (rule trimming.trim_clean [OF tr]) (use hd in \<open>simp add: is_space_def\<close>)
  have split: "split_any B CHR '' '' ?v = [nat_str n, ''kB'']"
    using splitting.split_at [OF sp space_not_in_nat_str, where s = "''kB''"]
      splitting.split_plain [OF sp, of "CHR '' ''" "''kB''"] by simp
  show ?thesis
  proof (cases "n < 10")
    case True
    have "regex_match B regex_value ?v = Some [[digit_char n]]"
      using True value_match [OF lib, of "digit_char n" "CHR '' ''"] by (simp add: nat_str_digit)
    moreover have "stoi 10 [digit_char n] = Inr (of_nat n)"
      using True sto_digits [of "[digit_char n]", where ?'a = 32] by (simp add: stoi_def)
    ultimately show ?thesis
      unfolding parse_attribute_def kv using True tv assms(2) by (simp add: run_simps)
  next
    case False
    then obtain d e ds where "nat_str n = d # e # ds" "is_digit e"
      by (rule nat_str_two)
    then have "regex_match B regex_value ?v = None"
      using value_match [OF lib, of d e] by simp
    then show ?thesis
      unfolding parse_attribute_def kv using False tv split by (simp add: run_simps)
  qed
qed

text \<open>
  An attribute whose name is not purely alphabetic (\<open>Shared_Clean\<close>, \<open>Private_Dirty\<close>
  and the others with an underscore) is never recognised: its line changes nothing, whatever
  its value.
\<close>

theorem attribute_underscore_ignored:
  assumes "boost_library B" and "CHR '':'' \<notin> set k" and "\<not> list_all is_alpha k"
  shows "parse_attribute B (k @ CHR '':'' # v) m = (m, Inr ())"
proof -
  have rx: "regex_engine (regex_match B)"
    using assms(1) by (simp add: boost_library_def)
  have "\<not> fits regex_key_value (k @ CHR '':'' # v) cs" for cs
  proof
    assume "fits regex_key_value (k @ CHR '':'' # v) cs"
    then obtain u t where u: "list_all is_alpha u" "k @ CHR '':'' # v = u @ CHR '':'' # t"
      unfolding regex_key_value_def by (auto elim!: fits_GroupE fits_BareE)
    have "CHR '':'' \<notin> set u"
      using u(1) by (auto simp: list_all_iff is_alpha_def Let_def)
    with assms(2) u(2) have "k = u"
      using takeWhile_not_in [of "CHR '':''" k v] takeWhile_not_in [of "CHR '':''" u t] by simp
    with assms(3) u(1) show False by simp
  qed
  then have "regex_match B regex_key_value (k @ CHR '':'' # v) = None"
    by (simp add: regex_engine.no_match_iff [OF rx])
  then show ?thesis
    by (simp add: parse_attribute_def run_simps)
qed

theorem attribute_underscore_ignored_witness:
  "\<forall>m. parse_attribute reference_boost (''Shared_Clean'' @ CHR '':'' # ''     4 kB'') m = (m, Inr ())"
  by (intro allI attribute_underscore_ignored [OF reference.boost_library_axioms])
     (simp_all add: is_alpha_def)

text \<open>
  The fourteen keys of the attributes with a value and the members that belong to them, in the
  order of the class declaration and stated apart from \<open>attribute_field\<close>; the other members.
\<close>

definition attribute_keys :: "string list" where
  "attribute_keys = [''Size'', ''Rss'', ''Pss'', ''Shared_Clean'', ''Shared_Dirty'',
     ''Private_Clean'', ''Private_Dirty'', ''Referenced'', ''Anonymous'', ''AnonHugePages'',
     ''Swap'', ''KernelPageSize'', ''MMUPageSize'', ''Locked'']"

definition attribute_values :: "mmap \<Rightarrow> c_int list" where
  "attribute_values m = [m_size m, m_rss m, m_pss m, m_shared_clean m, m_shared_dirty m,
     m_private_clean m, m_private_dirty m, m_referenced m, m_anonymous m, m_anonhugepages m,
     m_swap m, m_kernelpagesize m, m_mmupagesize m, m_locked m]"

definition outside_attributes where
  "outside_attributes m = (m_address_from m, m_address_to m, m_perm_read m, m_perm_write m,
     m_perm_execute m, m_type m, m_offset m, m_dev_major m, m_dev_minor m, m_inode m,
     m_pathname m, m_category m)"

lemma less_fourteen:
  "(i :: nat) < 14 \<longleftrightarrow> i = 0 \<or> i = 1 \<or> i = 2 \<or> i = 3 \<or> i = 4 \<or> i = 5 \<or> i = 6 \<or> i = 7 \<or> i = 8
     \<or> i = 9 \<or> i = 10 \<or> i = 11 \<or> i = 12 \<or> i = 13"
  by presburger

lemma attribute_keys_length: "length attribute_keys = 14"
  by (simp add: attribute_keys_def)

lemma attribute_key_field:
  assumes "i < length attribute_keys"
  shows "\<exists>field. attribute_field (attribute_keys ! i) = Some field
    \<and> (\<forall>v m. attribute_values (field v m) = (attribute_values m)[i := v]
        \<and> m_vmflags (field v m) = m_vmflags m \<and> outside_attributes (field v m) = outside_attributes m)"
  using assms
  unfolding attribute_keys_length less_fourteen unfolding attribute_keys_def attribute_field_def
    attribute_values_def outside_attributes_def
  by (elim disjE) simp_all

lemma attribute_key_chars:
  assumes "i < length attribute_keys"
  shows "list_all is_alpha (attribute_keys ! i) \<longleftrightarrow> CHR ''_'' \<notin> set (attribute_keys ! i)"
    and "attribute_keys ! i \<noteq> []" and "CHR '':'' \<notin> set (attribute_keys ! i)"
  using assms
  unfolding attribute_keys_length less_fourteen unfolding attribute_keys_def
  by (elim disjE; simp add: is_alpha_def)+

text \<open>
  C38. The line \<open>Key:  n kB\<close> of each of the fourteen attributes.  When the key has no underscore,
  a value of one digit is stored in the member of that key, and a longer one is not stored but
  overwrites the flags of the mapping with its text and its unit; when the key has an
  underscore the line changes nothing, whatever its value.  No line throws, and no other
  member changes.
\<close>

theorem attribute_value_single_digit:
  assumes "boost_perl B" and "i < length attribute_keys" and "padding sp"
    and "underscore = (CHR ''_'' \<in> set (attribute_keys ! i))"
  shows "\<exists>m'. parse_attribute B (attribute_keys ! i @ CHR '':'' # sp @ nat_str n @ '' kB'') m = (m', Inr ())
    \<and> attribute_values m' =
        (if \<not> underscore \<and> n < 10 then (attribute_values m)[i := of_nat n] else attribute_values m)
    \<and> m_vmflags m' = (if \<not> underscore \<and> 10 \<le> n then [nat_str n, ''kB''] else m_vmflags m)
    \<and> outside_attributes m' = outside_attributes m"
proof (cases underscore)
  case True
  then have "\<not> list_all is_alpha (attribute_keys ! i)"
    using attribute_key_chars(1) [OF assms(2)] assms(4) by simp
  with attribute_underscore_ignored [OF _ attribute_key_chars(3) [OF assms(2)]] assms(1) True
  show ?thesis by (simp add: boost_perl_def)
next
  case False
  from attribute_key_field [OF assms(2)] obtain field where
    field: "attribute_field (attribute_keys ! i) = Some field"
      "attribute_values (field v m) = (attribute_values m)[i := v]"
      "m_vmflags (field v m) = m_vmflags m" "outside_attributes (field v m) = outside_attributes m"
    for v m by blast
  have "list_all is_alpha (attribute_keys ! i)"
    using attribute_key_chars(1) [OF assms(2)] assms(4) False by simp
  note line = attribute_line [OF assms(1) field(1) this attribute_key_chars(2) [OF assms(2)] assms(3)]
  show ?thesis
    using False
    by (cases "n < 10") (simp_all add: line field(2-4), simp add: attribute_values_def outside_attributes_def)
qed

theorem attribute_value_single_digit_witness:
  "\<forall>m. \<exists>m1 m2 m3.
     parse_attribute reference_boost (attribute_keys ! 2 @ CHR '':'' # ''   '' @ nat_str 4 @ '' kB'') m
       = (m1, Inr ()) \<and> m_pss m1 = 4 \<and> m_size m1 = m_size m
   \<and> parse_attribute reference_boost (attribute_keys ! 2 @ CHR '':'' # ''   '' @ nat_str 132 @ '' kB'') m
       = (m2, Inr ()) \<and> m_pss m2 = m_pss m \<and> m_vmflags m2 = [nat_str 132, ''kB'']
   \<and> parse_attribute reference_boost (attribute_keys ! 3 @ CHR '':'' # ''   '' @ nat_str 4 @ '' kB'') m
       = (m3, Inr ()) \<and> m_shared_clean m3 = m_shared_clean m \<and> m_vmflags m3 = m_vmflags m"
proof
  fix m
  have k: "2 < length attribute_keys" "3 < length attribute_keys" "padding ''   ''"
    "False = (CHR ''_'' \<in> set (attribute_keys ! 2))" "True = (CHR ''_'' \<in> set (attribute_keys ! 3))"
    by (simp_all add: attribute_keys_def padding_def)
  note short = attribute_value_single_digit [OF reference.boost_perl_axioms k(1,3,4), of 4 m]
    and long = attribute_value_single_digit [OF reference.boost_perl_axioms k(1,3,4), of 132 m]
    and under = attribute_value_single_digit [OF reference.boost_perl_axioms k(2,3,5), of 4 m]
  from short long under show "\<exists>m1 m2 m3.
     parse_attribute reference_boost (attribute_keys ! 2 @ CHR '':'' # ''   '' @ nat_str 4 @ '' kB'') m
       = (m1, Inr ()) \<and> m_pss m1 = 4 \<and> m_size m1 = m_size m
   \<and> parse_attribute reference_boost (attribute_keys ! 2 @ CHR '':'' # ''   '' @ nat_str 132 @ '' kB'') m
       = (m2, Inr ()) \<and> m_pss m2 = m_pss m \<and> m_vmflags m2 = [nat_str 132, ''kB'']
   \<and> parse_attribute reference_boost (attribute_keys ! 3 @ CHR '':'' # ''   '' @ nat_str 4 @ '' kB'') m
       = (m3, Inr ()) \<and> m_shared_clean m3 = m_shared_clean m \<and> m_vmflags m3 = m_vmflags m"
    by (elim exE conjE, intro exI conjI) (assumption | simp add: attribute_values_def)+
qed

section \<open>Categories\<close>

lemma defineCategory_fields [simp]:
  "m_address_from (defineCategory m) = m_address_from m"
  "m_address_to (defineCategory m) = m_address_to m"
  "m_perm_read (defineCategory m) = m_perm_read m"
  "m_perm_write (defineCategory m) = m_perm_write m"
  "m_perm_execute (defineCategory m) = m_perm_execute m"
  "m_type (defineCategory m) = m_type m"
  "m_offset (defineCategory m) = m_offset m"
  "m_dev_major (defineCategory m) = m_dev_major m"
  "m_dev_minor (defineCategory m) = m_dev_minor m"
  "m_inode (defineCategory m) = m_inode m"
  "m_pathname (defineCategory m) = m_pathname m"
  "m_vmflags (defineCategory m) = m_vmflags m"
  "m_size (defineCategory m) = m_size m"
  by (simp_all add: defineCategory_def)

lemma has_substr_Nil_path: "t \<noteq> [] \<Longrightarrow> \<not> has_substr t []"
  by simp

text \<open>
  Every mapping gets exactly one category: one of the three decided by its path, or, for
  any other path, Shareable when it is shared, Mapped File when it is private with a path,
  Private when it is private without one; the bracketed names of the heap, the stack and the
  vdso are recognised whatever the type.
\<close>

theorem category_classifies:
  "(category (defineCategory m) \<in> {''Image'', ''Heap'', ''Stack''}
    \<or> m_type m = shared \<and> category (defineCategory m) = ''Shareable''
    \<or> m_type m = priv \<and> 0 < length (m_pathname m) \<and> category (defineCategory m) = ''Mapped File''
    \<or> m_type m = priv \<and> m_pathname m = [] \<and> category (defineCategory m) = ''Private'')
   \<and> category (defineCategory (m\<lparr>m_pathname := ''[heap]''\<rparr>)) = ''Heap''
   \<and> category (defineCategory (m\<lparr>m_pathname := ''[stack]''\<rparr>)) = ''Stack''
   \<and> category (defineCategory (m\<lparr>m_pathname := ''[vdso]''\<rparr>)) = ''Image''"
proof -
  have "m_type m = shared \<or> m_type m = priv" by (cases "m_type m") auto
  moreover have "category (defineCategory (m\<lparr>m_pathname := ''[heap]''\<rparr>)) = ''Heap''"
    and "category (defineCategory (m\<lparr>m_pathname := ''[stack]''\<rparr>)) = ''Stack''"
    and "category (defineCategory (m\<lparr>m_pathname := ''[vdso]''\<rparr>)) = ''Image''"
    by (simp_all add: category_def defineCategory_def)
  ultimately show ?thesis
    by (auto simp: category_def defineCategory_def simp del: has_substr.simps)
qed

section \<open>The constructor\<close>

definition declared where
  "declared m = (m_address_from m, m_address_to m, m_perm_read m, m_perm_write m,
     m_perm_execute m, m_type m, m_offset m, m_dev_major m, m_dev_minor m, m_inode m,
     m_pathname m)"

lemma attribute_field_declared: "attribute_field k = Some f \<Longrightarrow> declared (f n m) = declared m"
  by (auto simp: attribute_field_def declared_def split: if_splits)

lemma parse_attribute_declared: "declared (fst (parse_attribute B line m)) = declared m"
proof -
  have "declared (m\<lparr>m_vmflags := fl\<rparr>) = declared m" for fl
    by (simp add: declared_def)
  then show ?thesis
    by (auto simp: parse_attribute_def run_simps assign_def attribute_field_declared Let_def
        split: option.splits list.splits sum.splits)
qed

text \<open>An attribute line never throws: the only conversion is of one digit.\<close>

lemma parse_attribute_returns:
  assumes "boost_library B"
  shows "\<exists>m'. parse_attribute B line m = (m', Inr ())"
proof -
  have rx: "regex_engine (regex_match B)"
    using assms by (simp add: boost_library_def)
  have "stoi 10 (case mv of [] \<Rightarrow> [] | v # _ \<Rightarrow> v) \<noteq> Inl e"
    if "regex_match B regex_value s = Some mv" for s mv e
  proof -
    have "fits regex_value s mv"
      using regex_engine.match_is_instance [OF rx that] .
    then obtain d where mv: "mv = [[d]]" and d: "is_digit d"
      by (auto simp: value_instance)
    have "digit_val d < 10"
      using d by (auto simp: is_digit_def digit_val_def Let_def)
    with mv d show ?thesis
      using sto_digits [of "[d]", where ?'a = 32] by (simp add: stoi_def)
  qed
  then show ?thesis
    by (fastforce simp: parse_attribute_def run_simps assign_def Let_def
        split: option.splits list.splits sum.splits)
qed

lemma strto_hex_field:
  assumes "hex_field s"
  shows "strto 10 s = (let ds = takeWhile is_digit s
     in if ds = [] then None else Some (int (num_val 10 0 ds)))"
proof -
  from assms obtain c r where s: "s = c # r" "is_xdigit c"
    by (cases s) (auto simp: hex_field_def)
  then have "\<not> is_space c" "c \<noteq> CHR ''-''" "c \<noteq> CHR ''+''"
    by (auto simp: is_xdigit_def is_space_def Let_def)
  with s have "dropWhile is_space s = s" "split_sign s = (False, s)" by simp_all
  then show ?thesis
    by (simp add: strto_def Let_def)
qed

lemma declaration_no_newline:
  assumes "hex_field from" "hex_field to" "hex_field off" "hex_field maj" "hex_field mino"
    and "dec_field ino" "CHR 0x0A \<notin> set sp" "CHR 0x0A \<notin> set path"
  shows "CHR 0x0A \<notin> set (declaration_line from to r w x p off maj mino ino sp path)"
proof -
  have x: "CHR 0x0A \<notin> set s" if "hex_field s" for s
    using that by (auto simp: hex_field_def list_all_iff is_xdigit_def)
  have d: "CHR 0x0A \<notin> set s" if "dec_field s" for s
    using that by (auto simp: dec_field_def list_all_iff is_digit_def)
  show ?thesis
    using assms by (simp add: declaration_line_def x d)
qed

lemma mk_MMap_text:
  assumes "CHR 0x0A \<notin> set decl" and "\<forall>l \<in> set attrs. CHR 0x0A \<notin> set l"
  shows "mk_MMap B raw (decl @ CHR 0x0A # unlines CHR 0x0A attrs) =
    do_all [parse_declaration B decl, for_each (parse_attribute B) attrs, modify defineCategory]
      (fresh_mmap raw)"
  using assms lines_of_unlines [OF assms(2)]
  by (simp add: mk_MMap_def getline_delimited open_file_Some)

lemma attributes_keep_declared:
  assumes "boost_library B"
  shows "\<exists>m'. for_each (parse_attribute B) attrs m = (m', Inr ()) \<and> declared m' = declared m"
proof -
  obtain m' where m': "for_each (parse_attribute B) attrs m = (m', Inr ())"
    using for_each_total [of attrs "parse_attribute B" m] parse_attribute_returns [OF assms]
    by blast
  moreover have "declared (fst (for_each (parse_attribute B) attrs m)) = declared m"
    by (rule for_each_frame) (rule parse_attribute_declared)
  ultimately show ?thesis by simp
qed

text \<open>
  C12. The constructor of a mapping on the text the kernel prints (a declaration line and any
  attribute lines): it returns, addresses, permissions, sharing, device, inode and path are
  those of the line, the offset is what its digits mean in base 10, and there is a category.
\<close>

theorem MMap_constructor:
  assumes "boost_perl B"
    and "hex_field from" "hex_field to" "hex_field off" "hex_field maj" "hex_field mino"
    and "dec_field ino" "padding sp" "path = [] \<or> \<not> is_space (hd path)"
    and "CHR 0x0A \<notin> set sp" "CHR 0x0A \<notin> set path" "\<forall>l \<in> set attrs. CHR 0x0A \<notin> set l"
    and "stol 10 off = Inr v_off" "stoi 16 maj = Inr v_maj" "stoi 16 mino = Inr v_min"
    and "stol 10 ino = Inr v_ino"
  shows "\<exists>m. mk_MMap B raw (declaration_line from to r w x p off maj mino ino sp path
              @ CHR 0x0A # unlines CHR 0x0A attrs) = (m, Inr ())
    \<and> addressFrom m = from \<and> addressTo m = to
    \<and> permissions m = [if r then CHR ''r'' else CHR ''-'', if w then CHR ''w'' else CHR ''-'',
                       if x then CHR ''x'' else CHR ''-'']
    \<and> map_type m = (if p then ''Private'' else ''Shared'') \<and> map_path m = path
    \<and> m_offset m = ucast v_off \<and> m_dev_major m = v_maj \<and> m_dev_minor m = v_min
    \<and> m_inode m = v_ino \<and> category m \<noteq> []"
proof -
  have lib: "boost_library B"
    using assms(1) by (simp add: boost_perl_def)
  let ?decl = "declaration_line from to r w x p off maj mino ino sp path"
  obtain m1 where m1: "parse_declaration B ?decl (fresh_mmap raw) = (m1, Inr ())"
    and d1: "declared m1 = (from, to, r, w, x, if p then priv else shared, ucast v_off,
      v_maj, v_min, v_ino, path)"
    by (simp add: parse_declaration_line [OF assms(1-9)] run_simps assms(13-16) declared_def)
  obtain m2 where m2: "for_each (parse_attribute B) attrs m1 = (m2, Inr ())"
    and d2: "declared m2 = declared m1"
    using attributes_keep_declared [OF lib] by blast
  have "mk_MMap B raw (?decl @ CHR 0x0A # unlines CHR 0x0A attrs) = (defineCategory m2, Inr ())"
    using mk_MMap_text [OF declaration_no_newline [OF assms(2-7,10,11)] assms(12)]
    by (simp add: m1 m2 run_simps)
  moreover have "category (defineCategory m2) \<noteq> []"
    by (simp add: category_def defineCategory_def del: has_substr.simps)
  ultimately show ?thesis
    using d1 d2 by (auto simp: declared_def addressFrom_def addressTo_def permissions_def
        map_type_def map_path_def)
qed

theorem MMap_constructor_witness:
  "\<forall>raw. \<exists>m. mk_MMap reference_boost raw
       (declaration_line ''00400000'' ''00452000'' True False True True ''00001000'' ''08'' ''1f''
          ''173521'' ''      '' ''/opt/dbus'' @ CHR 0x0A # unlines CHR 0x0A [''Size:   328 kB''])
       = (m, Inr ())
    \<and> permissions m = ''r-x'' \<and> map_path m = ''/opt/dbus'' \<and> m_offset m = 1000
    \<and> m_dev_minor m = 31"
proof -
  have h: "hex_field ''00400000''" "hex_field ''00452000''" "hex_field ''00001000''"
    "hex_field ''08''" "hex_field ''1f''" "dec_field ''173521''" "padding ''      ''"
    by (simp_all add: hex_field_def dec_field_def padding_def is_xdigit_def is_digit_def)
  have s: "stol 10 ''00001000'' = Inr 1000" "stoi 16 ''08'' = Inr 8" "stoi 16 ''1f'' = Inr 31"
    "stol 10 ''173521'' = Inr 173521"
    by (simp_all add: num_eval)
  have n: "''/opt/dbus'' = [] \<or> \<not> is_space (hd ''/opt/dbus'')"
    "CHR 0x0A \<notin> set ''      ''" "CHR 0x0A \<notin> set ''/opt/dbus''"
    "\<forall>l \<in> set [''Size:   328 kB'']. CHR 0x0A \<notin> set l"
    by (simp_all add: is_space_def)
  show ?thesis
  proof
    fix raw
    note c = MMap_constructor [OF reference.boost_perl_axioms h(1-7) n s, of raw True False True True]
    then obtain m where "mk_MMap reference_boost raw
       (declaration_line ''00400000'' ''00452000'' True False True True ''00001000'' ''08'' ''1f''
          ''173521'' ''      '' ''/opt/dbus'' @ CHR 0x0A # unlines CHR 0x0A [''Size:   328 kB''])
       = (m, Inr ())" "permissions m = ''r-x''" "map_path m = ''/opt/dbus''"
      "m_offset m = ucast (1000 :: c_long)" "m_dev_minor m = 31"
      by auto
    then show "\<exists>m. mk_MMap reference_boost raw
       (declaration_line ''00400000'' ''00452000'' True False True True ''00001000'' ''08'' ''1f''
          ''173521'' ''      '' ''/opt/dbus'' @ CHR 0x0A # unlines CHR 0x0A [''Size:   328 kB''])
       = (m, Inr ())
    \<and> permissions m = ''r-x'' \<and> map_path m = ''/opt/dbus'' \<and> m_offset m = 1000
    \<and> m_dev_minor m = 31"
      by (intro exI [of _ m]) simp
  qed
qed

text \<open>
  C39. A mapping whose hexadecimal offset begins with a letter cannot be constructed: the
  conversion in base 10 throws, whatever the attributes say.
\<close>

theorem MMap_letter_offset_throws:
  assumes "boost_perl B"
    and "hex_field from" "hex_field to" "hex_field off" "hex_field maj" "hex_field mino"
    and "dec_field ino" "padding sp" "path = [] \<or> \<not> is_space (hd path)"
    and "CHR 0x0A \<notin> set sp" "CHR 0x0A \<notin> set path" "\<forall>l \<in> set attrs. CHR 0x0A \<notin> set l"
    and "\<not> is_digit (hd off)"
  shows "snd (mk_MMap B raw (declaration_line from to r w x p off maj mino ino sp path
              @ CHR 0x0A # unlines CHR 0x0A attrs)) = Inl Invalid_argument"
proof -
  have "takeWhile is_digit off = []"
    using assms(4,13) by (cases off) (simp_all add: hex_field_def)
  then have "stol 10 off = Inl Invalid_argument"
    using strto_hex_field [OF assms(4)] by (simp add: stol_def sto_def)
  then show ?thesis
    using mk_MMap_text [OF declaration_no_newline [OF assms(2-7,10,11)] assms(12)]
    by (simp add: parse_declaration_line [OF assms(1-9)] run_simps)
qed

theorem MMap_letter_offset_throws_witness:
  "\<forall>raw. snd (mk_MMap reference_boost raw
       (declaration_line ''7f00'' ''7f01'' True False False True ''a0000000'' ''08'' ''02''
          ''12'' ''  '' ''/x'' @ CHR 0x0A # unlines CHR 0x0A [])) = Inl Invalid_argument"
  by (intro allI MMap_letter_offset_throws [OF reference.boost_perl_axioms])
     (simp_all add: hex_field_def dec_field_def padding_def is_xdigit_def is_digit_def
        is_space_def)

end
