(* ===== verification/Doubles.thy ===== *)
theory Doubles
  imports Complex_Main Prelude
begin

text \<open>
  The double-precision arithmetic of the usage computations: a finite \<open>double\<close> is the
  rational number it denotes, and every operation rounds its exact result to 53 significant
  bits, to nearest with ties to even.  The values that occur (unsigned 64-bit counts and
  quotients of them by at most nine decimal digits) stay inside the exponent range, so
  neither overflow nor subnormal numbers arise.
\<close>

type_synonym double = rat

fun ilog2 :: "nat \<Rightarrow> nat" where
  "ilog2 n = (if n < 2 then 0 else Suc (ilog2 (n div 2)))"

declare ilog2.simps [simp del]

definition pow2 :: "int \<Rightarrow> rat" where
  "pow2 e = (if 0 \<le> e then 2 ^ nat e else 1 / 2 ^ nat (- e))"

text \<open>The exponent of a positive number: \<open>pow2 e \<le> q < pow2 (e + 1)\<close>.\<close>

definition exponent :: "rat \<Rightarrow> int" where
  "exponent q = (case quotient_of q of (n, d) \<Rightarrow>
     let e = int (ilog2 (nat n)) - int (ilog2 (nat d)) in if q < pow2 e then e - 1 else e)"

definition round_even :: "rat \<Rightarrow> int" where
  "round_even x =
     (let f = \<lfloor>x\<rfloor>; d = x - of_int f
      in if d < 1 / 2 then f else if 1 / 2 < d then f + 1 else if even f then f else f + 1)"

definition round_to :: "int \<Rightarrow> rat \<Rightarrow> rat" where
  "round_to bits q =
     (if q = 0 then 0
      else let ulp = pow2 (exponent \<bar>q\<bar> - (bits - 1))
           in sgn q * (of_int (round_even (\<bar>q\<bar> / ulp)) * ulp))"

definition rnd :: "rat \<Rightarrow> double" where
  "rnd q = round_to 53 q"

text \<open>Conversion of an integer to \<open>float\<close>: 24 significant bits.\<close>

definition float_of_int :: "int \<Rightarrow> rat" where
  "float_of_int i = round_to 24 (of_int i)"

definition double_of_int :: "int \<Rightarrow> double" where
  "double_of_int i = rnd (of_int i)"

definition double_div :: "double \<Rightarrow> double \<Rightarrow> double" where
  "double_div a b = rnd (a / b)"

definition double_add :: "double \<Rightarrow> double \<Rightarrow> double" where
  "double_add a b = rnd (a + b)"

lemma pow2_pos [simp]: "0 < pow2 e"
  by (simp add: pow2_def)

lemma rnd_zero [simp]: "rnd 0 = 0"
  by (simp add: rnd_def round_to_def)

section \<open>Exponents and representable values\<close>

lemma pow2_nonzero [simp]: "pow2 e \<noteq> 0"
  using pow2_pos [of e] by (simp del: pow2_pos)

lemma pow2_powi: "pow2 e = 2 powi e"
  by (simp add: pow2_def power_int_def field_simps)

lemma pow2_add: "pow2 (a + b) = pow2 a * pow2 b"
  by (simp add: pow2_powi power_int_add)

lemma pow2_nat [simp]: "pow2 (int n) = 2 ^ n"
  by (simp add: pow2_def)

lemma pow2_diff: "pow2 (a - b) = pow2 a / pow2 b"
  by (simp add: pow2_powi power_int_diff)

lemma pow2_mono: "a < b \<Longrightarrow> pow2 a < pow2 b"
proof -
  assume "a < b"
  then have "1 < pow2 (b - a)" by (simp add: pow2_def)
  then have "pow2 a * 1 < pow2 a * pow2 (b - a)"
    using pow2_pos [of a] by (intro mult_strict_left_mono)
  then show ?thesis by (simp flip: pow2_add)
qed

lemma pow2_less_iff: "pow2 a < pow2 b \<longleftrightarrow> a < b"
  using pow2_mono [of a b] pow2_mono [of b a] by (cases a b rule: linorder_cases) auto

lemma ilog2_bounds: "0 < n \<Longrightarrow> 2 ^ ilog2 n \<le> n \<and> n < 2 ^ Suc (ilog2 n)"
proof (induction n rule: ilog2.induct)
  case (1 n)
  show ?case
  proof (cases "n < 2")
    case True
    with 1 show ?thesis by (simp add: ilog2.simps [of n])
  next
    case False
    with 1 have "2 ^ ilog2 (n div 2) \<le> n div 2" "n div 2 < 2 ^ Suc (ilog2 (n div 2))"
      by auto
    with False show ?thesis by (simp add: ilog2.simps [of n]) linarith
  qed
qed

lemma exponent_bounds:
  assumes "0 < q"
  shows "pow2 (exponent q) \<le> q" and "q < pow2 (exponent q + 1)"
proof -
  obtain n d where nd: "quotient_of q = (n, d)" by fastforce
  have d: "0 < d" using quotient_of_denom_pos [OF nd] .
  have q: "q = of_int n / of_int d" using quotient_of_div [OF nd] .
  with assms d have n: "0 < n" by (simp add: zero_less_divide_iff)
  define a b where ab: "a = ilog2 (nat n)" "b = ilog2 (nat d)"
  have "2 ^ a \<le> nat n" "nat n < 2 ^ Suc a" "2 ^ b \<le> nat d" "nat d < 2 ^ Suc b"
    using ilog2_bounds [of "nat n"] ilog2_bounds [of "nat d"] n d by (simp_all add: ab)
  then have "2 ^ a \<le> n" "n < 2 ^ Suc a" "2 ^ b \<le> d" "d < 2 ^ Suc b"
    using n d by (simp_all add: le_nat_iff nat_less_iff)
  then have "of_int (2 ^ a) \<le> (of_int n :: rat)" "of_int n < (of_int (2 ^ Suc a) :: rat)"
     "of_int (2 ^ b) \<le> (of_int d :: rat)" "of_int d < (of_int (2 ^ Suc b) :: rat)"
    by (simp_all only: of_int_le_iff of_int_less_iff)
  then have r: "2 ^ a \<le> (of_int n :: rat)" "of_int n < (2 ^ Suc a :: rat)"
     "2 ^ b \<le> (of_int d :: rat)" "of_int d < (2 ^ Suc b :: rat)"
    by simp_all
  have dpos: "0 < (of_int d :: rat)" using d by simp
  have npos: "0 < (of_int n :: rat)" using n by simp
  let ?e = "int a - int b"
  have up: "q < pow2 (?e + 1)"
  proof -
    have "q \<le> of_int n / 2 ^ b"
      unfolding q using r(3) npos dpos by (intro divide_left_mono) auto
    also have "\<dots> < 2 ^ Suc a / 2 ^ b"
      using r(2) by (intro divide_strict_right_mono) auto
    also have "\<dots> = pow2 (?e + 1)"
      by (simp add: pow2_add pow2_diff) (simp add: pow2_def)
    finally show ?thesis .
  qed
  have low: "pow2 (?e - 1) \<le> q"
  proof -
    have "pow2 (?e - 1) = 2 ^ a / 2 ^ Suc b"
      by (simp add: pow2_diff) (simp add: pow2_def)
    also have "\<dots> \<le> 2 ^ a / of_int d"
      using r(4) dpos by (intro divide_left_mono) auto
    also have "\<dots> \<le> q"
      unfolding q using r(1) dpos by (intro divide_right_mono) auto
    finally show ?thesis .
  qed
  show "pow2 (exponent q) \<le> q" "q < pow2 (exponent q + 1)"
    using up low by (auto simp: exponent_def nd ab [symmetric] Let_def)
qed

lemma exponent_unique: "pow2 e \<le> q \<Longrightarrow> q < pow2 (e + 1) \<Longrightarrow> exponent q = e"
proof -
  assume e: "pow2 e \<le> q" "q < pow2 (e + 1)"
  then have "0 < q" using pow2_pos [of e] by linarith
  from exponent_bounds [OF this] e have "pow2 e < pow2 (exponent q + 1)" "pow2 (exponent q) < pow2 (e + 1)"
    by linarith+
  then show ?thesis by (simp add: pow2_less_iff)
qed

lemma round_even_int [simp]: "round_even (of_int k) = k"
  by (simp add: round_even_def)

lemma round_even_between: "of_int a \<le> x \<Longrightarrow> x \<le> of_int b \<Longrightarrow> a \<le> round_even x \<and> round_even x \<le> b"
proof -
  assume x: "of_int a \<le> x" "x \<le> of_int b"
  have "a \<le> \<lfloor>x\<rfloor>" using x(1) by (simp add: le_floor_iff)
  have "\<lfloor>x\<rfloor> \<le> b" using x(2) by (simp add: floor_le_iff)
  have "\<lfloor>x\<rfloor> + 1 \<le> b" if "x - of_int \<lfloor>x\<rfloor> \<noteq> 0"
  proof -
    have "of_int \<lfloor>x\<rfloor> < x" using that of_int_floor_le [of x] by linarith
    with x(2) have "(of_int \<lfloor>x\<rfloor> :: rat) < of_int b" by linarith
    then show ?thesis by simp
  qed
  with \<open>a \<le> \<lfloor>x\<rfloor>\<close> \<open>\<lfloor>x\<rfloor> \<le> b\<close> show ?thesis
    by (auto simp: round_even_def Let_def)
qed

text \<open>A value that already has at most \<open>bits\<close> significant bits is not changed.\<close>

lemma round_to_representable:
  assumes "0 < bits" and "\<bar>k\<bar> \<le> 2 ^ nat bits" 
  shows "round_to bits (of_int k * pow2 u) = of_int k * pow2 u"
proof (cases "k = 0")
  case True
  then show ?thesis by (simp add: round_to_def)
next
  case False
  let ?q = "\<bar>of_int k * pow2 u\<bar> :: rat"
  have q: "?q = of_int \<bar>k\<bar> * pow2 u" by (simp add: abs_mult abs_of_pos [OF pow2_pos])
  have pos: "0 < ?q" using False pow2_pos [of u] by (simp add: order_less_imp_not_eq2)
  define v where "v = exponent ?q - (bits - 1)"
  have "\<exists>j. ?q / pow2 v = of_int j"
  proof (cases "v \<le> u")
    case True
    then have "pow2 u = pow2 v * of_int (2 ^ nat (u - v))"
      using pow2_add [of v "u - v"] by (simp add: pow2_def)
    then have "?q / pow2 v = of_int (\<bar>k\<bar> * 2 ^ nat (u - v))"
      unfolding q using pow2_pos [of v] by simp
    then show ?thesis by blast
  next
    case False
    have "?q \<le> pow2 (bits + u)"
      using assms pow2_pos [of u] pow2_nat [of "nat bits"]
      by (simp add: q pow2_add mult_right_mono) (metis of_int_abs of_int_le_iff of_int_numeral of_int_power)
    have "v = u + 1"
    proof -
      have "pow2 (exponent ?q) \<le> pow2 (bits + u)"
        using exponent_bounds(1) [OF pos] \<open>?q \<le> pow2 (bits + u)\<close> by linarith
      then have "exponent ?q \<le> bits + u" using pow2_less_iff [of "bits + u" "exponent ?q"] by linarith
      with False show ?thesis by (simp add: v_def)
    qed
    then have "exponent ?q = bits + u" by (simp add: v_def)
    with exponent_bounds(1) [OF pos] \<open>?q \<le> pow2 (bits + u)\<close> have "?q = pow2 (bits + u)" by simp
    moreover have "bits + u = (bits - 1) + v" using \<open>v = u + 1\<close> by simp
    ultimately have "?q = pow2 (bits - 1) * pow2 v" by (simp only: pow2_add)
    then have "?q / pow2 v = of_int (2 ^ nat (bits - 1))"
      using assms(1) pow2_pos [of v] by (simp add: pow2_def)
    then show ?thesis by blast
  qed
  then obtain j where "?q / pow2 v = of_int j" by blast
  then have "of_int (round_even (?q / pow2 v)) * pow2 v = ?q"
    using pow2_pos [of v] by (simp add: field_simps)
  then have "round_to bits (of_int k * pow2 u) = sgn (of_int k * pow2 u) * ?q"
    using False by (simp add: round_to_def Let_def v_def)
  then show ?thesis by (simp only: sgn_mult_abs)
qed

lemma rnd_idem [simp]: "rnd (rnd q) = rnd q"
proof (cases "q = 0")
  case True
  then show ?thesis by simp
next
  case False
  let ?u = "exponent \<bar>q\<bar> - 52"
  let ?k = "round_even (\<bar>q\<bar> / pow2 ?u)"
  have "0 < \<bar>q\<bar>" using False by simp
  from exponent_bounds(2) [OF this] have "\<bar>q\<bar> \<le> pow2 (exponent \<bar>q\<bar> + 1)" by simp
  also have "exponent \<bar>q\<bar> + 1 = 53 + ?u" by simp
  finally have "\<bar>q\<bar> \<le> pow2 (53 + ?u)" .
  then have "\<bar>q\<bar> / pow2 ?u \<le> pow2 53"
    using pow2_pos [of ?u] unfolding pow2_add by (simp only: pos_divide_le_eq)
  also have "pow2 53 = of_int (2 ^ 53)" by (simp add: pow2_def)
  finally have "0 \<le> ?k \<and> ?k \<le> 2 ^ 53"
    using pow2_pos [of ?u] by (intro round_even_between) (simp_all add: less_imp_le)
  then have "\<bar>(if 0 < q then 1 else -1) * ?k\<bar> \<le> 2 ^ nat 53"
    by (auto simp: abs_mult)
  from round_to_representable [OF _ this, of ?u]
  have "rnd (of_int ((if 0 < q then 1 else -1) * ?k) * pow2 ?u)
      = of_int ((if 0 < q then 1 else -1) * ?k) * pow2 ?u"
    by (simp add: rnd_def)
  moreover have "rnd q = of_int ((if 0 < q then 1 else -1) * ?k) * pow2 ?u"
    using False by (auto simp: rnd_def round_to_def Let_def)
  ultimately show ?thesis by simp
qed

lemma round_even_nonneg: "0 \<le> x \<Longrightarrow> 0 \<le> round_even x"
  by (simp add: round_even_def Let_def)

lemma round_to_nonneg: "0 \<le> q \<Longrightarrow> 0 \<le> round_to bits q"
proof -
  assume q: "0 \<le> q"
  let ?ulp = "pow2 (exponent q - (bits - 1))"
  have "0 \<le> q / ?ulp"
    using q pow2_pos [of "exponent q - (bits - 1)"] by (simp add: zero_le_divide_iff less_imp_le)
  then have "0 \<le> (of_int (round_even (q / ?ulp)) :: rat)"
    using round_even_nonneg by simp
  then have "0 \<le> of_int (round_even (q / ?ulp)) * ?ulp"
    using pow2_pos [of "exponent q - (bits - 1)"] by (simp add: less_imp_le)
  with q show ?thesis
    by (simp add: round_to_def Let_def sgn_if)
qed

lemma rnd_nonneg: "0 \<le> q \<Longrightarrow> 0 \<le> rnd q"
  by (simp add: rnd_def round_to_nonneg)

lemma double_ops_zero [simp]:
  "double_of_int 0 = 0" "double_div 0 b = 0" "double_add 0 0 = 0"
  by (simp_all add: double_of_int_def double_div_def double_add_def)

lemma double_of_int_nonneg: "0 \<le> i \<Longrightarrow> 0 \<le> double_of_int i"
  by (simp add: double_of_int_def rnd_nonneg)

lemma double_div_nonneg: "0 \<le> a \<Longrightarrow> 0 \<le> b \<Longrightarrow> 0 \<le> double_div a b"
  by (simp add: double_div_def rnd_nonneg)

text \<open>The rounding error is at most half a unit in the last place.\<close>

lemma round_even_error: "\<bar>of_int (round_even x) - x\<bar> \<le> 1 / 2"
proof -
  have "of_int \<lfloor>x\<rfloor> \<le> x" "x < of_int \<lfloor>x\<rfloor> + 1"
    by linarith+
  then show ?thesis
    unfolding round_even_def Let_def abs_le_iff by (simp only: of_int_add of_int_1 split: if_splits) linarith
qed

lemma rnd_error: "\<bar>rnd q - q\<bar> \<le> \<bar>q\<bar> / 2 ^ 53"
proof (cases "q = 0")
  case True
  then show ?thesis by simp
next
  case False
  let ?u = "pow2 (exponent \<bar>q\<bar> - 52)"
  let ?k = "of_int (round_even (\<bar>q\<bar> / ?u)) :: rat"
  have "?u = pow2 (exponent \<bar>q\<bar>) / 2 ^ 52"
    unfolding pow2_diff by (simp add: pow2_def)
  moreover have "pow2 (exponent \<bar>q\<bar>) \<le> \<bar>q\<bar>"
    using False by (intro exponent_bounds) simp
  ultimately have u: "?u \<le> \<bar>q\<bar> / 2 ^ 52"
    by (simp add: divide_right_mono)
  have "\<bar>?k * ?u - \<bar>q\<bar>\<bar> = \<bar>?k - \<bar>q\<bar> / ?u\<bar> * ?u"
    using abs_of_pos [OF pow2_pos, of "exponent \<bar>q\<bar> - 52"]
    by (metis abs_mult left_diff_distrib nonzero_eq_divide_eq pow2_nonzero)
  also have "\<dots> \<le> 1 / 2 * ?u"
    using round_even_error [of "\<bar>q\<bar> / ?u"] by (intro mult_right_mono) (simp_all add: less_imp_le)
  also have "\<dots> \<le> \<bar>q\<bar> / 2 ^ 53"
    using u by simp
  finally have "\<bar>?k * ?u - \<bar>q\<bar>\<bar> \<le> \<bar>q\<bar> / 2 ^ 53" .
  moreover have "rnd q - q = sgn q * (?k * ?u - \<bar>q\<bar>)"
    using False by (simp add: rnd_def round_to_def Let_def right_diff_distrib sgn_mult_abs)
  ultimately show ?thesis
    using False by (simp add: abs_mult abs_sgn_eq)
qed

lemma double_ops_rounded [simp]:
  "rnd (double_of_int i) = double_of_int i" "rnd (double_div a b) = double_div a b"
  "double_add (double_div a b) 0 = double_div a b" "double_add 0 (double_div a b) = double_div a b"
  by (simp_all add: double_of_int_def double_div_def double_add_def)

text \<open>
  The accuracy of an integer divided by a number of nanoseconds: the four roundings cost less
  than three of the 53 bits.
\<close>

definition ulp :: rat where
  "ulp = 1 / 2 ^ 53"

lemma rnd_bounds:
  assumes "0 \<le> q"
  shows "(1 - ulp) * q \<le> rnd q" and "rnd q \<le> (1 + ulp) * q"
proof -
  have "\<bar>rnd q - q\<bar> \<le> ulp * q"
    using rnd_error [of q] assms by (simp add: ulp_def)
  then show "(1 - ulp) * q \<le> rnd q" "rnd q \<le> (1 + ulp) * q"
    by (simp_all only: abs_le_iff left_diff_distrib distrib_right) linarith+
qed

lemma double_of_billion: "double_of_int 1000000000 = 1000000000"
  using round_to_representable [of 53 1000000000 0]
  by (simp add: double_of_int_def rnd_def pow2_def)

lemma quotient_accuracy:
  assumes "0 \<le> b" and "0 < n"
  defines "x \<equiv> of_int b * 1000000000 / of_int n"
  shows "\<bar>double_div (double_of_int b) (double_div (double_of_int n) (double_of_int 1000000000)) - x\<bar>
    \<le> x / 2 ^ 50"
proof -
  have u: "0 < ulp" "ulp < 1" by (simp_all add: ulp_def power2_eq_square)
  let ?b = "of_int b :: rat" and ?n = "of_int n :: rat"
  define A N S v where defs: "A = double_of_int b" "N = double_of_int n"
    "S = double_div N 1000000000" "v = double_div A S"
  have b: "(1 - ulp) * ?b \<le> A" "A \<le> (1 + ulp) * ?b"
    using rnd_bounds [of ?b] assms by (simp_all add: defs double_of_int_def)
  have n: "(1 - ulp) * ?n \<le> N" "N \<le> (1 + ulp) * ?n"
    using rnd_bounds [of ?n] assms by (simp_all add: defs double_of_int_def)
  have n0: "0 < ?n" and b0: "0 \<le> ?b" and N0: "0 < N" and x0: "0 \<le> x"
  proof -
    show "0 < ?n" "0 \<le> ?b" "0 \<le> x" using assms by simp_all
    have "0 < (1 - ulp) * ?n" using assms u by simp
    with n(1) show "0 < N" by linarith
  qed
  have "(1 - ulp) * (N / 1000000000) \<le> S" "S \<le> (1 + ulp) * (N / 1000000000)"
    using rnd_bounds [of "N / 1000000000"] N0 by (simp_all add: defs double_div_def)
  moreover have "(1 - ulp) * (((1 - ulp) * ?n) / 1000000000) \<le> (1 - ulp) * (N / 1000000000)"
    "(1 + ulp) * (N / 1000000000) \<le> (1 + ulp) * (((1 + ulp) * ?n) / 1000000000)"
    using n u by (intro mult_left_mono divide_right_mono; simp)+
  ultimately have S: "(1 - ulp)\<^sup>2 * ?n / 1000000000 \<le> S" "S \<le> (1 + ulp)\<^sup>2 * ?n / 1000000000"
    by (simp_all add: power2_eq_square mult.assoc)
  have L0: "0 < (1 - ulp)\<^sup>2 * ?n / 1000000000"
    using u n0 by (intro divide_pos_pos mult_pos_pos) simp_all
  with S(1) have S0: "0 < S" by linarith
  have q: "0 \<le> A / S" using S0 double_of_int_nonneg [OF assms(1)] by (simp add: defs)
  have "v \<le> (1 + ulp) * (A / S)" and low: "(1 - ulp) * (A / S) \<le> v"
    using rnd_bounds [OF q] by (simp_all add: defs double_div_def)
  note this(1)
  also have "(1 + ulp) * (A / S) \<le> (1 + ulp) * (((1 + ulp) * ?b) / ((1 - ulp)\<^sup>2 * ?n / 1000000000))"
    using b(2) S(1) L0 u b0 by (intro mult_left_mono frac_le) simp_all
  also have "\<dots> = ((1 + ulp)\<^sup>2 / (1 - ulp)\<^sup>2) * x"
    using n0 u by (simp add: x_def power2_eq_square)
  also have "\<dots> \<le> (1 + 1 / 2 ^ 50) * x"
    using x0 by (intro mult_right_mono) (simp_all add: ulp_def power2_eq_square)
  finally have up: "v \<le> (1 + 1 / 2 ^ 50) * x" .
  have "(1 - 1 / 2 ^ 50) * x \<le> ((1 - ulp)\<^sup>2 / (1 + ulp)\<^sup>2) * x"
    using x0 by (intro mult_right_mono) (simp_all add: ulp_def power2_eq_square)
  also have "\<dots> = (1 - ulp) * (((1 - ulp) * ?b) / ((1 + ulp)\<^sup>2 * ?n / 1000000000))"
    using n0 u by (simp add: x_def power2_eq_square)
  also have "\<dots> \<le> (1 - ulp) * (A / S)"
    using b(1) S(2) S0 u double_of_int_nonneg [OF assms(1)]
    by (intro mult_left_mono frac_le) (simp_all add: defs)
  finally have "(1 - 1 / 2 ^ 50) * x \<le> v" using low by linarith
  with up have "\<bar>v - x\<bar> \<le> x / 2 ^ 50" unfolding abs_le_iff by (simp add: algebra_simps)
  then show ?thesis by (simp add: defs double_of_billion)
qed
end
