(* ===== verification/Process_Info.thy ===== *)
theory Process_Info
  imports MMap Doubles
begin

text \<open>
  \<open>processinfo.h\<close>: the data of a process, the constructors and \<open>needUpdate\<close> of
  \<open>processinfo.cpp\<close>, and the pattern that every getter follows: refresh when the flag of
  the group is set, clear the flag, return the member.  The locale \<open>lazy_group\<close> states what
  the getters of one group rely on; the readers of the later theories interpret it.
\<close>

section \<open>Data\<close>

record io_stat =
  rchar :: c_ulong
  wchar :: c_ulong
  syscr :: c_ulong
  syscw :: c_ulong
  read_bytes :: c_ulong
  write_bytes :: c_ulong
  cancelled_write_bytes :: c_ulong
  last_read :: c_long

record cgroup_hierarchy_t =
  hierarchy_id :: c_int
  subsystems :: "string list"
  cgroup :: string

record limits_t =
  cpu_time_soft_lmt :: c_long
  file_size_soft_lmt :: c_long
  data_size_soft_lmt :: c_long
  stack_size_soft_lmt :: c_long
  core_file_size_soft_lmt :: c_long
  resident_set_soft_lmt :: c_long
  processes_soft_lmt :: c_long
  open_files_soft_lmt :: c_long
  locked_memory_soft_lmt :: c_long
  address_space_soft_lmt :: c_long
  file_locks_soft_lmt :: c_long
  pending_signals_soft_lmt :: c_long
  msgqueue_size_soft_lmt :: c_long
  nice_priority_soft_lmt :: c_long
  realtime_priority_soft_lmt :: c_long
  realtime_timeout_soft_lmt :: c_long
  cpu_time_hard_lmt :: c_long
  file_size_hard_lmt :: c_long
  data_size_hard_lmt :: c_long
  stack_size_hard_lmt :: c_long
  core_file_size_hard_lmt :: c_long
  resident_set_hard_lmt :: c_long
  processes_hard_lmt :: c_long
  open_files_hard_lmt :: c_long
  locked_memory_hard_lmt :: c_long
  address_space_hard_lmt :: c_long
  file_locks_hard_lmt :: c_long
  pending_signals_hard_lmt :: c_long
  msgqueue_size_hard_lmt :: c_long
  nice_priority_hard_lmt :: c_long
  realtime_priority_hard_lmt :: c_long
  realtime_timeout_hard_lmt :: c_long

record stack_func_t =
  address :: string
  function_name :: string

text \<open>The members of the class, in the order of the header.\<close>

record process_info =
  m_proc_path :: string
  m_need_update_stat :: bool
  m_need_update_status :: bool
  m_need_update_io :: bool
  m_need_update_cwd :: bool
  m_need_update_exe :: bool
  m_need_update_cmdline :: bool
  m_need_update_root :: bool
  m_need_update_environ :: bool
  m_need_update_fd :: bool
  m_need_update_wchan :: bool
  m_need_update_smaps :: bool
  m_need_update_cpu_usage :: bool
  m_need_update_io_read_usage :: bool
  m_need_update_io_write_usage :: bool
  m_pid :: c_int
  m_name :: string
  m_state :: string
  m_ppid :: c_int
  m_pgid :: c_int
  m_session :: c_int
  m_tty_nr :: c_int
  m_tpgid :: c_int
  m_flags :: c_uint
  m_minflt :: c_ulong
  m_cminflt :: c_ulong
  m_majflt :: c_ulong
  m_cmajflt :: c_ulong
  m_utime :: c_ulong
  m_stime :: c_ulong
  m_cutime :: c_ulong
  m_cstime :: c_ulong
  m_priority :: c_long
  m_nice :: c_long
  m_num_threads :: c_long
  m_itrealvalue :: c_long
  m_starttime :: c_ull
  m_vmsize :: c_ulong
  m_rss :: c_long
  m_rsslim :: c_ulong
  m_startcode :: c_ulong
  m_endcode :: c_ulong
  m_startstack :: c_ulong
  m_kstkesp :: c_ulong
  m_kstkeip :: c_ulong
  m_signal :: c_ulong
  m_blocked :: c_ulong
  m_siginore :: c_ulong
  m_sigcatch :: c_ulong
  m_wchan_addr :: c_ulong
  m_nswap :: c_ulong
  m_cnswap :: c_ulong
  m_exit_signal :: c_int
  m_processor :: c_int
  m_rt_priority :: c_uint
  m_policy :: c_uint
  m_delayacct_blkio_ticks :: c_ull
  m_start_data :: c_ulong
  m_end_data :: c_ulong
  m_start_brk :: c_ulong
  m_arg_start :: c_ulong
  m_arg_end :: c_ulong
  m_env_start :: c_ulong
  m_env_end :: c_ulong
  m_exit_code :: c_int
  m_guest_time :: c_ulong
  m_cguest_time :: c_long
  m_cmdline :: "string list"
  m_cwd :: string
  m_exe :: string
  m_root :: string
  m_environ :: "string \<rightharpoonup> string"
  m_io :: io_stat
  m_wchan_name :: string
  m_tracerpid :: c_int
  m_uids :: "c_int list"
  m_gids :: "c_int list"
  m_vm_peak :: c_ulong
  m_vm_lck :: c_ulong
  m_vm_pin :: c_ulong
  m_vm_hwm :: c_ulong
  m_vm_rss :: c_ulong
  m_vm_data :: c_ulong
  m_vm_stk :: c_ulong
  m_vm_exe :: c_ulong
  m_vm_lib :: c_ulong
  m_vm_pte :: c_ulong
  m_vm_pmd :: c_ulong
  m_vm_swap :: c_ulong
  m_cgroups :: "cgroup_hierarchy_t list"
  m_fds :: "c_int \<rightharpoonup> string"
  m_maps :: "mmap list"
  m_limits :: limits_t
  m_stack :: "stack_func_t list"
  m_cpu_usage :: c_int
  m_io_read_usage :: double
  m_io_write_usage :: double
  m_last_cpu_total_time :: c_ull
  m_last_process_total_time :: c_ull
  m_ioPriorityClass :: c_int
  m_ioPriority :: c_int
  m_vmRss :: c_ulong
  m_vmURss :: c_ulong
  m_userTime :: c_ulong
  m_sysTime :: c_ulong

section \<open>Construction and invalidation\<close>

text \<open>
  Members without an initialiser hold what the memory held (\<open>raw\<close>), members of class type
  start empty, and the time stamp inside \<open>m_io\<close> starts at the epoch.
\<close>

definition fresh_process :: "process_info \<Rightarrow> process_info" where
  "fresh_process raw = raw\<lparr>
      m_proc_path := [], m_name := [], m_state := [], m_cwd := [], m_exe := [],
      m_root := [], m_wchan_name := [], m_cmdline := [], m_uids := [], m_gids := [],
      m_cgroups := [], m_maps := [], m_stack := [], m_environ := Map.empty,
      m_fds := Map.empty, m_io := (m_io raw)\<lparr>last_read := 0\<rparr>\<rparr>"

definition ProcessInfo0 :: "process_info \<Rightarrow> process_info" where
  "ProcessInfo0 raw = (fresh_process raw)\<lparr>m_pid := 0\<rparr>"

definition needUpdate :: "process_info \<Rightarrow> process_info" where
  "needUpdate p = p\<lparr>
      m_need_update_stat := True, m_need_update_status := True,
      m_need_update_io := True, m_need_update_cwd := True, m_need_update_exe := True,
      m_need_update_cmdline := True, m_need_update_root := True,
      m_need_update_environ := True, m_need_update_fd := True,
      m_need_update_wchan := True, m_need_update_smaps := True,
      m_need_update_cpu_usage := True, m_need_update_io_read_usage := True,
      m_need_update_io_write_usage := True\<rparr>"

definition ProcessInfo :: "process_info \<Rightarrow> c_int \<Rightarrow> process_info" where
  "ProcessInfo raw pid =
     (let p1 = (fresh_process raw)\<lparr>m_pid := pid\<rparr>;
          p2 = p1\<lparr>m_proc_path := ''/proc/'' @ to_string pid @ ''/''\<rparr>;
          p3 = p2\<lparr>
         m_need_update_stat := False, m_need_update_status := False,
         m_need_update_io := False, m_need_update_cwd := False,
         m_need_update_exe := False, m_need_update_cmdline := False,
         m_need_update_root := False, m_need_update_environ := False,
         m_need_update_fd := False, m_need_update_wchan := False,
         m_need_update_smaps := False, m_need_update_cpu_usage := False,
         m_need_update_io_read_usage := False, m_need_update_io_write_usage := False\<rparr>
      in needUpdate p3)"

lemma needUpdate_idem [simp]: "needUpdate (needUpdate p) = needUpdate p"
  by (simp add: needUpdate_def)

lemma needUpdate_flags [simp]:
  "m_need_update_stat (needUpdate p)"
  "m_need_update_status (needUpdate p)"
  "m_need_update_io (needUpdate p)"
  "m_need_update_cwd (needUpdate p)"
  "m_need_update_exe (needUpdate p)"
  "m_need_update_cmdline (needUpdate p)"
  "m_need_update_root (needUpdate p)"
  "m_need_update_environ (needUpdate p)"
  "m_need_update_fd (needUpdate p)"
  "m_need_update_wchan (needUpdate p)"
  "m_need_update_smaps (needUpdate p)"
  "m_need_update_cpu_usage (needUpdate p)"
  "m_need_update_io_read_usage (needUpdate p)"
  "m_need_update_io_write_usage (needUpdate p)"
  by (simp_all add: needUpdate_def)

section \<open>The pattern of the getters\<close>

text \<open>
  \<^verbatim>\<open>if (m_need_update_g) { read_g(); m_need_update_g = false; } return m_x;\<close>
  When the reader throws, the flag is not cleared and nothing is returned.
\<close>

definition refresh ::
  "('s \<Rightarrow> bool) \<Rightarrow> ('s \<Rightarrow> 's) \<Rightarrow> ('s, unit) action \<Rightarrow> ('s, unit) action" where
  "refresh flag clear reader s =
     (if flag s then and_then reader (\<lambda>_. modify clear) s else returns () s)"

definition getter ::
  "('s \<Rightarrow> bool) \<Rightarrow> ('s \<Rightarrow> 's) \<Rightarrow> ('s, unit) action \<Rightarrow> ('s \<Rightarrow> 'a) \<Rightarrow> ('s, 'a) action" where
  "getter flag clear reader val s =
     and_then (refresh flag clear reader) (\<lambda>_ t. returns (val t) t) s"

lemma getter_cases:
  "getter flag clear reader val s =
     (if flag s then
        (case reader s of (t, Inl e) \<Rightarrow> (t, Inl e) | (t, Inr _) \<Rightarrow> (clear t, Inr (val (clear t))))
      else (s, Inr (val s)))"
  by (auto simp: getter_def refresh_def and_then_def run_simps split: prod.splits sum.splits)

locale lazy_group =
  fixes flag :: "'s \<Rightarrow> bool" and clear :: "'s \<Rightarrow> 's"
  assumes flag_cleared: "\<not> flag (clear s)"
begin

text \<open>
  After a getter has returned, no getter of the group reads again: each returns the member
  as that one read left it, and the object stays as it is.
\<close>

lemma getter_settles:
  assumes "getter flag clear reader val s = (t, Inr v)"
  shows "\<not> flag t" and "v = val t" and "getter flag clear reader' val' t = (t, Inr (val' t))"
proof -
  show f: "\<not> flag t"
    using assms flag_cleared by (auto simp: getter_cases split: if_splits prod.splits sum.splits)
  show "v = val t"
    using assms by (auto simp: getter_cases split: if_splits prod.splits sum.splits)
  show "getter flag clear reader' val' t = (t, Inr (val' t))"
    using f by (simp add: getter_cases)
qed

lemma getter_fresh: "\<not> flag s \<Longrightarrow> getter flag clear reader val s = (s, Inr (val s))"
  by (simp add: getter_cases)

lemma getter_reads:
  "flag s \<Longrightarrow> reader s = (t, Inr u) \<Longrightarrow>
   getter flag clear reader val s = (clear t, Inr (val (clear t)))"
  by (simp add: getter_cases)

end

text \<open>A reader that leaves the flag alone: a getter that throws is retried by the next one.\<close>

locale lazy_reader = lazy_group flag clear
  for flag :: "'s \<Rightarrow> bool" and clear :: "'s \<Rightarrow> 's" +
  fixes reader :: "'w \<Rightarrow> ('s, unit) action"
  assumes reader_keeps_flag: "flag (fst (reader w s)) = flag s"
begin

lemma getter_throws_keeps_flag:
  assumes "getter flag clear (reader w) val s = (t, Inl e)"
  shows "flag t" and "getter flag clear (reader w') val' t
    = getter flag clear (reader w') val' (fst (reader w s))"
proof -
  from assms have "flag s" and "reader w s = (t, Inl e)"
    by (auto simp: getter_cases split: if_splits prod.splits sum.splits)
  then show "flag t" and "getter flag clear (reader w') val' t
    = getter flag clear (reader w') val' (fst (reader w s))"
    using reader_keeps_flag [of w s] by simp_all
qed

end

end
