(* ===== verification/Process_Stat.thy ===== *)
theory Process_Stat
  imports Process_Info
begin

text \<open>
  The group of \<open>/proc/<pid>/stat\<close>: \<open>readStat\<close> as the sequence of extractions it is, the
  getters of the group, and what the reader does on the line the kernel prints, on a line
  whose command name holds a space, and on a file that is not there.
\<close>

section \<open>Reading /proc/pid/stat\<close>

text \<open>
  One extraction \<open>if_stat >> this->m_x\<close>: how to read the member, how to store it, and the
  type that selects the conversion.
\<close>

datatype stat_field =
    F_int "process_info \<Rightarrow> c_int" "(c_int \<Rightarrow> c_int) \<Rightarrow> process_info \<Rightarrow> process_info"
  | F_uint "process_info \<Rightarrow> c_uint" "(c_uint \<Rightarrow> c_uint) \<Rightarrow> process_info \<Rightarrow> process_info"
  | F_long "process_info \<Rightarrow> c_long" "(c_long \<Rightarrow> c_long) \<Rightarrow> process_info \<Rightarrow> process_info"
  | F_ulong "process_info \<Rightarrow> c_ulong" "(c_ulong \<Rightarrow> c_ulong) \<Rightarrow> process_info \<Rightarrow> process_info"

fun extract_field :: "stat_field \<Rightarrow> instream \<times> process_info \<Rightarrow> instream \<times> process_info" where
  "extract_field (F_int get put) (is, p) =
     (let (is', v) = extract_signed is (get p) in (is', put (\<lambda>_. v) p))"
| "extract_field (F_uint get put) (is, p) =
     (let (is', v) = extract_unsigned is (get p) in (is', put (\<lambda>_. v) p))"
| "extract_field (F_long get put) (is, p) =
     (let (is', v) = extract_signed is (get p) in (is', put (\<lambda>_. v) p))"
| "extract_field (F_ulong get put) (is, p) =
     (let (is', v) = extract_unsigned is (get p) in (is', put (\<lambda>_. v) p))"

definition stat_fields :: "stat_field list" where
  "stat_fields =
    [F_int m_ppid m_ppid_update,
     F_int m_pgid m_pgid_update,
     F_int m_session m_session_update,
     F_int m_tty_nr m_tty_nr_update,
     F_int m_tpgid m_tpgid_update,
     F_uint m_flags m_flags_update,
     F_ulong m_minflt m_minflt_update,
     F_ulong m_cminflt m_cminflt_update,
     F_ulong m_majflt m_majflt_update,
     F_ulong m_cmajflt m_cmajflt_update,
     F_ulong m_utime m_utime_update,
     F_ulong m_stime m_stime_update,
     F_ulong m_cutime m_cutime_update,
     F_ulong m_cstime m_cstime_update,
     F_long m_priority m_priority_update,
     F_long m_nice m_nice_update,
     F_long m_num_threads m_num_threads_update,
     F_long m_itrealvalue m_itrealvalue_update,
     F_ulong m_starttime m_starttime_update,
     F_ulong m_vmsize m_vmsize_update,
     F_long m_rss m_rss_update,
     F_ulong m_rsslim m_rsslim_update,
     F_ulong m_startcode m_startcode_update,
     F_ulong m_endcode m_endcode_update,
     F_ulong m_startstack m_startstack_update,
     F_ulong m_kstkesp m_kstkesp_update,
     F_ulong m_kstkeip m_kstkeip_update,
     F_ulong m_signal m_signal_update,
     F_ulong m_blocked m_blocked_update,
     F_ulong m_siginore m_siginore_update,
     F_ulong m_sigcatch m_sigcatch_update,
     F_ulong m_wchan_addr m_wchan_addr_update,
     F_ulong m_nswap m_nswap_update,
     F_ulong m_cnswap m_cnswap_update,
     F_int m_exit_signal m_exit_signal_update,
     F_int m_processor m_processor_update,
     F_uint m_rt_priority m_rt_priority_update,
     F_uint m_policy m_policy_update,
     F_ulong m_delayacct_blkio_ticks m_delayacct_blkio_ticks_update,
     F_ulong m_guest_time m_guest_time_update,
     F_long m_cguest_time m_cguest_time_update,
     F_ulong m_start_data m_start_data_update,
     F_ulong m_end_data m_end_data_update,
     F_ulong m_start_brk m_start_brk_update,
     F_ulong m_arg_start m_arg_start_update,
     F_ulong m_arg_end m_arg_end_update,
     F_ulong m_env_start m_env_start_update,
     F_ulong m_env_end m_env_end_update,
     F_int m_exit_code m_exit_code_update]"

definition state_name :: "string \<Rightarrow> string" where
  "state_name s =
     (if s = ''R'' then ''Running''
      else if s = ''S'' then ''Sleeping''
      else if s = ''D'' then ''Disk sleep''
      else if s = ''Z'' then ''Zombie''
      else if s = ''T'' then ''Stopped''
      else if s = ''W'' then ''Waking''
      else s)"

text \<open>\<open>erase (remove (..., c), end ())\<close>\<close>

definition erase_char :: "char \<Rightarrow> string \<Rightarrow> string" where
  "erase_char c s = filter (\<lambda>d. d \<noteq> c) s"

definition readStat :: "world \<Rightarrow> process_info \<Rightarrow> process_info" where
  "readStat w p =
     (let if_stat = ifstream w (m_proc_path p @ ''stat'');
          (is1, v_pid) = extract_signed if_stat (m_pid p);
          p1 = p\<lparr>m_pid := v_pid\<rparr>;
          (is2, v_name) = extract_string is1 (m_name p1);
          p2 = p1\<lparr>m_name := erase_char CHR '')'' (erase_char CHR ''('' v_name)\<rparr>;
          (is3, v_state) = extract_string is2 [];
          p3 = p2\<lparr>m_state := state_name v_state\<rparr>
      in snd (fold extract_field stat_fields (is3, p3)))"

section \<open>Getters of the group\<close>

definition stat_getter :: "world \<Rightarrow> (process_info \<Rightarrow> 'a) \<Rightarrow> (process_info, 'a) action" where
  "stat_getter w val =
     getter m_need_update_stat (\<lambda>p. p\<lparr>m_need_update_stat := False\<rparr>) (modify (readStat w)) val"

text \<open>\<open>pid()\<close> does not refresh.\<close>

definition pid :: "process_info \<Rightarrow> c_int" where
  "pid p = m_pid p"

definition process_name :: "world \<Rightarrow> (process_info, string) action" where
  "process_name w = stat_getter w m_name"

definition process_state :: "world \<Rightarrow> (process_info, string) action" where
  "process_state w = stat_getter w m_state"

definition ppid :: "world \<Rightarrow> (process_info, c_int) action" where
  "ppid w = stat_getter w m_ppid"

definition pgid :: "world \<Rightarrow> (process_info, c_int) action" where
  "pgid w = stat_getter w m_pgid"

definition sid :: "world \<Rightarrow> (process_info, c_int) action" where
  "sid w = stat_getter w m_session"

definition tpgid :: "world \<Rightarrow> (process_info, c_int) action" where
  "tpgid w = stat_getter w m_tpgid"

definition process_flags :: "world \<Rightarrow> (process_info, c_uint) action" where
  "process_flags w = stat_getter w m_flags"

definition minflt :: "world \<Rightarrow> (process_info, c_ulong) action" where
  "minflt w = stat_getter w m_minflt"

definition cminflt :: "world \<Rightarrow> (process_info, c_ulong) action" where
  "cminflt w = stat_getter w m_cminflt"

definition majflt :: "world \<Rightarrow> (process_info, c_ulong) action" where
  "majflt w = stat_getter w m_majflt"

definition cmajflt :: "world \<Rightarrow> (process_info, c_ulong) action" where
  "cmajflt w = stat_getter w m_cmajflt"

definition utime :: "world \<Rightarrow> (process_info, c_ulong) action" where
  "utime w = stat_getter w m_utime"

definition stime :: "world \<Rightarrow> (process_info, c_ulong) action" where
  "stime w = stat_getter w m_stime"

definition cutime :: "world \<Rightarrow> (process_info, c_ulong) action" where
  "cutime w = stat_getter w m_cutime"

definition cstime :: "world \<Rightarrow> (process_info, c_ulong) action" where
  "cstime w = stat_getter w m_cstime"

definition process_priority :: "world \<Rightarrow> (process_info, c_long) action" where
  "process_priority w = stat_getter w m_priority"

definition process_nice :: "world \<Rightarrow> (process_info, c_long) action" where
  "process_nice w = stat_getter w m_nice"

definition numThreads :: "world \<Rightarrow> (process_info, c_long) action" where
  "numThreads w = stat_getter w m_num_threads"

definition vmSize :: "world \<Rightarrow> (process_info, c_ulong) action" where
  "vmSize w = stat_getter w m_vmsize"

definition startCode :: "world \<Rightarrow> (process_info, c_ulong) action" where
  "startCode w = stat_getter w m_startcode"

definition endCode :: "world \<Rightarrow> (process_info, c_ulong) action" where
  "endCode w = stat_getter w m_endcode"

definition startStack :: "world \<Rightarrow> (process_info, c_ulong) action" where
  "startStack w = stat_getter w m_startstack"

definition kstkEsp :: "world \<Rightarrow> (process_info, c_ulong) action" where
  "kstkEsp w = stat_getter w m_kstkesp"

definition kstkEip :: "world \<Rightarrow> (process_info, c_ulong) action" where
  "kstkEip w = stat_getter w m_kstkeip"

definition wchanAddr :: "world \<Rightarrow> (process_info, c_ulong) action" where
  "wchanAddr w = stat_getter w m_wchan_addr"

definition processor :: "world \<Rightarrow> (process_info, c_int) action" where
  "processor w = stat_getter w m_processor"

definition rtPriority :: "world \<Rightarrow> (process_info, c_uint) action" where
  "rtPriority w = stat_getter w m_rt_priority"

definition delayacctBlkioTicks :: "world \<Rightarrow> (process_info, c_ull) action" where
  "delayacctBlkioTicks w = stat_getter w m_delayacct_blkio_ticks"

definition guestTime :: "world \<Rightarrow> (process_info, c_ulong) action" where
  "guestTime w = stat_getter w m_guest_time"

definition cguestTime :: "world \<Rightarrow> (process_info, c_ulong) action" where
  "cguestTime w = stat_getter w m_cguest_time"

definition startData :: "world \<Rightarrow> (process_info, c_ulong) action" where
  "startData w = stat_getter w m_start_data"

definition endData :: "world \<Rightarrow> (process_info, c_ulong) action" where
  "endData w = stat_getter w m_end_data"

definition startBrk :: "world \<Rightarrow> (process_info, c_ulong) action" where
  "startBrk w = stat_getter w m_start_brk"

definition startArg :: "world \<Rightarrow> (process_info, c_ulong) action" where
  "startArg w = stat_getter w m_arg_start"

definition endArg :: "world \<Rightarrow> (process_info, c_ulong) action" where
  "endArg w = stat_getter w m_arg_end"

definition startEnv :: "world \<Rightarrow> (process_info, c_ulong) action" where
  "startEnv w = stat_getter w m_env_start"

definition endEnv :: "world \<Rightarrow> (process_info, c_ulong) action" where
  "endEnv w = stat_getter w m_env_end"

text \<open>The names of the scheduling policies; no case matches any other number.\<close>

definition policy_name :: "c_uint \<Rightarrow> string" where
  "policy_name n =
     (if n = 0 then ''SCHED_NORMAL''
      else if n = 1 then ''SCHED_FIFO''
      else if n = 2 then ''SCHED_RR''
      else if n = 3 then ''SCHED_BATCH''
      else if n = 5 then ''SCHED_IDLE''
      else if n = 6 then ''SCHED_DEADLINE''
      else [])"

definition policy :: "world \<Rightarrow> (process_info, string) action" where
  "policy w = stat_getter w (\<lambda>p. policy_name (m_policy p))"

text \<open>The refresh alone, for the two getters that compute with more than the member.\<close>

definition stat_refresh :: "world \<Rightarrow> (process_info, unit) action" where
  "stat_refresh w =
     refresh m_need_update_stat (\<lambda>p. p\<lparr>m_need_update_stat := False\<rparr>) (modify (readStat w))"

text \<open>
  \<open>m_starttime / hz\<close> converts \<open>hz\<close> to unsigned; \<open>info.uptime - starttime_sec\<close> is unsigned too
  and wraps when the start lies after the uptime.  Division by zero is undefined.
\<close>

definition startTime :: "world \<Rightarrow> (process_info, c_ull) action" where
  "startTime w =
     and_then (stat_refresh w)
       (\<lambda>_ p. (p, if clk_tck w = 0 then Inl Undefined_behaviour
                 else Inr (uptime w - m_starttime p div clk_tck w)))"

text \<open>\<open>m_tty_nr == st.st_rdev\<close> compares the sign-extended \<open>int\<close> with the device number.\<close>

definition regex_tty :: pattern where
  "regex_tty = [Bare (Lit ''tty''), Bare (Many Digit)]"

definition same_device :: "world \<Rightarrow> process_info \<Rightarrow> string \<Rightarrow> bool" where
  "same_device w p path = (rdevs w path = Some (word_of_int (sint (m_tty_nr p))))"

definition find_tty :: "boost \<Rightarrow> world \<Rightarrow> process_info \<Rightarrow> string outcome" where
  "find_tty B w p =
     (case directories w ''/dev'' of
        None \<Rightarrow> Inl Filesystem_error
      | Some dev \<Rightarrow>
          (case List.find (\<lambda>e. regex_match B regex_tty (filename e) \<noteq> None
                     \<and> same_device w p (''/dev/'' @ filename e)) dev of
             Some e \<Rightarrow> Inr (''/dev/'' @ filename e)
           | None \<Rightarrow>
               (case directories w ''/dev/pts'' of
                  None \<Rightarrow> Inl Filesystem_error
                | Some pts \<Rightarrow>
                    (case List.find (\<lambda>e. same_device w p (''/dev/pts/'' @ filename e)) pts of
                       Some e \<Rightarrow> Inr (''/dev/pts/'' @ filename e)
                     | None \<Rightarrow> Inr []))))"

definition ttyNr :: "boost \<Rightarrow> world \<Rightarrow> (process_info, string) action" where
  "ttyNr B w = and_then (stat_refresh w) (\<lambda>_ p. (p, find_tty B w p))"

section \<open>What the reader leaves alone\<close>

text \<open>Every member that does not belong to the group.\<close>

definition outside_stat where
  "outside_stat p =
    (m_proc_path p, m_need_update_stat p, m_need_update_status p, m_need_update_io p,
     m_need_update_cwd p, m_need_update_exe p, m_need_update_cmdline p,
     m_need_update_root p, m_need_update_environ p, m_need_update_fd p,
     m_need_update_wchan p, m_need_update_smaps p, m_need_update_cpu_usage p,
     m_need_update_io_read_usage p, m_need_update_io_write_usage p, m_cmdline p, m_cwd p,
     m_exe p, m_root p, m_environ p, m_io p, m_wchan_name p, m_tracerpid p, m_uids p,
     m_gids p, m_vm_peak p, m_vm_lck p, m_vm_pin p, m_vm_hwm p, m_vm_rss p, m_vm_data p,
     m_vm_stk p, m_vm_exe p, m_vm_lib p, m_vm_pte p, m_vm_pmd p, m_vm_swap p, m_cgroups p,
     m_fds p, m_maps p, m_limits p, m_stack p, m_cpu_usage p, m_io_read_usage p,
     m_io_write_usage p, m_last_cpu_total_time p, m_last_process_total_time p,
     m_ioPriorityClass p, m_ioPriority p, m_vmRss p, m_vmURss p, m_userTime p, m_sysTime p)"

lemma extract_field_outside:
  "f \<in> set stat_fields \<Longrightarrow> outside_stat (snd (extract_field f (is, p))) = outside_stat p"
  by (simp add: stat_fields_def) (elim disjE; simp add: outside_stat_def split_beta)

lemma fold_extract_outside:
  "set fs \<subseteq> set stat_fields \<Longrightarrow>
   outside_stat (snd (fold extract_field fs (is, p))) = outside_stat p"
proof (induction fs arbitrary: "is" p)
  case Nil
  then show ?case by simp
next
  case (Cons f fs)
  obtain is' p' where step: "extract_field f (is, p) = (is', p')" by fastforce
  with Cons.prems extract_field_outside [of f "is" p] have "outside_stat p' = outside_stat p"
    by simp
  with Cons step show ?case by simp
qed

lemma readStat_outside: "outside_stat (readStat w p) = outside_stat p"
  by (simp add: readStat_def Let_def split_beta fold_extract_outside)
     (simp add: outside_stat_def)

lemma readStat_flag: "m_need_update_stat (readStat w p) = m_need_update_stat p"
  using readStat_outside [of w p] by (simp add: outside_stat_def)

interpretation stat: lazy_reader m_need_update_stat "\<lambda>p. p\<lparr>m_need_update_stat := False\<rparr>"
  "\<lambda>w. modify (readStat w)"
  by unfold_locales (simp_all add: modify_def readStat_flag)

text \<open>The object after any getter of the group has returned.\<close>

definition stat_view :: "world \<Rightarrow> process_info \<Rightarrow> process_info" where
  "stat_view w p =
     (if m_need_update_stat p then (readStat w p)\<lparr>m_need_update_stat := False\<rparr> else p)"

lemma stat_getter_view: "stat_getter w val p = (stat_view w p, Inr (val (stat_view w p)))"
  by (simp add: stat_getter_def getter_cases modify_run stat_view_def)

lemma stat_view_settled: "stat_view w (stat_view w p) = stat_view w p"
  by (simp add: stat_view_def)

lemma stat_view_keeps:
  "m_need_update_cpu_usage (stat_view w p) = m_need_update_cpu_usage p"
  "m_need_update_io_read_usage (stat_view w p) = m_need_update_io_read_usage p"
  "m_need_update_io_write_usage (stat_view w p) = m_need_update_io_write_usage p"
  "m_io (stat_view w p) = m_io p" "m_proc_path (stat_view w p) = m_proc_path p"
  "m_io_read_usage (stat_view w p) = m_io_read_usage p"
  "m_io_write_usage (stat_view w p) = m_io_write_usage p"
  using readStat_outside [of w p] by (simp_all add: stat_view_def outside_stat_def)

section \<open>The line of the kernel\<close>

fun print_field :: "process_info \<Rightarrow> stat_field \<Rightarrow> string" where
  "print_field q (F_int get put) = int_str (sint (get q))"
| "print_field q (F_uint get put) = int_str (uint (get q))"
| "print_field q (F_long get put) = int_str (sint (get q))"
| "print_field q (F_ulong get put) = int_str (uint (get q))"

fun copy_field :: "process_info \<Rightarrow> stat_field \<Rightarrow> process_info \<Rightarrow> process_info" where
  "copy_field q (F_int get put) p = put (\<lambda>_. get q) p"
| "copy_field q (F_uint get put) p = put (\<lambda>_. get q) p"
| "copy_field q (F_long get put) p = put (\<lambda>_. get q) p"
| "copy_field q (F_ulong get put) p = put (\<lambda>_. get q) p"

lemma extract_signed_spaced:
  "r \<noteq> [] \<Longrightarrow> \<not> is_digit (hd r) \<Longrightarrow>
   extract_signed (istringstream (CHR '' '' # int_str (sint w) @ r)) old = (istringstream r, w)"
  using extract_signed_int_str [of "'' ''" r w old] by simp

lemma extract_unsigned_spaced:
  "r \<noteq> [] \<Longrightarrow> \<not> is_digit (hd r) \<Longrightarrow>
   extract_unsigned (istringstream (CHR '' '' # int_str (uint w) @ r)) old = (istringstream r, w)"
  using extract_unsigned_int_str [of "'' ''" r w old] by simp

lemma extract_field_printed:
  assumes "r \<noteq> []" and "\<not> is_digit (hd r)"
  shows "extract_field f (istringstream (CHR '' '' # print_field q f @ r), p)
       = (istringstream r, copy_field q f p)"
  using assms by (cases f) (simp_all add: extract_signed_spaced extract_unsigned_spaced)

lemma fold_extract_printed:
  "fold extract_field fs
     (istringstream (concat (map (\<lambda>f. CHR '' '' # print_field q f) fs) @ [CHR 0x0A]), p)
   = (istringstream [CHR 0x0A], fold (copy_field q) fs p)"
proof (induction fs arbitrary: p)
  case Nil
  then show ?case by simp
next
  case (Cons f fs)
  let ?rest = "concat (map (\<lambda>f. CHR '' '' # print_field q f) fs) @ [CHR 0x0A]"
  have "?rest \<noteq> []" and "\<not> is_digit (hd ?rest)"
    by (cases fs; simp)+
  then show ?case
    using extract_field_printed [of ?rest f q p] Cons.IH by simp
qed

text \<open>
  The numbers of the line after the command name and the state, in the order of proc(5)
  from the parent's pid to the exit code.
\<close>

definition stat_numbers :: "process_info \<Rightarrow> int list" where
  "stat_numbers q =
    [sint (m_ppid q), sint (m_pgid q), sint (m_session q), sint (m_tty_nr q),
     sint (m_tpgid q), uint (m_flags q), uint (m_minflt q), uint (m_cminflt q),
     uint (m_majflt q), uint (m_cmajflt q), uint (m_utime q), uint (m_stime q),
     uint (m_cutime q), uint (m_cstime q), sint (m_priority q), sint (m_nice q),
     sint (m_num_threads q), sint (m_itrealvalue q), uint (m_starttime q),
     uint (m_vmsize q), sint (m_rss q), uint (m_rsslim q), uint (m_startcode q),
     uint (m_endcode q), uint (m_startstack q), uint (m_kstkesp q), uint (m_kstkeip q),
     uint (m_signal q), uint (m_blocked q), uint (m_siginore q), uint (m_sigcatch q),
     uint (m_wchan_addr q), uint (m_nswap q), uint (m_cnswap q), sint (m_exit_signal q),
     sint (m_processor q), uint (m_rt_priority q), uint (m_policy q),
     uint (m_delayacct_blkio_ticks q), uint (m_guest_time q), sint (m_cguest_time q),
     uint (m_start_data q), uint (m_end_data q), uint (m_start_brk q),
     uint (m_arg_start q), uint (m_arg_end q), uint (m_env_start q), uint (m_env_end q),
     sint (m_exit_code q)]"

definition proc_stat_line :: "process_info \<Rightarrow> string \<Rightarrow> string \<Rightarrow> string" where
  "proc_stat_line q comm st =
     int_str (sint (m_pid q)) @ '' ('' @ comm @ '') '' @ st
     @ concat (map (\<lambda>i. CHR '' '' # int_str i) (stat_numbers q)) @ [CHR 0x0A]"

lemma stat_fields_numbers:
  "concat (map (\<lambda>f. CHR '' '' # print_field q f) stat_fields)
   = concat (map (\<lambda>i. CHR '' '' # int_str i) (stat_numbers q))"
  by (simp add: stat_fields_def stat_numbers_def)

definition plain_word :: "string \<Rightarrow> bool" where
  "plain_word s \<longleftrightarrow> s \<noteq> [] \<and> (\<forall>c \<in> set s. \<not> is_space c)"

lemma extract_word:
  assumes "plain_word s" and "is_space c"
  shows "extract_string (istringstream (CHR '' '' # s @ c # r)) old = (istringstream (c # r), s)"
  using extract_string_word [of "'' ''" s "c # r" old] assms by (simp add: plain_word_def)

lemma extract_first:
  "is_space c \<Longrightarrow> extract_signed (istringstream (int_str (sint v) @ c # r)) old
    = (istringstream (c # r), v)"
  using extract_signed_int_str [of "[]" "c # r" v old] digit_not_space [of c] by auto

lemma erase_parens:
  "set comm \<inter> set ''()'' = {} \<Longrightarrow>
   erase_char CHR '')'' (erase_char CHR ''('' (''('' @ comm @ '')'')) = comm"
  by (auto simp: erase_char_def filter_id_conv)

lemma readStat_line:
  assumes "files w (m_proc_path p @ ''stat'') = Some (proc_stat_line q comm st)"
    and "\<forall>c \<in> set comm. \<not> is_space c" and "set comm \<inter> set ''()'' = {}"
    and "plain_word st"
  shows "readStat w p = fold (copy_field q) stat_fields
    (p\<lparr>m_pid := m_pid q, m_name := comm, m_state := state_name st\<rparr>)"
proof -
  obtain cw where cw: "cw = ''('' @ comm @ '')''" by simp
  obtain nums where nums:
    "nums = concat (map (\<lambda>f. CHR '' '' # print_field q f) stat_fields) @ [CHR 0x0A]" by simp
  have line: "ifstream w (m_proc_path p @ ''stat'')
    = istringstream (int_str (sint (m_pid q)) @ CHR '' '' # cw @ CHR '' '' # st @ nums)"
    by (simp add: ifstream_def assms(1) open_file_Some proc_stat_line_def stat_fields_numbers
        cw nums)
  have "plain_word cw"
    using assms(2) by (auto simp: plain_word_def is_space_def cw)
  note name = extract_word [OF this]
  obtain c r where cr: "nums = c # r" "is_space c"
    by (simp add: nums stat_fields_def)
  have state: "extract_string (istringstream (CHR '' '' # st @ nums)) [] = (istringstream nums, st)"
    unfolding cr(1) by (rule extract_word [OF assms(4) cr(2)])
  have fields: "fold extract_field stat_fields (istringstream nums, t)
    = (istringstream [CHR 0x0A], fold (copy_field q) stat_fields t)" for t
    unfolding nums by (rule fold_extract_printed)
  have "erase_char CHR '')'' (erase_char CHR ''('' cw) = comm"
    unfolding cw by (rule erase_parens [OF assms(3)])
  then show ?thesis
    unfolding readStat_def line
    by (simp add: Let_def extract_first name state fields)
qed

section \<open>Properties of the reader\<close>

text \<open>
  C6. Reading the line the kernel prints for a process \<open>q\<close> (any values of the 50 numeric
  members, a command name without space or parenthesis) stores exactly the values of \<open>q\<close>,
  each in its own member, and touches no member of another group.
\<close>

theorem readStat_kernel_line:
  assumes "files w (m_proc_path p @ ''stat'') = Some (proc_stat_line q comm st)"
    and "\<forall>c \<in> set comm. \<not> is_space c" and "set comm \<inter> set ''()'' = {}"
    and "plain_word st" and "r = readStat w p"
  shows "m_pid r = m_pid q \<and> m_name r = comm \<and> m_state r = state_name st
    \<and> m_ppid r = m_ppid q \<and> m_pgid r = m_pgid q \<and> m_session r = m_session q
    \<and> m_tty_nr r = m_tty_nr q \<and> m_tpgid r = m_tpgid q \<and> m_flags r = m_flags q
    \<and> m_minflt r = m_minflt q \<and> m_cminflt r = m_cminflt q
    \<and> m_majflt r = m_majflt q \<and> m_cmajflt r = m_cmajflt q
    \<and> m_utime r = m_utime q \<and> m_stime r = m_stime q \<and> m_cutime r = m_cutime q
    \<and> m_cstime r = m_cstime q \<and> m_priority r = m_priority q
    \<and> m_nice r = m_nice q \<and> m_num_threads r = m_num_threads q
    \<and> m_itrealvalue r = m_itrealvalue q \<and> m_starttime r = m_starttime q
    \<and> m_vmsize r = m_vmsize q \<and> m_rss r = m_rss q \<and> m_rsslim r = m_rsslim q
    \<and> m_startcode r = m_startcode q \<and> m_endcode r = m_endcode q
    \<and> m_startstack r = m_startstack q \<and> m_kstkesp r = m_kstkesp q
    \<and> m_kstkeip r = m_kstkeip q \<and> m_signal r = m_signal q
    \<and> m_blocked r = m_blocked q \<and> m_siginore r = m_siginore q
    \<and> m_sigcatch r = m_sigcatch q \<and> m_wchan_addr r = m_wchan_addr q
    \<and> m_nswap r = m_nswap q \<and> m_cnswap r = m_cnswap q
    \<and> m_exit_signal r = m_exit_signal q \<and> m_processor r = m_processor q
    \<and> m_rt_priority r = m_rt_priority q \<and> m_policy r = m_policy q
    \<and> m_delayacct_blkio_ticks r = m_delayacct_blkio_ticks q
    \<and> m_guest_time r = m_guest_time q \<and> m_cguest_time r = m_cguest_time q
    \<and> m_start_data r = m_start_data q \<and> m_end_data r = m_end_data q
    \<and> m_start_brk r = m_start_brk q \<and> m_arg_start r = m_arg_start q
    \<and> m_arg_end r = m_arg_end q \<and> m_env_start r = m_env_start q
    \<and> m_env_end r = m_env_end q \<and> m_exit_code r = m_exit_code q
    \<and> outside_stat r = outside_stat p"
proof -
  have r: "r = fold (copy_field q) stat_fields
      (p\<lparr>m_pid := m_pid q, m_name := comm, m_state := state_name st\<rparr>)"
    using readStat_line [OF assms(1-4)] assms(5) by simp
  have "outside_stat r = outside_stat p"
    using readStat_outside assms(5) by simp
  then show ?thesis
    unfolding r by (simp add: stat_fields_def)
qed

definition stat_world :: "string \<Rightarrow> string \<Rightarrow> world" where
  "stat_world file content = empty_world\<lparr>files := [file \<mapsto> content]\<rparr>"

lemma constructed_path: "m_proc_path (ProcessInfo raw 7) = ''/proc/7/''"
  by (simp add: ProcessInfo_def needUpdate_def to_string_def int_str_def nat_str_digit
      digit_char_literals)

theorem readStat_kernel_line_witness:
  "\<forall>raw q. m_exit_code (readStat (stat_world ''/proc/7/stat'' (proc_stat_line q ''sshd'' ''S''))
     (ProcessInfo raw 7)) = m_exit_code q"
proof (intro allI)
  fix raw q
  have f: "files (stat_world ''/proc/7/stat'' (proc_stat_line q ''sshd'' ''S''))
      (m_proc_path (ProcessInfo raw 7) @ ''stat'') = Some (proc_stat_line q ''sshd'' ''S'')"
    by (simp add: constructed_path stat_world_def empty_world_def)
  show "m_exit_code (readStat (stat_world ''/proc/7/stat'' (proc_stat_line q ''sshd'' ''S''))
      (ProcessInfo raw 7)) = m_exit_code q"
    using readStat_kernel_line [OF f _ _ _ refl]
    by (simp add: plain_word_def is_space_def)
qed

lemma copy_field_same: "f \<in> set stat_fields \<Longrightarrow> copy_field p f p = p"
  by (simp add: stat_fields_def) (elim disjE; simp)

lemma extract_field_bad:
  assumes "\<not> good is" and "f \<in> set stat_fields"
  shows "extract_field f (is, p) = (is\<lparr>failbit := True\<rparr>, p)"
  using assms copy_field_same [OF assms(2), of p] by (cases f) (simp_all add: extract_bad)

lemma fold_extract_bad:
  "\<not> good is \<Longrightarrow> set fs \<subseteq> set stat_fields \<Longrightarrow> snd (fold extract_field fs (is, p)) = p"
proof (induction fs arbitrary: "is")
  case Nil
  then show ?case by simp
next
  case (Cons f fs)
  moreover have "\<not> good (is\<lparr>failbit := True\<rparr>)" by (simp add: good_def)
  ultimately show ?case by (simp add: extract_field_bad)
qed

text \<open>
  C35. A command name with a space derails the reader: the second half of the name is taken
  for the state, the parent's pid becomes 0, and all the other numeric members keep what they
  held before the read.
\<close>

theorem readStat_spaced_name:
  assumes "files w (m_proc_path p @ ''stat'') =
      Some (int_str (sint v) @ '' ('' @ a @ '' '' @ b @ '') '' @ [st] @ rest)"
    and "\<forall>c \<in> set (a @ b). \<not> is_space c" and "set (a @ b) \<inter> set ''()'' = {}"
    and "is_alpha st"
  shows "readStat w p = p\<lparr>m_pid := v, m_name := a, m_state := b @ '')'', m_ppid := 0\<rparr>"
proof -
  obtain aw where aw: "aw = ''('' @ a" by simp
  obtain bw where bw: "bw = b @ '')''" by simp
  have line: "ifstream w (m_proc_path p @ ''stat'')
    = istringstream (int_str (sint v) @ CHR '' '' # aw @ CHR '' '' # bw @ CHR '' '' # st # rest)"
    by (simp add: ifstream_def assms(1) open_file_Some aw bw)
  have "plain_word aw" and "plain_word bw"
    using assms(2) by (auto simp: plain_word_def is_space_def aw bw)
  note words = this [THEN extract_word]
  have "\<not> is_space st" "st \<noteq> CHR ''-''" "st \<noteq> CHR ''+''" "\<not> is_digit st"
    using assms(4) by (auto simp: char_class_defs Let_def)
  then have ppid: "snd (extract_signed (istringstream (CHR '' '' # st # rest)) old) = 0"
      "\<not> good (fst (extract_signed (istringstream (CHR '' '' # st # rest)) old))"
    for old :: c_int
    using extract_signed_not_number [of "'' ''" "st # rest" old] by auto
  have erase: "erase_char CHR '')'' (erase_char CHR ''('' aw) = a"
    using assms(3) by (auto simp: aw erase_char_def filter_id_conv)
  have "state_name bw = bw"
    using \<open>plain_word bw\<close> by (cases b) (auto simp: bw state_name_def)
  then have start: "readStat w p = snd (fold extract_field stat_fields
      (istringstream (CHR '' '' # st # rest), p\<lparr>m_pid := v, m_name := a, m_state := bw\<rparr>))"
    unfolding readStat_def line by (simp add: Let_def extract_first words erase)
  obtain fs where fs: "stat_fields = F_int m_ppid m_ppid_update # fs"
    by (simp add: stat_fields_def)
  then have "set fs \<subseteq> set stat_fields" by (metis set_subset_Cons)
  then have stuck: "\<not> good is \<Longrightarrow> snd (fold extract_field fs (is, q)) = q" for "is" q
    by (rule fold_extract_bad [rotated])
  show ?thesis
    unfolding start fs using ppid [of "m_ppid p"] by (simp add: split_beta stuck bw)
qed

theorem readStat_spaced_name_witness:
  "\<forall>raw. readStat (stat_world ''/proc/7/stat'' (''7 (Web Content) S 1 7 7'')) (ProcessInfo raw 7)
     = (ProcessInfo raw 7)\<lparr>m_pid := 7, m_name := ''Web'', m_state := ''Content'' @ '')'', m_ppid := 0\<rparr>"
  by (intro allI readStat_spaced_name [where st = "CHR ''S''" and rest = "'' 1 7 7''"])
     (simp_all add: constructed_path stat_world_def empty_world_def is_space_def is_alpha_def
        int_str_def nat_str_digit digit_char_literals)

text \<open>
  When the file is gone (the process has ended) the reader reports no error: the state
  becomes empty, the name loses parentheses at most, and every other member stays stale.
\<close>

theorem readStat_missing_file:
  assumes "files w (m_proc_path p @ ''stat'') = None"
  shows "readStat w p =
    p\<lparr>m_name := erase_char CHR '')'' (erase_char CHR ''('' (m_name p)), m_state := []\<rparr>"
proof -
  have bad: "\<not> good (\<lparr>buf = [], eofbit = False, failbit = True\<rparr>)" by (simp add: good_def)
  have "ifstream w (m_proc_path p @ ''stat'') = \<lparr>buf = [], eofbit = False, failbit = True\<rparr>"
    by (simp add: ifstream_def assms open_file_def)
  then show ?thesis
    by (simp add: readStat_def Let_def extract_bad bad fold_extract_bad state_name_def)
qed

theorem readStat_missing_file_witness:
  "\<forall>p. m_ppid (readStat empty_world p) = m_ppid p \<and> m_state (readStat empty_world p) = []"
proof
  fix p
  show "m_ppid (readStat empty_world p) = m_ppid p \<and> m_state (readStat empty_world p) = []"
    using readStat_missing_file [of empty_world p] by (simp add: empty_world_def)
qed

text \<open>
  The getters of the group share one read: after one of them has returned, each of them
  returns the member as that read left it and changes nothing, whatever the files hold by
  then, until \<open>needUpdate\<close> makes the next one read again.
\<close>

theorem stat_getters_one_snapshot:
  assumes "ppid w p = (t, Inr v)"
  shows "v = m_ppid t \<and> utime w' t = (t, Inr (m_utime t)) \<and> process_name w' t = (t, Inr (m_name t))
    \<and> policy w' t = (t, Inr (policy_name (m_policy t)))
    \<and> utime w' (needUpdate t) =
       ((readStat w' (needUpdate t))\<lparr>m_need_update_stat := False\<rparr>,
        Inr (m_utime (readStat w' (needUpdate t))))"
proof -
  note settled = stat.getter_settles [OF assms [unfolded ppid_def stat_getter_def]]
  have "m_need_update_stat (needUpdate t)" by (simp add: needUpdate_def)
  note again = stat.getter_reads [OF this]
  show ?thesis
    using settled(2)
    by (simp add: utime_def process_name_def policy_def stat_getter_def run_simps settled(3)
        again [OF modify_run])
qed

theorem stat_getters_one_snapshot_witness:
  "\<forall>p. utime empty_world (fst (ppid empty_world p))
     = (fst (ppid empty_world p), Inr (m_utime (fst (ppid empty_world p))))"
proof
  fix p
  obtain t v where t: "ppid empty_world p = (t, Inr v)"
    by (cases "m_need_update_stat p")
       (auto simp: ppid_def stat_getter_def getter_cases run_simps)
  show "utime empty_world (fst (ppid empty_world p))
     = (fst (ppid empty_world p), Inr (m_utime (fst (ppid empty_world p))))"
    using stat_getters_one_snapshot [OF t] t by simp
qed

section \<open>The terminal and the start time\<close>

definition tty_name :: "string \<Rightarrow> bool" where
  "tty_name s \<longleftrightarrow> (\<exists>ds. s = ''tty'' @ ds \<and> list_all is_digit ds)"

lemma regex_tty_iff:
  assumes "regex_engine rx"
  shows "rx regex_tty s \<noteq> None \<longleftrightarrow> tty_name s"
proof -
  have "(\<exists>cs. fits regex_tty s cs) \<longleftrightarrow> tty_name s"
  proof
    assume "\<exists>cs. fits regex_tty s cs"
    then show "tty_name s"
      by (auto simp: regex_tty_def tty_name_def elim!: fits_BareE)
  next
    assume "tty_name s"
    then obtain ds where s: "s = ''tty'' @ ds" and ds: "list_all is_digit ds"
      by (auto simp: tty_name_def)
    have "fits regex_tty (''tty'' @ ds @ []) []"
      unfolding regex_tty_def using ds by (intro fits.intros) simp_all
    then show "\<exists>cs. fits regex_tty s cs" by (auto simp: s)
  qed
  then show ?thesis
    unfolding regex_engine.no_match_iff [OF assms] by simp
qed

lemma find_Some_holds: "List.find P xs = Some x \<Longrightarrow> x \<in> set xs \<and> P x"
  by (induction xs) (auto split: if_splits)

lemma stat_refresh_view: "stat_refresh w p = (stat_view w p, Inr ())"
  by (simp add: stat_refresh_def refresh_def run_simps modify_run and_then_def stat_view_def)

text \<open>
  C36. The terminal of a process: a path that is returned is that of a device with the number of
  the process, a \<open>/dev/tty*\<close> with digits or else one under \<open>/dev/pts\<close>; the empty path means that
  no such device has the number, and a device under \<open>/dev/pts\<close> is only named when no \<open>/dev/tty*\<close>
  has it.
\<close>

theorem ttyNr_device:
  assumes "regex_engine (regex_match B)" and "directories w ''/dev'' = Some dev"
    and "directories w ''/dev/pts'' = Some pts" and "q = stat_view w p"
    and "ttys = map (\<lambda>e. ''/dev/'' @ filename e) (filter (\<lambda>e. tty_name (filename e)) dev)"
    and "ptys = map (\<lambda>e. ''/dev/pts/'' @ filename e) pts"
  shows "\<exists>path. ttyNr B w p = (q, Inr path)
    \<and> (path \<noteq> [] \<longrightarrow> path \<in> set ttys \<union> set ptys \<and> rdevs w path = Some (scast (m_tty_nr q)))
    \<and> (path \<notin> set ttys \<longrightarrow> (\<forall>t \<in> set ttys. rdevs w t \<noteq> Some (scast (m_tty_nr q))))
    \<and> (path = [] \<longrightarrow> (\<forall>t \<in> set ptys. rdevs w t \<noteq> Some (scast (m_tty_nr q))))"
proof -
  have same: "same_device w q t \<longleftrightarrow> rdevs w t = Some (scast (m_tty_nr q))" for t
    by (simp only: same_device_def scast_eq)
  let ?tty = "List.find (\<lambda>e. tty_name (filename e) \<and> same_device w q (''/dev/'' @ filename e)) dev"
  let ?pty = "List.find (\<lambda>e. same_device w q (''/dev/pts/'' @ filename e)) pts"
  define path where "path = (case ?tty of Some e \<Rightarrow> ''/dev/'' @ filename e
      | None \<Rightarrow> (case ?pty of Some e \<Rightarrow> ''/dev/pts/'' @ filename e | None \<Rightarrow> []))"
  have "find_tty B w q = Inr path"
    unfolding find_tty_def assms(2,3) regex_tty_iff [OF assms(1)] path_def option.case
    by (cases ?tty; cases ?pty) (simp_all only: option.case)
  then have run: "ttyNr B w p = (q, Inr path)"
    by (simp add: ttyNr_def and_then_def stat_refresh_view assms(4))
  have tty: "path \<in> set ttys \<and> same_device w q path" if "?tty = Some e" for e
    using find_Some_holds [OF that] unfolding path_def that assms(5) by auto
  have pty: "path \<in> set ptys \<and> same_device w q path" if "?tty = None" "?pty = Some e" for e
    using find_Some_holds [OF that(2)] unfolding path_def that assms(6) by auto
  have no_tty: "\<forall>t \<in> set ttys. \<not> same_device w q t" if "?tty = None"
    using that by (auto simp: find_None_iff assms(5))
  have no_pty: "\<forall>t \<in> set ptys. \<not> same_device w q t" if "?pty = None"
    using that by (auto simp: find_None_iff assms(6))
  have "path \<noteq> [] \<longrightarrow> path \<in> set ttys \<union> set ptys \<and> same_device w q path"
  proof (cases ?tty)
    case None
    then show ?thesis using pty by (cases ?pty) (auto simp: path_def)
  qed (use tty in blast)
  moreover have "path \<notin> set ttys \<longrightarrow> (\<forall>t \<in> set ttys. \<not> same_device w q t)"
    by (cases ?tty) (use tty no_tty in blast)+
  moreover have "path = [] \<longrightarrow> (\<forall>t \<in> set ptys. \<not> same_device w q t)"
  proof (cases ?pty)
    case None
    then show ?thesis using no_pty by blast
  next
    case (Some e)
    have "path \<noteq> []" unfolding path_def Some by (cases ?tty) auto
    then show ?thesis by blast
  qed
  ultimately show ?thesis
    using run unfolding same by blast
qed

definition terminal_world :: world where
  "terminal_world = empty_world\<lparr>directories := [''/dev'' \<mapsto> [\<lparr>filename = ''null'', is_dir = False\<rparr>,
     \<lparr>filename = ''tty1'', is_dir = False\<rparr>], ''/dev/pts'' \<mapsto> []],
     rdevs := [''/dev/null'' \<mapsto> 1025, ''/dev/tty1'' \<mapsto> 1025], uptime := 50\<rparr>"

theorem ttyNr_device_witness:
  "\<forall>p. snd (ttyNr reference_boost terminal_world (p\<lparr>m_need_update_stat := False, m_tty_nr := 1025\<rparr>))
    = Inr ''/dev/tty1''"
proof
  fix p :: process_info
  let ?p = "p\<lparr>m_need_update_stat := False, m_tty_nr := 1025\<rparr>"
  have rx: "regex_engine (regex_match reference_boost)"
    using reference.boost_library_axioms by (simp add: boost_library_def)
  have dirs: "directories terminal_world ''/dev'' = Some [\<lparr>filename = ''null'', is_dir = False\<rparr>,
      \<lparr>filename = ''tty1'', is_dir = False\<rparr>]" "directories terminal_world ''/dev/pts'' = Some []"
    by (simp_all add: terminal_world_def)
  have q: "?p = stat_view terminal_world ?p" by (simp add: stat_view_def)
  have names: "[''/dev/tty1''] = map (\<lambda>e. ''/dev/'' @ filename e) (filter (\<lambda>e. tty_name (filename e))
      [\<lparr>filename = ''null'', is_dir = False\<rparr>, \<lparr>filename = ''tty1'', is_dir = False\<rparr>])"
    by (auto simp: tty_name_def is_digit_def)
  have "rdevs terminal_world ''/dev/tty1'' = Some (scast (m_tty_nr ?p))"
    by (simp add: terminal_world_def)
  with ttyNr_device [OF rx dirs q names, of "[]"]
  show "snd (ttyNr reference_boost terminal_world ?p) = Inr ''/dev/tty1''"
    by fastforce
qed

text \<open>
  C37. The time a process has been running, in whole seconds: the uptime less its start, when it
  has not started after the moment of the uptime, and otherwise that difference modulo \<open>2 ^ 64\<close>,
  which is more than 500 billion years.
\<close>

theorem startTime_elapsed:
  assumes "clk_tck w \<noteq> 0" and "q = stat_view w p"
    and "started = uint (m_starttime q) div uint (clk_tck w)"
  shows "\<exists>v. startTime w p = (q, Inr v)
    \<and> (if started \<le> uint (uptime w) then uint v = uint (uptime w) - started
       else uint v = 2 ^ 64 + uint (uptime w) - started)"
proof -
  have run: "startTime w p = (q, Inr (uptime w - m_starttime q div clk_tck w))"
    using assms(1,2) by (simp add: startTime_def and_then_def stat_refresh_view)
  have "uint (m_starttime q div clk_tck w) = started"
    by (simp add: uint_div assms(3))
  then show ?thesis
    using run uint_sub_if' [of "uptime w" "m_starttime q div clk_tck w"]
    by (intro exI [of _ "uptime w - m_starttime q div clk_tck w"]) simp
qed

theorem startTime_elapsed_witness:
  "\<forall>p. \<exists>v. snd (startTime terminal_world (p\<lparr>m_need_update_stat := False, m_starttime := 1050\<rparr>)) = Inr v
    \<and> uint v = 40"
proof
  fix p :: process_info
  let ?p = "p\<lparr>m_need_update_stat := False, m_starttime := 1050\<rparr>"
  have "clk_tck terminal_world \<noteq> 0" "?p = stat_view terminal_world ?p"
      "10 = uint (m_starttime ?p) div uint (clk_tck terminal_world)"
    by (simp_all add: terminal_world_def empty_world_def stat_view_def)
  from startTime_elapsed [OF this]
  show "\<exists>v. snd (startTime terminal_world ?p) = Inr v \<and> uint v = 40"
    by (auto simp: terminal_world_def)
qed

end
