(* ===== verification/Process_Status.thy ===== *)
theory Process_Status
  imports Process_Stat
begin

text \<open>
  The group of \<open>/proc/<pid>/status\<close>: user and group ids, memory figures, and the user name.
\<close>

section \<open>Reading /proc/pid/status\<close>

text \<open>
  \<^verbatim>\<open>^\s+([[:digit:]]+)\s+([[:digit:]]+)\s+([[:digit:]]+)\s+([[:digit:]]+)\s*$\<close> and
  \<^verbatim>\<open>^\s+([[:digit:]]+)\skB\s*$\<close>
\<close>

definition regex_uids :: pattern where
  "regex_uids =
    [Bare (Many1 Space), Group (Many1 Digit), Bare (Many1 Space), Group (Many1 Digit),
     Bare (Many1 Space), Group (Many1 Digit), Bare (Many1 Space), Group (Many1 Digit),
     Bare (Many Space)]"

definition regex_vm :: pattern where
  "regex_vm =
    [Bare (Many1 Space), Group (Many1 Digit), Bare (One Space), Bare (Lit ''kB''),
     Bare (Many Space)]"

text \<open>The memory figures by key; the \<open>int\<close> of \<open>std::stoi\<close> is widened to the member.\<close>

definition vm_table :: "(string \<times> (c_int \<Rightarrow> process_info \<Rightarrow> process_info)) list" where
  "vm_table =
    [(''VmPeak'', \<lambda>n p. p\<lparr>m_vm_peak := scast n\<rparr>),
     (''VmLck'', \<lambda>n p. p\<lparr>m_vm_lck := scast n\<rparr>),
     (''VmPin'', \<lambda>n p. p\<lparr>m_vm_pin := scast n\<rparr>),
     (''VmHWM'', \<lambda>n p. p\<lparr>m_vm_hwm := scast n\<rparr>),
     (''VmRSS'', \<lambda>n p. p\<lparr>m_vm_rss := scast n\<rparr>),
     (''VmData'', \<lambda>n p. p\<lparr>m_vm_data := scast n\<rparr>),
     (''VmStk'', \<lambda>n p. p\<lparr>m_vm_stk := scast n\<rparr>),
     (''VmExe'', \<lambda>n p. p\<lparr>m_vm_exe := scast n\<rparr>),
     (''VmLib'', \<lambda>n p. p\<lparr>m_vm_lib := scast n\<rparr>),
     (''VmPTE'', \<lambda>n p. p\<lparr>m_vm_pte := scast n\<rparr>),
     (''VmPMD'', \<lambda>n p. p\<lparr>m_vm_pmd := scast n\<rparr>),
     (''VmSwap'', \<lambda>n p. p\<lparr>m_vm_swap := scast n\<rparr>)]"

definition vm_field :: "string \<Rightarrow> (c_int \<Rightarrow> process_info \<Rightarrow> process_info) option" where
  "vm_field key = map_of vm_table key"

definition push_ids ::
  "boost \<Rightarrow> string \<Rightarrow> (c_int \<Rightarrow> process_info \<Rightarrow> process_info) \<Rightarrow> (process_info, unit) action" where
  "push_ids B value push =
     (case regex_match B regex_uids value of
        Some match \<Rightarrow>
          (if length match = 4 then for_each (\<lambda>m. assign (stoi 10 m) push) match
           else returns ())
      | None \<Rightarrow> returns ())"

definition parse_status_line :: "boost \<Rightarrow> string \<Rightarrow> (process_info, unit) action" where
  "parse_status_line B line =
     (let (key, value) = key_value CHR '':'' line
      in if key = ''Uid'' then push_ids B value (\<lambda>n p. p\<lparr>m_uids := m_uids p @ [n]\<rparr>)
         else if key = ''Gid'' then push_ids B value (\<lambda>n p. p\<lparr>m_gids := m_gids p @ [n]\<rparr>)
         else case vm_field key of
                Some store \<Rightarrow>
                  (case regex_match B regex_vm value of
                     Some [m] \<Rightarrow> assign (stoi 10 m) store
                   | _ \<Rightarrow> returns ())
              | None \<Rightarrow> returns ())"

definition readStatus :: "boost \<Rightarrow> world \<Rightarrow> (process_info, unit) action" where
  "readStatus B w p =
     for_each (parse_status_line B) (lines_of (ifstream w (m_proc_path p @ ''status''))) p"

section \<open>Getters of the group\<close>

definition status_getter ::
  "boost \<Rightarrow> world \<Rightarrow> (process_info \<Rightarrow> 'a) \<Rightarrow> (process_info, 'a) action" where
  "status_getter B w val =
     getter m_need_update_status (\<lambda>p. p\<lparr>m_need_update_status := False\<rparr>) (readStatus B w) val"

definition uids :: "boost \<Rightarrow> world \<Rightarrow> (process_info, c_int list) action" where
  "uids B w = status_getter B w m_uids"

definition gids :: "boost \<Rightarrow> world \<Rightarrow> (process_info, c_int list) action" where
  "gids B w = status_getter B w m_gids"

definition vmPeak :: "boost \<Rightarrow> world \<Rightarrow> (process_info, c_ulong) action" where
  "vmPeak B w = status_getter B w m_vm_peak"

definition vmLck :: "boost \<Rightarrow> world \<Rightarrow> (process_info, c_ulong) action" where
  "vmLck B w = status_getter B w m_vm_lck"

definition vmPin :: "boost \<Rightarrow> world \<Rightarrow> (process_info, c_ulong) action" where
  "vmPin B w = status_getter B w m_vm_pin"

definition vmHwm :: "boost \<Rightarrow> world \<Rightarrow> (process_info, c_ulong) action" where
  "vmHwm B w = status_getter B w m_vm_hwm"

definition vmRss :: "boost \<Rightarrow> world \<Rightarrow> (process_info, c_ulong) action" where
  "vmRss B w = status_getter B w m_vm_rss"

definition vmData :: "boost \<Rightarrow> world \<Rightarrow> (process_info, c_ulong) action" where
  "vmData B w = status_getter B w m_vm_data"

definition vmStk :: "boost \<Rightarrow> world \<Rightarrow> (process_info, c_ulong) action" where
  "vmStk B w = status_getter B w m_vm_stk"

definition vmExe :: "boost \<Rightarrow> world \<Rightarrow> (process_info, c_ulong) action" where
  "vmExe B w = status_getter B w m_vm_exe"

definition vmLib :: "boost \<Rightarrow> world \<Rightarrow> (process_info, c_ulong) action" where
  "vmLib B w = status_getter B w m_vm_lib"

definition vmPte :: "boost \<Rightarrow> world \<Rightarrow> (process_info, c_ulong) action" where
  "vmPte B w = status_getter B w m_vm_pte"

definition vmPmd :: "boost \<Rightarrow> world \<Rightarrow> (process_info, c_ulong) action" where
  "vmPmd B w = status_getter B w m_vm_pmd"

definition vmSwap :: "boost \<Rightarrow> world \<Rightarrow> (process_info, c_ulong) action" where
  "vmSwap B w = status_getter B w m_vm_swap"

text \<open>\<open>m_uids[0]\<close> of an empty vector is undefined.\<close>

definition user_of :: "world \<Rightarrow> process_info \<Rightarrow> string outcome" where
  "user_of w p =
     (case m_uids p of
        [] \<Rightarrow> Inl Undefined_behaviour
      | uid # _ \<Rightarrow> (case users w uid of None \<Rightarrow> Inr (to_string uid) | Some name \<Rightarrow> Inr name))"

definition userName :: "boost \<Rightarrow> world \<Rightarrow> (process_info, string) action" where
  "userName B w =
     and_then (refresh m_need_update_status (\<lambda>p. p\<lparr>m_need_update_status := False\<rparr>)
         (readStatus B w))
       (\<lambda>_ p. (p, user_of w p))"

lemma userName_reads:
  "m_need_update_status p \<Longrightarrow> readStatus B w p = (q, Inr ()) \<Longrightarrow>
   userName B w p = (q\<lparr>m_need_update_status := False\<rparr>, user_of w (q\<lparr>m_need_update_status := False\<rparr>))"
  by (simp add: userName_def refresh_def and_then_def modify_def)

section \<open>What the reader leaves alone\<close>

definition outside_status where
  "outside_status p =
    (m_proc_path p, m_need_update_stat p, m_need_update_status p, m_need_update_io p,
     m_need_update_cwd p, m_need_update_exe p, m_need_update_cmdline p,
     m_need_update_root p, m_need_update_environ p, m_need_update_fd p,
     m_need_update_wchan p, m_need_update_smaps p, m_need_update_cpu_usage p,
     m_need_update_io_read_usage p, m_need_update_io_write_usage p, m_pid p, m_name p,
     m_state p, m_ppid p, m_pgid p, m_session p, m_tty_nr p, m_tpgid p, m_flags p,
     m_minflt p, m_cminflt p, m_majflt p, m_cmajflt p, m_utime p, m_stime p, m_cutime p,
     m_cstime p, m_priority p, m_nice p, m_num_threads p, m_itrealvalue p, m_starttime p,
     m_vmsize p, m_rss p, m_rsslim p, m_startcode p, m_endcode p, m_startstack p,
     m_kstkesp p, m_kstkeip p, m_signal p, m_blocked p, m_siginore p, m_sigcatch p,
     m_wchan_addr p, m_nswap p, m_cnswap p, m_exit_signal p, m_processor p,
     m_rt_priority p, m_policy p, m_delayacct_blkio_ticks p, m_start_data p, m_end_data p,
     m_start_brk p, m_arg_start p, m_arg_end p, m_env_start p, m_env_end p, m_exit_code p,
     m_guest_time p, m_cguest_time p, m_cmdline p, m_cwd p, m_exe p, m_root p, m_environ p,
     m_io p, m_wchan_name p, m_tracerpid p, m_cgroups p, m_fds p, m_maps p, m_limits p,
     m_stack p, m_cpu_usage p, m_io_read_usage p, m_io_write_usage p,
     m_last_cpu_total_time p, m_last_process_total_time p, m_ioPriorityClass p,
     m_ioPriority p, m_vmRss p, m_vmURss p, m_userTime p, m_sysTime p)"

lemma vm_field_table: "vm_field k = Some f \<Longrightarrow> (k, f) \<in> set vm_table"
  by (simp add: vm_field_def map_of_SomeD)

lemma vm_field_outside: "vm_field k = Some f \<Longrightarrow> outside_status (f n p) = outside_status p"
  by (drule vm_field_table, unfold vm_table_def list.set)
     (elim insertE emptyE; simp add: outside_status_def)

lemma vm_field_ids: "vm_field k = Some f \<Longrightarrow> m_uids (f n p) = m_uids p \<and> m_gids (f n p) = m_gids p"
  by (drule vm_field_table, unfold vm_table_def list.set) (elim insertE emptyE; simp)

lemma assign_view:
  "(\<And>n q. view (put n q) = view q) \<Longrightarrow> view (fst (assign v put p)) = view p"
  by (auto simp: assign_def split: sum.splits)

lemma push_ids_view:
  assumes "\<And>n q. view (push n q) = view q"
  shows "view (fst (push_ids B value push p)) = view p"
proof -
  have "view (fst (for_each (\<lambda>m. assign (stoi 10 m) push) match p)) = view p" for match
    by (rule for_each_frame, rule assign_view, rule assms)
  then show ?thesis
    by (simp add: push_ids_def run_simps split: option.splits)
qed

lemma parse_status_line_outside:
  "outside_status (fst (parse_status_line B line p)) = outside_status p"
proof -
  have ids: "outside_status (q\<lparr>m_uids := x\<rparr>) = outside_status q"
      "outside_status (q\<lparr>m_gids := x\<rparr>) = outside_status q" for q x
    by (simp_all add: outside_status_def)
  have "outside_status (fst (assign v f p)) = outside_status p" if "vm_field k = Some f" for k f v
    by (rule assign_view) (rule vm_field_outside [OF that])
  then show ?thesis
    by (auto simp: parse_status_line_def split_beta Let_def run_simps push_ids_view ids
        split: option.splits list.splits)
qed

lemma readStatus_outside: "outside_status (fst (readStatus B w p)) = outside_status p"
  unfolding readStatus_def by (rule for_each_frame, rule parse_status_line_outside)

lemma readStatus_flag: "m_need_update_status (fst (readStatus B w p)) = m_need_update_status p"
  using readStatus_outside [of B w p] by (simp add: outside_status_def)

interpretation status: lazy_reader m_need_update_status "\<lambda>p. p\<lparr>m_need_update_status := False\<rparr>"
  "\<lambda>w. readStatus (fst w) (snd w)"
  by unfold_locales (simp_all add: readStatus_flag)

section \<open>Lines of the file\<close>

lemma space_no_xdigit: "is_space c \<Longrightarrow> \<not> is_digit c"
  using digit_not_space by blast

lemma unambiguous_status: "unambiguous regex_uids" "unambiguous regex_vm"
  by (auto simp: regex_uids_def regex_vm_def dest: space_no_xdigit)

lemma nat_str_field: "dec_field (nat_str n)"
  by (simp add: dec_field_def)

lemma fits_uids:
  assumes "padding s1" "padding s2" "padding s3" "padding s4"
    and "dec_field d1" "dec_field d2" "dec_field d3" "dec_field d4"
  shows "fits regex_uids (s1 @ d1 @ s2 @ d2 @ s3 @ d3 @ s4 @ d4 @ [] @ []) [d1, d2, d3, d4]"
  unfolding regex_uids_def using assms
  by (intro fits.intros) (simp_all add: padding_def dec_field_def)

lemma fits_vm:
  assumes "padding sp" and "dec_field ds" and "list_all is_space r"
  shows "fits regex_vm (sp @ ds @ '' '' @ ''kB'' @ r @ []) [ds]"
  unfolding regex_vm_def using assms
  by (intro fits.intros) (simp_all add: padding_def dec_field_def)

definition id_line :: "string \<Rightarrow> nat \<Rightarrow> nat \<Rightarrow> nat \<Rightarrow> nat \<Rightarrow> string" where
  "id_line key r e s f = key @ CHR '':''
     # concat (map (\<lambda>n. CHR 0x09 # nat_str n) [r, e, s, f])"

lemma id_line_match:
  assumes "boost_library B"
  shows "regex_match B regex_uids (concat (map (\<lambda>n. CHR 0x09 # nat_str n) [r, e, s, f]))
    = Some [nat_str r, nat_str e, nat_str s, nat_str f]"
proof -
  have rx: "regex_engine (regex_match B)"
    using assms by (simp add: boost_library_def)
  have tab: "padding [CHR 0x09]" by (simp add: padding_def)
  show ?thesis
    using regex_engine.match_unique [OF rx unambiguous_status(1)
        fits_uids [OF tab tab tab tab nat_str_field nat_str_field nat_str_field nat_str_field]]
    by simp
qed

lemma key_no_newline: "CHR 0x0A \<notin> set (concat (map (\<lambda>n. CHR 0x09 # nat_str n) ns))"
proof -
  have "CHR 0x0A \<notin> set (nat_str n)" for n
    using nat_str_digits [of n] by (auto simp: list_all_iff)
  then show ?thesis by simp
qed

lemma id_line_key:
  "CHR '':'' \<notin> set key \<Longrightarrow> key_value CHR '':'' (id_line key r e s f)
   = (key, concat (map (\<lambda>n. CHR 0x09 # nat_str n) [r, e, s, f]))"
  unfolding id_line_def by (rule key_value_line) (simp, rule key_no_newline)

lemma stoi_nat_str:
  "stoi 10 (nat_str n) = (if n \<le> 2147483647 then Inr (of_nat n) else Inl Out_of_range)"
  using sto_digits [of "nat_str n", where ?'a = 32]
  by (auto simp: stoi_def)

lemma uid_line_run:
  assumes "boost_library B" and "{r, e, s, f} \<subseteq> {..2147483647}"
  shows "parse_status_line B (id_line ''Uid'' r e s f) p =
    (p\<lparr>m_uids := m_uids p @ [of_nat r, of_nat e, of_nat s, of_nat f]\<rparr>, Inr ())"
  using assms(2)
  by (simp add: parse_status_line_def id_line_key push_ids_def id_line_match [OF assms(1), simplified]
      stoi_nat_str run_simps)

lemma other_line_uids:
  assumes "fst (key_value CHR '':'' line) \<noteq> ''Uid''"
  shows "m_uids (fst (parse_status_line B line p)) = m_uids p"
proof -
  have "m_uids (fst (assign v f p)) = m_uids p" if "vm_field k = Some f" for k f v
    by (rule assign_view) (simp add: vm_field_ids [OF that])
  then show ?thesis
    using assms
    by (auto simp: parse_status_line_def split_beta Let_def run_simps push_ids_view
        split: option.splits list.splits)
qed

lemma other_lines_uids:
  assumes "\<forall>l \<in> set ls. fst (key_value CHR '':'' l) \<noteq> ''Uid''"
  shows "m_uids (fst (for_each (parse_status_line B) ls p)) = m_uids p"
  using assms by (intro for_each_invariant [where I = "\<lambda>t. m_uids t = m_uids p"])
    (auto simp: other_line_uids)

lemma readStatus_lines:
  assumes "files w (m_proc_path p @ ''status'') = Some (unlines CHR 0x0A ls)"
    and "\<forall>l \<in> set ls. CHR 0x0A \<notin> set l"
  shows "readStatus B w p = for_each (parse_status_line B) ls p"
  by (simp add: readStatus_def ifstream_def assms lines_of_unlines)

lemma id_line_no_newline:
  "CHR 0x0A \<notin> set key \<Longrightarrow> CHR 0x0A \<notin> set (id_line key r e s f)"
  using key_no_newline [of "[r, e, s, f]"] by (simp add: id_line_def)

section \<open>Properties of the reader\<close>

text \<open>
  C20. The Uid line of the file, wherever it stands among the other lines, appends its four
  ids in order to the vector; what the vector held before stays in front.
\<close>

theorem readStatus_uids:
  assumes "boost_library B"
    and "files w (m_proc_path p @ ''status'')
      = Some (unlines CHR 0x0A (before @ id_line ''Uid'' r e s f # after))"
    and "\<forall>l \<in> set before \<union> set after.
      CHR 0x0A \<notin> set l \<and> fst (key_value CHR '':'' l) \<noteq> ''Uid''"
    and "{r, e, s, f} \<subseteq> {..2147483647}"
    and "readStatus B w p = (t, Inr ())"
  shows "m_uids t = m_uids p @ [of_nat r, of_nat e, of_nat s, of_nat f]"
proof -
  let ?do = "for_each (parse_status_line B)"
  have "readStatus B w p = ?do (before @ id_line ''Uid'' r e s f # after) p"
    using assms(3) id_line_no_newline [of "''Uid''" r e s f]
    by (intro readStatus_lines [OF assms(2)]) auto
  then have run: "?do (before @ id_line ''Uid'' r e s f # after) p = (t, Inr ())"
    using assms(5) by simp
  obtain p1 where p1: "?do before p = (p1, Inr ())"
    using run by (auto simp: for_each_append split: prod.splits sum.splits)
  have "m_uids p1 = m_uids p"
    using other_lines_uids [of before B p] assms(3) p1 by simp
  moreover have "?do after (p1\<lparr>m_uids := m_uids p1 @ [of_nat r, of_nat e, of_nat s, of_nat f]\<rparr>)
      = (t, Inr ())"
    using run p1 uid_line_run [OF assms(1,4), of p1] by (simp add: for_each_append)
  then have "m_uids t = m_uids p1 @ [of_nat r, of_nat e, of_nat s, of_nat f]"
    using other_lines_uids [of after B
        "p1\<lparr>m_uids := m_uids p1 @ [of_nat r, of_nat e, of_nat s, of_nat f]\<rparr>"] assms(3)
    by simp
  ultimately show ?thesis by simp
qed

theorem readStatus_uids_witness:
  "\<forall>raw. \<exists>t. readStatus reference_boost (stat_world ''/proc/7/status''
        (unlines CHR 0x0A [''Name:'' @ ''sshd'', id_line ''Uid'' 0 1000 1000 1000])) (ProcessInfo raw 7)
       = (t, Inr ()) \<and> m_uids t = [0, 1000, 1000, 1000]"
proof
  fix raw
  let ?w = "stat_world ''/proc/7/status''
     (unlines CHR 0x0A ([''Name:'' @ ''sshd''] @ id_line ''Uid'' 0 1000 1000 1000 # []))"
  let ?p = "ProcessInfo raw 7"
  have f: "files ?w (m_proc_path ?p @ ''status'')
      = Some (unlines CHR 0x0A ([''Name:'' @ ''sshd''] @ id_line ''Uid'' 0 1000 1000 1000 # []))"
    by (simp add: constructed_path stat_world_def empty_world_def)
  have other: "\<forall>l \<in> set [''Name:'' @ ''sshd''] \<union> set [].
      CHR 0x0A \<notin> set l \<and> fst (key_value CHR '':'' l) \<noteq> ''Uid''"
    using key_value_line [of "CHR '':''" "''Name''" "''sshd''"] by simp
  have "\<forall>l \<in> set ([''Name:'' @ ''sshd''] @ id_line ''Uid'' 0 1000 1000 1000 # []). CHR 0x0A \<notin> set l"
    using other id_line_no_newline [of "''Uid''" 0 1000 1000 1000] by simp
  note run = readStatus_lines [OF f this]
  have "parse_status_line reference_boost (''Name:'' @ ''sshd'') ?p = (?p, Inr ())"
    using key_value_line [of "CHR '':''" "''Name''" "''sshd''"]
    by (simp add: parse_status_line_def vm_field_def vm_table_def run_simps)
  then obtain t where t: "readStatus reference_boost ?w ?p = (t, Inr ())"
    using run uid_line_run [OF reference.boost_library_axioms, of 0 1000 1000 1000 ?p] by simp
  have "m_uids t = m_uids ?p @ [of_nat 0, of_nat 1000, of_nat 1000, of_nat 1000]"
    by (rule readStatus_uids [OF reference.boost_library_axioms f other _ t]) simp
  moreover have "m_uids ?p = []"
    by (simp add: ProcessInfo_def needUpdate_def fresh_process_def Let_def)
  ultimately show "\<exists>t. readStatus reference_boost (stat_world ''/proc/7/status''
        (unlines CHR 0x0A [''Name:'' @ ''sshd'', id_line ''Uid'' 0 1000 1000 1000])) ?p
       = (t, Inr ()) \<and> m_uids t = [0, 1000, 1000, 1000]"
    using t by auto
qed

text \<open>Ids are only ever appended.\<close>

lemma push_ids_appends:
  "\<exists>vs. m_uids (fst (push_ids B value (\<lambda>n p. p\<lparr>m_uids := m_uids p @ [n]\<rparr>) p)) = m_uids p @ vs"
proof -
  have "\<exists>vs. m_uids (fst (for_each (\<lambda>m. assign (stoi 10 m) (\<lambda>n p. p\<lparr>m_uids := m_uids p @ [n]\<rparr>))
      match p)) = m_uids p @ vs" for match
    by (rule for_each_invariant [where I = "\<lambda>t. \<exists>vs. m_uids t = m_uids p @ vs"])
       (auto simp: assign_def split: sum.splits)
  then show ?thesis
    by (auto simp: push_ids_def run_simps split: option.splits)
qed

lemma readStatus_uids_append: "\<exists>vs. m_uids (fst (readStatus B w p)) = m_uids p @ vs"
  unfolding readStatus_def
proof (rule for_each_invariant [where I = "\<lambda>t. \<exists>vs. m_uids t = m_uids p @ vs"])
  fix line :: string and t :: process_info
  assume t: "\<exists>vs. m_uids t = m_uids p @ vs"
  show "\<exists>vs. m_uids (fst (parse_status_line B line t)) = m_uids p @ vs"
  proof (cases "fst (key_value CHR '':'' line) = ''Uid''")
    case True
    then have "parse_status_line B line t = push_ids B (snd (key_value CHR '':'' line))
        (\<lambda>n p. p\<lparr>m_uids := m_uids p @ [n]\<rparr>) t"
      by (simp add: parse_status_line_def split_beta Let_def)
    then show ?thesis
      using push_ids_appends [of B "snd (key_value CHR '':'' line)" t] t by auto
  next
    case False
    with t show ?thesis by (simp add: other_line_uids)
  qed
qed simp

text \<open>
  C27. The first user id is never replaced: once the vector is not empty, \<open>userName\<close> keeps
  reporting the user of the first read, even after \<open>needUpdate\<close> and a new read of a file
  with other ids.
\<close>

theorem userName_stale:
  assumes "m_uids p = uid # later"
    and "userName B w (needUpdate p) = (t, Inr name)"
  shows "name = (case users w uid of None \<Rightarrow> to_string uid | Some n \<Rightarrow> n)
    \<and> m_uids t \<noteq> [] \<and> hd (m_uids t) = uid"
proof -
  let ?p = "needUpdate p"
  have uids: "m_uids ?p = uid # later" and flag: "m_need_update_status ?p"
    using assms(1) by (simp_all add: needUpdate_def)
  obtain q where q: "readStatus B w ?p = (q, Inr ())"
    and t: "t = q\<lparr>m_need_update_status := False\<rparr>" and name: "user_of w t = Inr name"
    using assms(2) flag
    by (auto simp: userName_def refresh_def and_then_def modify_def
        split: prod.splits sum.splits if_splits)
  obtain vs where "m_uids q = uid # later @ vs"
    using readStatus_uids_append [of B w ?p] q uids by auto
  then have "m_uids t = uid # later @ vs" using t by simp
  with name show ?thesis
    by (auto simp: user_of_def split: option.splits)
qed

theorem userName_stale_witness:
  "\<forall>raw. snd (userName reference_boost (stat_world ''/proc/7/status''
      (unlines CHR 0x0A [id_line ''Uid'' 1000 1000 1000 1000]))
      (needUpdate ((ProcessInfo raw 7)\<lparr>m_uids := [0]\<rparr>))) = Inr ''0''"
proof
  fix raw
  let ?w = "stat_world ''/proc/7/status'' (unlines CHR 0x0A [id_line ''Uid'' 1000 1000 1000 1000])"
  let ?p = "(ProcessInfo raw 7)\<lparr>m_uids := [0]\<rparr>"
  have path: "m_proc_path (needUpdate ?p) = ''/proc/7/''"
    using constructed_path [of raw] by (simp add: needUpdate_def)
  have f: "files ?w (m_proc_path (needUpdate ?p) @ ''status'')
      = Some (unlines CHR 0x0A [id_line ''Uid'' 1000 1000 1000 1000])"
    by (simp add: path stat_world_def empty_world_def)
  obtain q where q: "readStatus reference_boost ?w (needUpdate ?p) = (q, Inr ())"
      "m_uids q = [0, 1000, 1000, 1000, 1000]"
    using readStatus_lines [OF f] id_line_no_newline [of "''Uid''" 1000 1000 1000 1000]
      uid_line_run [OF reference.boost_library_axioms, of 1000 1000 1000 1000 "needUpdate ?p"]
    by (auto simp: needUpdate_def)
  have "user_of ?w (q\<lparr>m_need_update_status := False\<rparr>) = Inr ''0''"
    by (simp add: user_of_def q(2) stat_world_def empty_world_def to_string_def int_str_def
        nat_str_digit digit_char_literals)
  with userName_reads [OF needUpdate_flags(2) q(1)]
  obtain t where t: "userName reference_boost ?w (needUpdate ?p) = (t, Inr ''0'')" by simp
  have "''0'' = (case users ?w 0 of None \<Rightarrow> to_string 0 | Some n \<Rightarrow> n)
    \<and> m_uids t \<noteq> [] \<and> hd (m_uids t) = 0"
    by (rule userName_stale [OF _ t]) simp
  with t show "snd (userName reference_boost ?w (needUpdate ?p)) = Inr ''0''" by simp
qed

text \<open>
  C30. A user id above \<open>INT_MAX\<close> makes the reader throw: the object keeps what the lines
  before had stored, the flag stays set, and the getter throws with it.
\<close>

theorem readStatus_large_uid_throws:
  assumes "boost_library B" and "2147483647 < r" and "m_need_update_status p"
    and "files w (m_proc_path p @ ''status'')
      = Some (unlines CHR 0x0A (before @ id_line ''Uid'' r e s f # after))"
    and "\<forall>l \<in> set before \<union> set after. CHR 0x0A \<notin> set l"
    and "for_each (parse_status_line B) before p = (q, Inr ())"
  shows "readStatus B w p = (q, Inl Out_of_range) \<and> uids B w p = (q, Inl Out_of_range)
    \<and> m_need_update_status q"
proof -
  let ?ls = "before @ id_line ''Uid'' r e s f # after"
  have "\<forall>l \<in> set ?ls. CHR 0x0A \<notin> set l"
    using assms(5) id_line_no_newline [of "''Uid''" r e s f] by auto
  then have "readStatus B w p = for_each (parse_status_line B) ?ls p"
    by (rule readStatus_lines [OF assms(4)])
  moreover have "parse_status_line B (id_line ''Uid'' r e s f) q = (q, Inl Out_of_range)"
    using assms(2)
    by (simp add: parse_status_line_def id_line_key push_ids_def stoi_nat_str run_simps
        id_line_match [OF assms(1), simplified])
  ultimately have throws: "readStatus B w p = (q, Inl Out_of_range)"
    by (simp add: for_each_append assms(6))
  then show ?thesis
    using assms(3) readStatus_flag [of B w p]
    by (simp add: uids_def status_getter_def getter_cases)
qed

theorem readStatus_large_uid_throws_witness:
  "\<forall>raw. snd (uids reference_boost (stat_world ''/proc/7/status''
      (unlines CHR 0x0A [id_line ''Uid'' 4294967294 0 0 0])) (ProcessInfo raw 7)) = Inl Out_of_range"
proof
  fix raw
  let ?w = "stat_world ''/proc/7/status'' (unlines CHR 0x0A ([] @ id_line ''Uid'' 4294967294 0 0 0 # []))"
  have "files ?w (m_proc_path (ProcessInfo raw 7) @ ''status'')
      = Some (unlines CHR 0x0A ([] @ id_line ''Uid'' 4294967294 0 0 0 # []))"
    by (simp add: constructed_path stat_world_def empty_world_def)
  from readStatus_large_uid_throws [OF reference.boost_library_axioms _ _ this]
  show "snd (uids reference_boost (stat_world ''/proc/7/status''
      (unlines CHR 0x0A [id_line ''Uid'' 4294967294 0 0 0])) (ProcessInfo raw 7)) = Inl Out_of_range"
    by (simp add: ProcessInfo_def needUpdate_def Let_def)
qed

text \<open>
  C28. A group id above \<open>INT_MAX\<close> right after a user line that fits, the lines before them storing
  nothing: every call of the getter throws, and every one of them leaves four more user ids
  behind, because the vector is not cleared and what was pushed before the exception stays.
\<close>

theorem failed_reads_pile_up:
  assumes "boost_library B" and "m_need_update_status p"
    and "files w (m_proc_path p @ ''status'') = Some (unlines CHR 0x0A
      (before @ id_line ''Uid'' r e s f # id_line ''Gid'' g1 g2 g3 g4 # after))"
    and "\<forall>l \<in> set before \<union> set after. CHR 0x0A \<notin> set l"
    and "\<forall>q. for_each (parse_status_line B) before q = (q, Inr ())"
    and "{r, e, s, f} \<subseteq> {..2147483647}" and "2147483647 < g1"
  shows "((\<lambda>q. fst (uids B w q)) ^^ k) p
      = p\<lparr>m_uids := m_uids p @ concat (replicate k [of_nat r, of_nat e, of_nat s, of_nat f])\<rparr>
    \<and> snd (uids B w (((\<lambda>q. fst (uids B w q)) ^^ k) p)) = Inl Out_of_range"
proof -
  let ?ids = "[of_nat r, of_nat e, of_nat s, of_nat f]"
  let ?ls = "before @ id_line ''Uid'' r e s f # id_line ''Gid'' g1 g2 g3 g4 # after"
  have lines: "\<forall>l \<in> set ?ls. CHR 0x0A \<notin> set l"
    using assms(4) id_line_no_newline [of "''Uid''" r e s f] id_line_no_newline [of "''Gid''" g1 g2 g3 g4]
    by auto
  have gid: "parse_status_line B (id_line ''Gid'' g1 g2 g3 g4) q = (q, Inl Out_of_range)" for q
    using assms(7)
    by (simp add: parse_status_line_def id_line_key push_ids_def stoi_nat_str run_simps
        id_line_match [OF assms(1), simplified])
  have one: "uids B w (p\<lparr>m_uids := u\<rparr>) = (p\<lparr>m_uids := u @ ?ids\<rparr>, Inl Out_of_range)" for u
  proof -
    have "readStatus B w (p\<lparr>m_uids := u\<rparr>) = for_each (parse_status_line B) ?ls (p\<lparr>m_uids := u\<rparr>)"
      using readStatus_lines [OF _ lines, of w "p\<lparr>m_uids := u\<rparr>" B] assms(3) by simp
    also have "\<dots> = (p\<lparr>m_uids := u @ ?ids\<rparr>, Inl Out_of_range)"
      using uid_line_run [OF assms(1,6), of "p\<lparr>m_uids := u\<rparr>"] gid
      by (simp add: for_each_append assms(5))
    finally show ?thesis
      using assms(2) by (simp add: uids_def status_getter_def getter_cases)
  qed
  have "((\<lambda>q. fst (uids B w q)) ^^ k) p = p\<lparr>m_uids := m_uids p @ concat (replicate k ?ids)\<rparr>" for k
  proof (induction k)
    case 0
    then show ?case by simp
  next
    case (Suc k)
    have "concat (replicate (Suc k) xs) = concat (replicate k xs @ [xs])" for xs :: "c_int list"
      by (simp add: replicate_append_same)
    from this [of ?ids] Suc one show ?case by simp
  qed
  then show ?thesis using one by simp
qed

theorem failed_reads_pile_up_witness:
  "\<forall>raw. length (m_uids (((\<lambda>q. fst (uids reference_boost (stat_world ''/proc/7/status'' (unlines CHR 0x0A
      ([] @ id_line ''Uid'' 0 0 0 0 # id_line ''Gid'' 4294967294 0 0 0 # []))) q)) ^^ 3) (ProcessInfo raw 7))) = 12"
proof
  fix raw
  let ?w = "stat_world ''/proc/7/status'' (unlines CHR 0x0A
      ([] @ id_line ''Uid'' 0 0 0 0 # id_line ''Gid'' 4294967294 0 0 0 # []))"
  have f: "files ?w (m_proc_path (ProcessInfo raw 7) @ ''status'') = Some (unlines CHR 0x0A
      ([] @ id_line ''Uid'' 0 0 0 0 # id_line ''Gid'' 4294967294 0 0 0 # []))"
    by (simp add: constructed_path stat_world_def empty_world_def)
  have p: "m_need_update_status (ProcessInfo raw 7)" "m_uids (ProcessInfo raw 7) = []"
    by (simp_all add: ProcessInfo_def needUpdate_def fresh_process_def Let_def)
  have "((\<lambda>q. fst (uids reference_boost ?w q)) ^^ 3) (ProcessInfo raw 7) = (ProcessInfo raw 7)
      \<lparr>m_uids := m_uids (ProcessInfo raw 7) @ concat (replicate 3 [of_nat 0, of_nat 0, of_nat 0, of_nat 0])\<rparr>"
    by (rule conjunct1 [OF failed_reads_pile_up [OF reference.boost_library_axioms p(1) f]]) simp_all
  then show "length (m_uids (((\<lambda>q. fst (uids reference_boost ?w q)) ^^ 3) (ProcessInfo raw 7))) = 12"
    by (simp only: p(2)) (simp add: numeral_3_eq_3)
qed

section \<open>The memory figures by key\<close>

text \<open>
  The keys of the memory figures, the members that belong to them and the getters of these
  members, each in the order of the class declaration and stated apart from \<open>vm_table\<close>.
\<close>

definition vm_keys :: "string list" where
  "vm_keys = [''VmPeak'', ''VmLck'', ''VmPin'', ''VmHWM'', ''VmRSS'', ''VmData'', ''VmStk'',
     ''VmExe'', ''VmLib'', ''VmPTE'', ''VmPMD'', ''VmSwap'']"

definition vm_figures :: "process_info \<Rightarrow> c_ulong list" where
  "vm_figures p = [m_vm_peak p, m_vm_lck p, m_vm_pin p, m_vm_hwm p, m_vm_rss p, m_vm_data p,
     m_vm_stk p, m_vm_exe p, m_vm_lib p, m_vm_pte p, m_vm_pmd p, m_vm_swap p]"

definition vm_answers :: "boost \<Rightarrow> world \<Rightarrow> process_info \<Rightarrow> c_ulong outcome list" where
  "vm_answers B w p = [snd (vmPeak B w p), snd (vmLck B w p), snd (vmPin B w p), snd (vmHwm B w p),
     snd (vmRss B w p), snd (vmData B w p), snd (vmStk B w p), snd (vmExe B w p), snd (vmLib B w p),
     snd (vmPte B w p), snd (vmPmd B w p), snd (vmSwap B w p)]"

lemma less_twelve:
  "(i :: nat) < 12 \<longleftrightarrow> i = 0 \<or> i = 1 \<or> i = 2 \<or> i = 3 \<or> i = 4 \<or> i = 5 \<or> i = 6 \<or> i = 7 \<or> i = 8
     \<or> i = 9 \<or> i = 10 \<or> i = 11"
  by presburger

lemma scast_figure: "n \<le> 2147483647 \<Longrightarrow> (scast (of_nat n :: c_int) :: c_ulong) = of_nat n"
proof -
  assume "n \<le> 2147483647"
  then have "sint (of_nat n :: c_int) = int n"
    by (simp add: signed_of_nat signed_take_bit_int_eq_self)
  then have "of_int (sint (of_nat n :: c_int)) = (of_int (int n) :: c_ulong)"
    by (rule arg_cong)
  then show ?thesis
    by (simp only: of_int_sint of_int_of_nat_eq)
qed

lemma vm_field_key:
  assumes "i < length vm_keys"
  shows "\<exists>store. vm_field (vm_keys ! i) = Some store
    \<and> (\<forall>v p. vm_figures (store v p) = (vm_figures p)[i := scast v])"
proof -
  have "i < 12" using assms by (simp add: vm_keys_def)
  then show ?thesis
    unfolding less_twelve vm_keys_def vm_field_def vm_table_def vm_figures_def
    by (elim disjE) simp_all
qed

lemma vm_answers_settled:
  "\<not> m_need_update_status p \<Longrightarrow> vm_answers B w p = map Inr (vm_figures p)"
  by (simp add: vm_answers_def vm_figures_def vmPeak_def vmLck_def vmPin_def vmHwm_def vmRss_def
      vmData_def vmStk_def vmExe_def vmLib_def vmPte_def vmPmd_def vmSwap_def status_getter_def
      getter_cases)

lemma parse_vm_line:
  assumes "boost_library B" and "vm_field k = Some store" and "padding sp" and "CHR 0x0A \<notin> set sp"
  shows "parse_status_line B (k @ CHR '':'' # sp @ nat_str n @ '' kB'') p =
    (if n \<le> 2147483647 then (store (of_nat n) p, Inr ()) else (p, Inl Out_of_range))"
proof -
  have rx: "regex_engine (regex_match B)"
    using assms(1) by (simp add: boost_library_def)
  have k: "CHR '':'' \<notin> set k" "k \<noteq> ''Uid''" "k \<noteq> ''Gid''"
    using vm_field_table [OF assms(2)] by (auto simp: vm_table_def)
  have "regex_match B regex_vm (sp @ nat_str n @ '' kB'') = Some [nat_str n]"
    using regex_engine.match_unique [OF rx unambiguous_status(2) fits_vm [OF assms(3) nat_str_field,
        of "[]"]] by simp
  moreover have "CHR 0x0A \<notin> set (sp @ nat_str n @ '' kB'')"
    using assms(4) nat_str_digits [of n] by (auto simp: list_all_iff)
  then have "key_value CHR '':'' (k @ CHR '':'' # sp @ nat_str n @ '' kB'')
      = (k, sp @ nat_str n @ '' kB'')"
    by (rule key_value_line [OF k(1)])
  ultimately show ?thesis
    using k(2,3) assms(2) by (simp add: parse_status_line_def stoi_nat_str run_simps)
qed

text \<open>
  C31. The memory line of each of the twelve keys: a figure of at most \<open>INT_MAX\<close> kB is stored in
  the member of that key, the other eleven figures, the ids and everything outside the group stay,
  and the twelve getters then report the members in their order; a larger figure throws and
  stores nothing.
\<close>

theorem vm_line_stored:
  assumes "boost_library B" and "i < length vm_keys" and "padding sp" and "CHR 0x0A \<notin> set sp"
    and "parse_status_line B (vm_keys ! i @ CHR '':'' # sp @ nat_str n @ '' kB'') p = (q, r)"
  shows "if n \<le> 2147483647
    then r = Inr () \<and> vm_figures q = (vm_figures p)[i := of_nat n]
      \<and> m_uids q = m_uids p \<and> m_gids q = m_gids p \<and> outside_status q = outside_status p
      \<and> (\<not> m_need_update_status p \<longrightarrow> vm_answers B w q = map Inr ((vm_figures p)[i := of_nat n]))
    else r = Inl Out_of_range \<and> q = p"
proof -
  from vm_field_key [OF assms(2)] obtain store where store: "vm_field (vm_keys ! i) = Some store"
    "vm_figures (store v p) = (vm_figures p)[i := scast v]" for v p by blast
  show ?thesis
  proof (cases "n \<le> 2147483647")
    case True
    with parse_vm_line [OF assms(1) store(1) assms(3,4)] assms(5)
    have q: "q = store (of_nat n) p" "r = Inr ()" by simp_all
    have frame: "outside_status q = outside_status p"
      unfolding q(1) by (rule vm_field_outside [OF store(1)])
    then have "m_need_update_status q = m_need_update_status p"
      by (simp add: outside_status_def)
    with True frame show ?thesis
      using vm_field_ids [OF store(1)] vm_answers_settled [of q B w]
      by (simp add: q store(2) scast_figure)
  next
    case False
    with parse_vm_line [OF assms(1) store(1) assms(3,4)] assms(5) show ?thesis by simp
  qed
qed

theorem vm_line_stored_witness:
  "\<forall>p. \<exists>q. parse_status_line reference_boost
      (vm_keys ! 4 @ CHR '':'' # ''    '' @ nat_str 1234 @ '' kB'') p = (q, Inr ())
    \<and> m_vm_rss q = 1234 \<and> m_vm_peak q = m_vm_peak p"
proof
  fix p
  obtain q r where run: "parse_status_line reference_boost
      (vm_keys ! 4 @ CHR '':'' # ''    '' @ nat_str 1234 @ '' kB'') p = (q, r)"
    by fastforce
  have "4 < length vm_keys" "padding ''    ''" "CHR 0x0A \<notin> set ''    ''"
    by (simp_all add: vm_keys_def padding_def)
  from vm_line_stored [OF reference.boost_library_axioms this run]
  have "r = Inr ()" "vm_figures q = (vm_figures p)[4 := 1234]" by simp_all
  with run show "\<exists>q. parse_status_line reference_boost
      (vm_keys ! 4 @ CHR '':'' # ''    '' @ nat_str 1234 @ '' kB'') p = (q, Inr ())
    \<and> m_vm_rss q = 1234 \<and> m_vm_peak q = m_vm_peak p"
    by (auto simp: vm_figures_def)
qed

end
