(* ===== verification/Process_Files.thy ===== *)
theory Process_Files
  imports Process_Status
begin

text \<open>
  The groups that read one small source each: the links \<open>cwd\<close>, \<open>exe\<close> and \<open>root\<close>, the
  command line, the environment, the wait channel and the open files.
\<close>

section \<open>Readers\<close>

definition readCwd :: "world \<Rightarrow> process_info \<Rightarrow> process_info" where
  "readCwd w p = p\<lparr>m_cwd := read_symlink w (m_proc_path p @ ''cwd'')\<rparr>"

definition readExe :: "world \<Rightarrow> process_info \<Rightarrow> process_info" where
  "readExe w p = p\<lparr>m_exe := read_symlink w (m_proc_path p @ ''exe'')\<rparr>"

definition readRoot :: "world \<Rightarrow> process_info \<Rightarrow> process_info" where
  "readRoot w p = p\<lparr>m_root := read_symlink w (m_proc_path p @ ''root'')\<rparr>"

definition readCmdline :: "world \<Rightarrow> process_info \<Rightarrow> process_info" where
  "readCmdline w p =
     fold (\<lambda>cur_arg q. q\<lparr>m_cmdline := m_cmdline q @ [cur_arg]\<rparr>)
       (chunks_of CHR 0x00 (ifstream w (m_proc_path p @ ''cmdline'')))
       (p\<lparr>m_cmdline := []\<rparr>)"

definition readEnviron :: "world \<Rightarrow> process_info \<Rightarrow> process_info" where
  "readEnviron w p =
     fold (\<lambda>cur_env q. let (key, val) = key_value CHR ''='' cur_env
                       in q\<lparr>m_environ := (m_environ q)(key \<mapsto> val)\<rparr>)
       (chunks_of CHR 0x00 (ifstream w (m_proc_path p @ ''environ''))) p"

definition readWchan :: "world \<Rightarrow> process_info \<Rightarrow> process_info" where
  "readWchan w p =
     p\<lparr>m_wchan_name :=
         snd (getline CHR 0x0A (ifstream w (m_proc_path p @ ''wchan'')) (m_wchan_name p))\<rparr>"

text \<open>
  The \<open>try\<close> block catches the exception of the directory iterator only; what \<open>std::stoi\<close>
  throws leaves the function.
\<close>

definition readFd :: "world \<Rightarrow> (process_info, unit) action" where
  "readFd w p =
     (case directories w (m_proc_path p @ ''fd'') of
        None \<Rightarrow> (p, Inr ())
      | Some entries \<Rightarrow>
          for_each
            (\<lambda>e q. assign (stoi 10 (filename e))
               (\<lambda>n q. q\<lparr>m_fds := (m_fds q)(n \<mapsto>
                  read_symlink w (m_proc_path p @ ''fd/'' @ filename e))\<rparr>) q)
            entries p)"

section \<open>Getters\<close>

definition cmdline :: "world \<Rightarrow> (process_info, string list) action" where
  "cmdline w = getter m_need_update_cmdline (\<lambda>p. p\<lparr>m_need_update_cmdline := False\<rparr>)
     (modify (readCmdline w)) m_cmdline"

definition cwd :: "world \<Rightarrow> (process_info, string) action" where
  "cwd w = getter m_need_update_cwd (\<lambda>p. p\<lparr>m_need_update_cwd := False\<rparr>)
     (modify (readCwd w)) m_cwd"

definition exe :: "world \<Rightarrow> (process_info, string) action" where
  "exe w = getter m_need_update_exe (\<lambda>p. p\<lparr>m_need_update_exe := False\<rparr>)
     (modify (readExe w)) m_exe"

definition process_root :: "world \<Rightarrow> (process_info, string) action" where
  "process_root w = getter m_need_update_root (\<lambda>p. p\<lparr>m_need_update_root := False\<rparr>)
     (modify (readRoot w)) m_root"

definition environ :: "world \<Rightarrow> (process_info, string \<rightharpoonup> string) action" where
  "environ w = getter m_need_update_environ (\<lambda>p. p\<lparr>m_need_update_environ := False\<rparr>)
     (modify (readEnviron w)) m_environ"

definition fds :: "world \<Rightarrow> (process_info, c_int \<rightharpoonup> string) action" where
  "fds w = getter m_need_update_fd (\<lambda>p. p\<lparr>m_need_update_fd := False\<rparr>) (readFd w) m_fds"

definition wchanName :: "world \<Rightarrow> (process_info, string) action" where
  "wchanName w = getter m_need_update_wchan (\<lambda>p. p\<lparr>m_need_update_wchan := False\<rparr>)
     (modify (readWchan w)) m_wchan_name"

section \<open>Closed forms\<close>

lemma fold_push: "fold (\<lambda>a q. q\<lparr>m_cmdline := m_cmdline q @ [a]\<rparr>) as p
    = p\<lparr>m_cmdline := m_cmdline p @ as\<rparr>"
  by (induction as arbitrary: p) simp_all

lemma readCmdline_eq:
  "readCmdline w p = p\<lparr>m_cmdline := chunks_of CHR 0x00 (ifstream w (m_proc_path p @ ''cmdline''))\<rparr>"
  by (simp add: readCmdline_def fold_push)

lemma fold_environ:
  "fold (\<lambda>c q. let (key, val) = key_value CHR ''='' c
               in q\<lparr>m_environ := (m_environ q)(key \<mapsto> val)\<rparr>) cs p
   = p\<lparr>m_environ := m_environ p ++ map_of (rev (map (key_value CHR ''='') cs))\<rparr>"
  by (induction cs arbitrary: p) (simp_all add: split_beta Let_def)

lemma readEnviron_eq:
  "readEnviron w p = p\<lparr>m_environ := m_environ p ++
     map_of (rev (map (key_value CHR ''='')
       (chunks_of CHR 0x00 (ifstream w (m_proc_path p @ ''environ'')))))\<rparr>"
  unfolding readEnviron_def by (rule fold_environ)

lemma readFd_frame:
  assumes "\<And>q x. view (q\<lparr>m_fds := x\<rparr>) = view q"
  shows "view (fst (readFd w p)) = view p"
proof -
  have "view (fst (for_each (\<lambda>e q. assign (stoi 10 (filename e))
      (\<lambda>n q. q\<lparr>m_fds := (m_fds q)(n \<mapsto> f e)\<rparr>) q) es p)) = view p" for es and f :: "dir_entry \<Rightarrow> string"
    by (rule for_each_frame, rule assign_view, rule assms)
  then show ?thesis
    by (simp add: readFd_def split: option.splits)
qed

interpretation cwd_group: lazy_reader m_need_update_cwd "\<lambda>p. p\<lparr>m_need_update_cwd := False\<rparr>"
  "\<lambda>w. modify (readCwd w)"
  by unfold_locales (simp_all add: modify_def readCwd_def)

interpretation exe_group: lazy_reader m_need_update_exe "\<lambda>p. p\<lparr>m_need_update_exe := False\<rparr>"
  "\<lambda>w. modify (readExe w)"
  by unfold_locales (simp_all add: modify_def readExe_def)

interpretation root_group: lazy_reader m_need_update_root "\<lambda>p. p\<lparr>m_need_update_root := False\<rparr>"
  "\<lambda>w. modify (readRoot w)"
  by unfold_locales (simp_all add: modify_def readRoot_def)

interpretation cmdline_group: lazy_reader m_need_update_cmdline
  "\<lambda>p. p\<lparr>m_need_update_cmdline := False\<rparr>" "\<lambda>w. modify (readCmdline w)"
  by unfold_locales (simp_all add: modify_def readCmdline_eq)

interpretation environ_group: lazy_reader m_need_update_environ
  "\<lambda>p. p\<lparr>m_need_update_environ := False\<rparr>" "\<lambda>w. modify (readEnviron w)"
  by unfold_locales (simp_all add: modify_def readEnviron_eq)

interpretation wchan_group: lazy_reader m_need_update_wchan "\<lambda>p. p\<lparr>m_need_update_wchan := False\<rparr>"
  "\<lambda>w. modify (readWchan w)"
  by unfold_locales (simp_all add: modify_def readWchan_def)

interpretation fd_group: lazy_reader m_need_update_fd "\<lambda>p. p\<lparr>m_need_update_fd := False\<rparr>" readFd
  by unfold_locales (simp_all add: readFd_frame)

section \<open>Properties\<close>

text \<open>
  C17. The command line of the kernel (every argument followed by a null character, empty
  arguments included) is read back as exactly the argument vector, replacing the old one.
\<close>

theorem cmdline_roundtrip:
  assumes "m_need_update_cmdline p"
    and "files w (m_proc_path p @ ''cmdline'') = Some (unlines CHR 0x00 args)"
    and "\<forall>a \<in> set args. CHR 0x00 \<notin> set a"
  shows "cmdline w p
    = (p\<lparr>m_cmdline := args, m_need_update_cmdline := False\<rparr>, Inr args)"
proof -
  have "readCmdline w p = p\<lparr>m_cmdline := args\<rparr>"
    by (simp add: readCmdline_eq ifstream_def assms(2) chunks_of_unlines [OF assms(3)])
  then show ?thesis
    by (simp add: cmdline_def cmdline_group.getter_reads [OF assms(1) modify_run])
qed

theorem cmdline_roundtrip_witness:
  "\<forall>raw. snd (cmdline (stat_world ''/proc/7/cmdline'' (unlines CHR 0x00 [''ls'', [], ''-l'']))
      (ProcessInfo raw 7)) = Inr [''ls'', [], ''-l'']"
proof
  fix raw
  have "files (stat_world ''/proc/7/cmdline'' (unlines CHR 0x00 [''ls'', [], ''-l'']))
      (m_proc_path (ProcessInfo raw 7) @ ''cmdline'') = Some (unlines CHR 0x00 [''ls'', [], ''-l''])"
    by (simp add: constructed_path stat_world_def empty_world_def)
  from cmdline_roundtrip [OF _ this]
  show "snd (cmdline (stat_world ''/proc/7/cmdline'' (unlines CHR 0x00 [''ls'', [], ''-l'']))
      (ProcessInfo raw 7)) = Inr [''ls'', [], ''-l'']"
    by (simp add: ProcessInfo_def Let_def)
qed

text \<open>
  C33. Reading the environment: each entry \<open>KEY=VALUE\<close> is stored under its key, the last entry
  of a key wins, a value is cut at its first newline, and variables of an earlier read stay.
\<close>

theorem readEnviron_entries:
  assumes "files w (m_proc_path p @ ''environ'')
      = Some (unlines CHR 0x00 (map (\<lambda>(k, v). k @ CHR ''='' # v) kvs))"
    and "\<forall>(k, v) \<in> set kvs. CHR 0x00 \<notin> set k \<and> CHR 0x00 \<notin> set v \<and> CHR ''='' \<notin> set k"
  shows "m_environ (readEnviron w p) =
    m_environ p ++ map_of (rev (map (\<lambda>(k, v). (k, takeWhile (\<lambda>c. c \<noteq> CHR 0x0A) v)) kvs))"
proof -
  have chunks: "chunks_of CHR 0x00 (ifstream w (m_proc_path p @ ''environ''))
      = map (\<lambda>(k, v). k @ CHR ''='' # v) kvs"
    unfolding ifstream_def assms(1) using assms(2) by (intro chunks_of_unlines) auto
  have kv: "map (key_value CHR ''='') (map (\<lambda>(k, v). k @ CHR ''='' # v) kvs)
      = map (\<lambda>(k, v). (k, takeWhile (\<lambda>c. c \<noteq> CHR 0x0A) v)) kvs"
    using assms(2) by (auto simp: key_value_split)
  show ?thesis
    unfolding readEnviron_eq chunks kv by simp
qed

theorem readEnviron_entries_witness:
  "\<forall>raw. m_environ (readEnviron (stat_world ''/proc/7/environ''
        (unlines CHR 0x00 (map (\<lambda>(k, v). k @ CHR ''='' # v)
          [(''A'', ''1'' @ [CHR 0x0A] @ ''2''), (''B'', ''x=y'')]))) (ProcessInfo raw 7))
     = [''A'' \<mapsto> ''1'', ''B'' \<mapsto> ''x=y'']"
proof
  fix raw
  let ?kvs = "[(''A'', ''1'' @ [CHR 0x0A] @ ''2''), (''B'', ''x=y'')]"
  let ?w = "stat_world ''/proc/7/environ'' (unlines CHR 0x00 (map (\<lambda>(k, v). k @ CHR ''='' # v) ?kvs))"
  have "files ?w (m_proc_path (ProcessInfo raw 7) @ ''environ'')
      = Some (unlines CHR 0x00 (map (\<lambda>(k, v). k @ CHR ''='' # v) ?kvs))"
    by (simp add: constructed_path stat_world_def empty_world_def)
  from readEnviron_entries [OF this]
  have "m_environ (readEnviron ?w (ProcessInfo raw 7)) = m_environ (ProcessInfo raw 7) ++
      map_of (rev (map (\<lambda>(k, v). (k, takeWhile (\<lambda>c. c \<noteq> CHR 0x0A) v)) ?kvs))"
    by simp
  moreover have "m_environ (ProcessInfo raw 7) = Map.empty"
    by (simp add: ProcessInfo_def needUpdate_def fresh_process_def Let_def)
  ultimately show "m_environ (readEnviron ?w (ProcessInfo raw 7)) = [''A'' \<mapsto> ''1'', ''B'' \<mapsto> ''x=y'']"
    by (auto simp: fun_eq_iff)
qed

lemma for_each_fds:
  assumes "\<forall>e \<in> set es. stoi 10 (filename e) = Inr (num e)"
  shows "for_each (\<lambda>e q. assign (stoi 10 (filename e))
      (\<lambda>n q. q\<lparr>m_fds := (m_fds q)(n \<mapsto> f e)\<rparr>) q) es p
    = (p\<lparr>m_fds := m_fds p ++ map_of (rev (map (\<lambda>e. (num e, f e)) es))\<rparr>, Inr ())"
  using assms by (induction es arbitrary: p) (simp_all add: run_simps)

text \<open>
  C32. Reading the open files: every entry of the directory is recorded under its number with
  the target of its link, a directory that cannot be listed is no error, and descriptors of
  an earlier read are still there although the process may have closed them.
\<close>

theorem readFd_entries:
  assumes "\<forall>e \<in> set entries. stoi 10 (filename e) = Inr (num e)"
    and "directories w (m_proc_path p @ ''fd'') = (if listed then Some entries else None)"
  shows "readFd w p = (p\<lparr>m_fds := m_fds p ++ (if listed then
      map_of (rev (map (\<lambda>e. (num e, read_symlink w (m_proc_path p @ ''fd/'' @ filename e))) entries))
      else Map.empty)\<rparr>, Inr ())
    \<and> dom (m_fds p) \<subseteq> dom (m_fds (fst (readFd w p)))"
proof -
  have "readFd w p = (p\<lparr>m_fds := m_fds p ++ (if listed then
      map_of (rev (map (\<lambda>e. (num e, read_symlink w (m_proc_path p @ ''fd/'' @ filename e))) entries))
      else Map.empty)\<rparr>, Inr ())"
    by (cases listed) (simp_all add: readFd_def assms(2) for_each_fds [OF assms(1)])
  then show ?thesis by simp
qed

theorem readFd_entries_witness:
  "\<forall>raw. m_fds (fst (readFd (empty_world\<lparr>directories :=
        [''/proc/7/fd'' \<mapsto> [\<lparr>filename = ''3'', is_dir = False\<rparr>]],
        symlinks := [''/proc/7/fd/3'' \<mapsto> ''/tmp/x'']\<rparr>)
      ((ProcessInfo raw 7)\<lparr>m_fds := [9 \<mapsto> ''/old'']\<rparr>))) = [9 \<mapsto> ''/old'', 3 \<mapsto> ''/tmp/x'']"
proof
  fix raw
  let ?w = "empty_world\<lparr>directories := [''/proc/7/fd'' \<mapsto> [\<lparr>filename = ''3'', is_dir = False\<rparr>]],
     symlinks := [''/proc/7/fd/3'' \<mapsto> ''/tmp/x'']\<rparr>"
  let ?p = "(ProcessInfo raw 7)\<lparr>m_fds := [9 \<mapsto> ''/old'']\<rparr>"
  have "\<forall>e \<in> set [\<lparr>filename = ''3'', is_dir = False\<rparr>]. stoi 10 (filename e) = Inr ((\<lambda>_. 3) e)"
    by (simp add: num_eval)
  from readFd_entries [OF this, of ?w ?p True]
  show "m_fds (fst (readFd ?w ?p)) = [9 \<mapsto> ''/old'', 3 \<mapsto> ''/tmp/x'']"
    by (simp add: constructed_path read_symlink_def empty_world_def)
qed

end
