(* ===== verification/Process_Io.thy ===== *)
theory Process_Io
  imports Process_Files
begin

text \<open>
  The group of \<open>/proc/<pid>/io\<close>: the reader with its time stamp and the two getters of byte
  counts.
\<close>

section \<open>Reading /proc/pid/io\<close>

definition io_table :: "(string \<times> (c_long \<Rightarrow> io_stat \<Rightarrow> io_stat)) list" where
  "io_table =
    [(''rchar'', \<lambda>n i. i\<lparr>rchar := n\<rparr>),
     (''wchar'', \<lambda>n i. i\<lparr>wchar := n\<rparr>),
     (''syscr'', \<lambda>n i. i\<lparr>syscr := n\<rparr>),
     (''syscw'', \<lambda>n i. i\<lparr>syscw := n\<rparr>),
     (''read_bytes'', \<lambda>n i. i\<lparr>read_bytes := n\<rparr>),
     (''write_bytes'', \<lambda>n i. i\<lparr>write_bytes := n\<rparr>),
     (''cancelled_write_bytes'', \<lambda>n i. i\<lparr>cancelled_write_bytes := n\<rparr>)]"

definition parse_io_line :: "boost \<Rightarrow> string \<Rightarrow> (process_info, unit) action" where
  "parse_io_line B line =
     (let (key, value0) = key_value CHR '':'' line;
          val = trim B value0
      in case map_of io_table key of
           Some store \<Rightarrow> assign (stol 10 val) (\<lambda>n p. p\<lparr>m_io := store n (m_io p)\<rparr>)
         | None \<Rightarrow> returns ())"

definition readIo :: "boost \<Rightarrow> world \<Rightarrow> (process_info, unit) action" where
  "readIo B w =
     do_all
       [modify (\<lambda>p. p\<lparr>m_io := (m_io p)\<lparr>last_read := clock w\<rparr>\<rparr>),
        \<lambda>p. for_each (parse_io_line B) (lines_of (ifstream w (m_proc_path p @ ''io''))) p]"

section \<open>Getters\<close>

definition io_getter :: "boost \<Rightarrow> world \<Rightarrow> (process_info \<Rightarrow> 'a) \<Rightarrow> (process_info, 'a) action" where
  "io_getter B w val =
     getter m_need_update_io (\<lambda>p. p\<lparr>m_need_update_io := False\<rparr>) (readIo B w) val"

definition readBytes :: "boost \<Rightarrow> world \<Rightarrow> (process_info, c_ulong) action" where
  "readBytes B w = io_getter B w (\<lambda>p. read_bytes (m_io p))"

definition writeBytes :: "boost \<Rightarrow> world \<Rightarrow> (process_info, c_ulong) action" where
  "writeBytes B w = io_getter B w (\<lambda>p. write_bytes (m_io p))"

section \<open>What the reader leaves alone\<close>

lemma parse_io_line_frame:
  assumes "\<And>q x. view (q\<lparr>m_io := x\<rparr>) = view q"
  shows "view (fst (parse_io_line B line p)) = view p"
  by (auto simp: parse_io_line_def split_beta Let_def run_simps assms
      intro!: assign_view split: option.splits)

lemma readIo_frame:
  assumes "\<And>q x. view (q\<lparr>m_io := x\<rparr>) = view q"
  shows "view (fst (readIo B w p)) = view p"
  using for_each_frame [where view = view and f = "parse_io_line B",
      OF parse_io_line_frame [OF assms]]
  by (simp add: readIo_def do_all.simps(2) [where as = "[a]" for a] do_all_last modify_run assms del: do_all.simps)

lemma store_last_read: "map_of io_table k = Some f \<Longrightarrow> last_read (f n i) = last_read i"
  by (drule map_of_SomeD, unfold io_table_def list.set) (elim insertE emptyE; simp)

lemma parse_io_line_last_read:
  "last_read (m_io (fst (parse_io_line B line p))) = last_read (m_io p)"
proof -
  have "last_read (m_io (fst (assign v (\<lambda>n p. p\<lparr>m_io := f n (m_io p)\<rparr>) p))) = last_read (m_io p)"
    if "map_of io_table k = Some f" for k f v
    by (rule assign_view) (simp add: store_last_read [OF that])
  then show ?thesis
    by (auto simp: parse_io_line_def split_beta Let_def run_simps split: option.splits)
qed

lemma readIo_last_read: "last_read (m_io (fst (readIo B w p))) = clock w"
  using for_each_frame [where view = "\<lambda>p. last_read (m_io p)" and f = "parse_io_line B",
      OF parse_io_line_last_read]
  by (simp add: readIo_def do_all.simps(2) [where as = "[a]" for a] do_all_last modify_run
      del: do_all.simps)

interpretation io_group: lazy_reader m_need_update_io "\<lambda>p. p\<lparr>m_need_update_io := False\<rparr>"
  "\<lambda>w. readIo (fst w) (snd w)"
  by unfold_locales (simp_all add: readIo_frame)

section \<open>Properties\<close>

definition io_line :: "string \<Rightarrow> nat \<Rightarrow> string" where
  "io_line key n = key @ '': '' @ nat_str n"

lemma io_line_run:
  assumes "boost_library B" and "map_of io_table k = Some store" and "n \<le> 9223372036854775807"
  shows "parse_io_line B (io_line k n) p = (p\<lparr>m_io := store (of_nat n) (m_io p)\<rparr>, Inr ())"
proof -
  have tr: "trimming (trim B)"
    using assms(1) by (simp add: boost_library_def)
  have k: "CHR '':'' \<notin> set k"
    using assms(2) by (drule_tac map_of_SomeD) (auto simp: io_table_def)
  have d: "\<forall>c \<in> set (nat_str n). is_digit c"
    using nat_str_digits [of n] by (simp add: list_all_iff)
  then have "CHR 0x0A \<notin> set (CHR '' '' # nat_str n)" by auto
  from key_value_line [OF k this]
  have kv: "key_value CHR '':'' (io_line k n) = (k, CHR '' '' # nat_str n)"
    by (simp add: io_line_def)
  have "\<not> is_space (hd (nat_str n))" "\<not> is_space (last (nat_str n))"
    using d by (simp_all add: nat_str_hd)
  then have "trim B (CHR '' '' # nat_str n) = nat_str n"
    using trimming.trim_core [OF tr, of "'' ''" "[]" "nat_str n"] by simp
  moreover have "stol 10 (nat_str n) = Inr (of_nat n)"
    using sto_digits [of "nat_str n", where ?'a = 64] assms(3) by (simp add: stol_def)
  ultimately show ?thesis
    using assms(2) by (simp add: parse_io_line_def kv run_simps)
qed

lemma readIo_kernel_lines:
  assumes "boost_library B"
    and "files w (m_proc_path p @ ''io'') = Some (unlines CHR 0x0A
      [io_line ''rchar'' rc, io_line ''wchar'' wc, io_line ''syscr'' sr, io_line ''syscw'' sw,
       io_line ''read_bytes'' rb, io_line ''write_bytes'' wb, io_line ''cancelled_write_bytes'' cb])"
    and "{rc, wc, sr, sw, rb, wb, cb} \<subseteq> {..9223372036854775807}"
  shows "readIo B w p = (p\<lparr>m_io := \<lparr>rchar = of_nat rc, wchar = of_nat wc, syscr = of_nat sr,
    syscw = of_nat sw, read_bytes = of_nat rb, write_bytes = of_nat wb,
    cancelled_write_bytes = of_nat cb, last_read = clock w\<rparr>\<rparr>, Inr ())"
proof -
  let ?ls = "[io_line ''rchar'' rc, io_line ''wchar'' wc, io_line ''syscr'' sr, io_line ''syscw'' sw,
       io_line ''read_bytes'' rb, io_line ''write_bytes'' wb, io_line ''cancelled_write_bytes'' cb]"
  have "CHR 0x0A \<notin> set (io_line k n)" if "CHR 0x0A \<notin> set k" for k n
    using that nat_str_digits [of n] by (auto simp: io_line_def list_all_iff)
  then have "\<forall>l \<in> set ?ls. CHR 0x0A \<notin> set l" by simp
  then have lines: "lines_of (ifstream w (m_proc_path p @ ''io'')) = ?ls"
    unfolding ifstream_def assms(2) by (rule lines_of_unlines)
  note run = io_line_run [OF assms(1)]
  show ?thesis
    using assms(3)
    by (cases "m_io p")
       (simp add: readIo_def run_simps lines run io_table_def)
qed

text \<open>
  C19. On the file of the kernel the counter of bytes read is returned, all seven counters and
  the time of the read are stored, each in its own member, and the counter of bytes written is
  then answered from the same read, whatever the file holds by then.
\<close>

theorem io_getters_kernel_file:
  assumes "boost_library B" and "m_need_update_io p"
    and "files w (m_proc_path p @ ''io'') = Some (unlines CHR 0x0A
      [io_line ''rchar'' rc, io_line ''wchar'' wc, io_line ''syscr'' sr, io_line ''syscw'' sw,
       io_line ''read_bytes'' rb, io_line ''write_bytes'' wb, io_line ''cancelled_write_bytes'' cb])"
    and "{rc, wc, sr, sw, rb, wb, cb} \<subseteq> {..9223372036854775807}"
  shows "\<exists>t. readBytes B w p = (t, Inr (of_nat rb)) \<and> writeBytes B w' t = (t, Inr (of_nat wb))
    \<and> t = p\<lparr>m_need_update_io := False, m_io := \<lparr>rchar = of_nat rc, wchar = of_nat wc,
        syscr = of_nat sr, syscw = of_nat sw, read_bytes = of_nat rb, write_bytes = of_nat wb,
        cancelled_write_bytes = of_nat cb, last_read = clock w\<rparr>\<rparr>"
  using readIo_kernel_lines [OF assms(1,3,4)] assms(2)
  by (simp add: readBytes_def writeBytes_def io_getter_def getter_cases)

definition io_world :: "nat \<Rightarrow> nat \<Rightarrow> c_long \<Rightarrow> world" where
  "io_world rb wb now = (stat_world ''/proc/7/io'' (unlines CHR 0x0A
     [io_line ''rchar'' 0, io_line ''wchar'' 0, io_line ''syscr'' 0, io_line ''syscw'' 0,
      io_line ''read_bytes'' rb, io_line ''write_bytes'' wb, io_line ''cancelled_write_bytes'' 0]))
        \<lparr>clock := now\<rparr>"

lemma io_world_file: "m_proc_path p = ''/proc/7/'' \<Longrightarrow>
  files (io_world rb wb now) (m_proc_path p @ ''io'') = Some (unlines CHR 0x0A
     [io_line ''rchar'' 0, io_line ''wchar'' 0, io_line ''syscr'' 0, io_line ''syscw'' 0,
      io_line ''read_bytes'' rb, io_line ''write_bytes'' wb, io_line ''cancelled_write_bytes'' 0])"
  by (simp add: io_world_def stat_world_def empty_world_def)

lemma io_world_read:
  assumes "m_proc_path p = ''/proc/7/''" and "rb \<le> 9223372036854775807" and "wb \<le> 9223372036854775807"
  shows "readIo reference_boost (io_world rb wb now) p = (p\<lparr>m_io := \<lparr>rchar = 0, wchar = 0,
    syscr = 0, syscw = 0, read_bytes = of_nat rb, write_bytes = of_nat wb,
    cancelled_write_bytes = 0, last_read = now\<rparr>\<rparr>, Inr ())"
  using readIo_kernel_lines [OF reference.boost_library_axioms io_world_file [OF assms(1)]] assms(2,3)
  by (simp add: io_world_def)

theorem io_getters_kernel_file_witness:
  "\<forall>raw. m_io (fst (readBytes reference_boost (io_world 4096 6 50) (ProcessInfo raw 7)))
     = \<lparr>rchar = 0, wchar = 0, syscr = 0, syscw = 0, read_bytes = 4096, write_bytes = 6,
        cancelled_write_bytes = 0, last_read = 50\<rparr>"
proof
  fix raw
  have "m_need_update_io (ProcessInfo raw 7)" by (simp add: ProcessInfo_def Let_def)
  from io_getters_kernel_file [OF reference.boost_library_axioms this io_world_file [OF constructed_path],
      of 4096 6 50 empty_world]
  show "m_io (fst (readBytes reference_boost (io_world 4096 6 50) (ProcessInfo raw 7)))
     = \<lparr>rchar = 0, wchar = 0, syscr = 0, syscw = 0, read_bytes = 4096, write_bytes = 6,
        cancelled_write_bytes = 0, last_read = 50\<rparr>"
    by (auto simp: io_world_def)
qed

end
