(* ===== verification/Cpu_Info.thy ===== *)
theory Cpu_Info
  imports World Doubles
begin

text \<open>
  The CPU information of \<open>sysinfo.cpp\<close>: the records of \<open>/proc/cpuinfo\<close>, the number of
  processors and the number of cores.
\<close>

section \<open>Data\<close>

record cpu_info_t =
  processor_id :: c_int
  vendor_id :: string
  cpu_family :: c_int
  model :: c_int
  model_name :: string
  stepping :: c_int
  microcode :: c_int
  cpu_mhz :: rat
  cache_size :: c_int
  physical_id :: c_int
  siblings :: c_int
  core_id :: c_int
  cpu_cores :: c_int
  apicid :: c_int
  initial_apicid :: c_int
  fpu :: bool
  fpu_exception :: bool
  cpuid_level :: c_int
  wp :: bool
  cpu_flags :: "string list"
  bugs :: string
  bogomips :: rat
  clflush_size :: c_int
  cache_alignement :: c_int
  address_sizes :: string
  power_management :: string

text \<open>\<open>cpu_info_t()\<close> is value-initialised.\<close>

definition zero_cpu_info :: cpu_info_t where
  "zero_cpu_info = \<lparr>processor_id = 0, vendor_id = [], cpu_family = 0, model = 0, model_name = [],
     stepping = 0, microcode = 0, cpu_mhz = 0, cache_size = 0, physical_id = 0, siblings = 0,
     core_id = 0, cpu_cores = 0, apicid = 0, initial_apicid = 0, fpu = False,
     fpu_exception = False, cpuid_level = 0, wp = False, cpu_flags = [], bugs = [],
     bogomips = 0, clflush_size = 0, cache_alignement = 0, address_sizes = [],
     power_management = []\<rparr>"

section \<open>Reading /proc/cpuinfo\<close>

text \<open>
  The assignments by key.  The flag is appended word by word; the two floating-point members
  take the integral part that \<open>std::stol\<close> reads.
\<close>

definition cpu_field :: "string \<Rightarrow> (string \<Rightarrow> (cpu_info_t, unit) action) option" where
  "cpu_field = map_of
    [(''processor'', \<lambda>v. assign (stoi 10 v) (\<lambda>n c. c\<lparr>processor_id := n\<rparr>)),
     (''vendor_id'', \<lambda>v. modify (\<lambda>c. c\<lparr>vendor_id := v\<rparr>)),
     (''cpu family'', \<lambda>v. assign (stoi 10 v) (\<lambda>n c. c\<lparr>cpu_family := n\<rparr>)),
     (''model'', \<lambda>v. assign (stoi 10 v) (\<lambda>n c. c\<lparr>model := n\<rparr>)),
     (''model name'', \<lambda>v. modify (\<lambda>c. c\<lparr>model_name := v\<rparr>)),
     (''stepping'', \<lambda>v. assign (stoi 10 v) (\<lambda>n c. c\<lparr>stepping := n\<rparr>)),
     (''microcode'', \<lambda>v. assign (stoi 10 v) (\<lambda>n c. c\<lparr>microcode := n\<rparr>)),
     (''cpu MHz'', \<lambda>v. assign (stol 10 v) (\<lambda>n c. c\<lparr>cpu_mhz := float_of_int (sint n)\<rparr>)),
     (''cache size'', \<lambda>v. modify (\<lambda>c. c\<lparr>cache_size := 0\<rparr>)),
     (''physical id'', \<lambda>v. assign (stoi 10 v) (\<lambda>n c. c\<lparr>physical_id := n\<rparr>)),
     (''sibblings'', \<lambda>v. assign (stoi 10 v) (\<lambda>n c. c\<lparr>siblings := n\<rparr>)),
     (''core id'', \<lambda>v. assign (stoi 10 v) (\<lambda>n c. c\<lparr>core_id := n\<rparr>)),
     (''cpu cores'', \<lambda>v. assign (stoi 10 v) (\<lambda>n c. c\<lparr>cpu_cores := n\<rparr>)),
     (''apicid'', \<lambda>v. assign (stoi 10 v) (\<lambda>n c. c\<lparr>apicid := n\<rparr>)),
     (''initial apicid'', \<lambda>v. assign (stoi 10 v) (\<lambda>n c. c\<lparr>initial_apicid := n\<rparr>)),
     (''fpu'', \<lambda>v. modify (\<lambda>c. c\<lparr>fpu := (v = ''yes'')\<rparr>)),
     (''fpu_exception'', \<lambda>v. modify (\<lambda>c. c\<lparr>fpu_exception := (v = ''yes'')\<rparr>)),
     (''cpuid_level'', \<lambda>v. assign (stoi 10 v) (\<lambda>n c. c\<lparr>cpuid_level := n\<rparr>)),
     (''wp'', \<lambda>v. modify (\<lambda>c. c\<lparr>wp := (v = ''yes'')\<rparr>)),
     (''flags'', \<lambda>v. modify (\<lambda>c. c\<lparr>cpu_flags := cpu_flags c @ extract_words (istringstream v)\<rparr>)),
     (''bugs'', \<lambda>v. modify (\<lambda>c. c\<lparr>bugs := v\<rparr>)),
     (''bogomipinfo'', \<lambda>v. assign (stol 10 v) (\<lambda>n c. c\<lparr>bogomips := float_of_int (sint n)\<rparr>)),
     (''clflush size'', \<lambda>v. assign (stoi 10 v) (\<lambda>n c. c\<lparr>clflush_size := n\<rparr>)),
     (''cache_alignement'', \<lambda>v. assign (stoi 10 v) (\<lambda>n c. c\<lparr>cache_alignement := n\<rparr>)),
     (''address sizes'', \<lambda>v. modify (\<lambda>c. c\<lparr>address_sizes := v\<rparr>)),
     (''power management'', \<lambda>v. modify (\<lambda>c. c\<lparr>power_management := v\<rparr>))]"

text \<open>The value is trimmed before it is read, not after.\<close>

definition parse_cpu_line :: "boost \<Rightarrow> string \<Rightarrow> (cpu_info_t, unit) action" where
  "parse_cpu_line B cur_line =
     (let (line_stream, key0) = getline CHR '':'' (istringstream cur_line) [];
          key = trim B key0;
          value0 = trim B [];
          (_, val) = getline CHR 0x0A line_stream value0
      in case cpu_field key of
           Some set_field \<Rightarrow> set_field val
         | None \<Rightarrow> returns ())"

text \<open>The loop: the records pushed so far and the current one.\<close>

definition cpu_step ::
  "boost \<Rightarrow> string \<times> bool \<Rightarrow> (cpu_info_t list \<times> cpu_info_t, unit) action" where
  "cpu_step B = (\<lambda>(cur_line, at_eof) (cpuinfo, cur).
     if cur_line = [] then
       ((cpuinfo @ [cur], if \<not> at_eof then zero_cpu_info else cur), Inr ())
     else (case parse_cpu_line B cur_line cur of (cur', r) \<Rightarrow> ((cpuinfo, cur'), r)))"

definition readCPUInfo :: "boost \<Rightarrow> world \<Rightarrow> cpu_info_t list outcome" where
  "readCPUInfo B w =
     (case for_each (cpu_step B) (getlines CHR 0x0A (ifstream w ''/proc/cpuinfo''))
             ([], zero_cpu_info) of
        (_, Inl e) \<Rightarrow> Inl e
      | ((cpuinfo, _), Inr _) \<Rightarrow> Inr cpuinfo)"

definition getNbCPUs :: "boost \<Rightarrow> world \<Rightarrow> c_int outcome" where
  "getNbCPUs B w =
     (case readCPUInfo B w of
        Inl e \<Rightarrow> Inl e
      | Inr cpuinfo \<Rightarrow>
          Inr (fold (\<lambda>core nbCPUs. if core_id core = 0 then nbCPUs + 1 else nbCPUs) cpuinfo 0))"

definition getNbCores :: "boost \<Rightarrow> world \<Rightarrow> c_int outcome" where
  "getNbCores B w =
     (case readCPUInfo B w of Inl e \<Rightarrow> Inl e | Inr cpuinfo \<Rightarrow> Inr (of_nat (length cpuinfo)))"

section \<open>Blocks of the file\<close>

lemma cpu_steps_block:
  assumes "\<forall>l \<in> set b. l \<noteq> []" and "for_each (parse_cpu_line B) b c = (c', Inr ())"
  shows "for_each (cpu_step B) (map (\<lambda>l. (l, False)) b) (done_cpus, c) = ((done_cpus, c'), Inr ())"
  using assms
proof (induction b arbitrary: c)
  case Nil
  then show ?case by simp
next
  case (Cons l b)
  then obtain c1 where "parse_cpu_line B l c = (c1, Inr ())"
      and "for_each (parse_cpu_line B) b c1 = (c', Inr ())"
    by (auto split: prod.splits sum.splits)
  with Cons show ?case by (simp add: cpu_step_def)
qed

lemma cpu_steps_blank:
  "cpu_step B ([], False) (done_cpus, c) = ((done_cpus @ [c], zero_cpu_info), Inr ())"
  by (simp add: cpu_step_def)

lemma cpu_steps_blocks:
  assumes "\<forall>b \<in> set blocks. (\<forall>l \<in> set b. l \<noteq> [])
      \<and> for_each (parse_cpu_line B) b zero_cpu_info = (cpu_of b, Inr ())"
  shows "for_each (cpu_step B) (map (\<lambda>l. (l, False)) (concat (map (\<lambda>b. b @ [[]]) blocks)))
      (done_cpus, zero_cpu_info) = ((done_cpus @ map cpu_of blocks, zero_cpu_info), Inr ())"
  using assms
  by (induction blocks arbitrary: done_cpus)
     (simp_all add: for_each_append cpu_steps_block cpu_steps_blank)

lemma count_cores:
  "fold (\<lambda>core nbCPUs. if core_id core = 0 then nbCPUs + 1 else nbCPUs) cs (n :: c_int)
   = n + of_nat (length (filter (\<lambda>c. core_id c = 0) cs))"
  by (induction cs arbitrary: n) (simp_all add: algebra_simps)

section \<open>Properties\<close>

text \<open>
  C15. On a file of blocks that each end with an empty line, followed by an unfinished block,
  the result has one record per finished block in order, each parsed from the zero record by
  the lines of its own block alone; the unfinished block is dropped; the number of cores is
  the number of finished blocks and the number of processors is that of the blocks whose
  core id is 0.
\<close>

theorem readCPUInfo_blocks:
  assumes "files w ''/proc/cpuinfo''
      = Some (unlines CHR 0x0A (concat (map (\<lambda>b. b @ [[]]) blocks) @ unfinished))"
    and "\<forall>b \<in> set blocks. (\<forall>l \<in> set b. l \<noteq> [] \<and> CHR 0x0A \<notin> set l)
      \<and> for_each (parse_cpu_line B) b zero_cpu_info = (cpu_of b, Inr ())"
    and "\<forall>l \<in> set unfinished. l \<noteq> [] \<and> CHR 0x0A \<notin> set l"
    and "for_each (parse_cpu_line B) unfinished zero_cpu_info = (c, Inr ())"
  shows "readCPUInfo B w = Inr (map cpu_of blocks)
    \<and> getNbCores B w = Inr (of_nat (length blocks))
    \<and> getNbCPUs B w = Inr (of_nat (length (filter (\<lambda>b. core_id (cpu_of b) = 0) blocks)))"
proof -
  let ?ls = "concat (map (\<lambda>b. b @ [[]]) blocks) @ unfinished"
  have "\<forall>l \<in> set ?ls. CHR 0x0A \<notin> set l"
    using assms(2,3) by auto
  then have lines: "getlines CHR 0x0A (ifstream w ''/proc/cpuinfo'') = map (\<lambda>l. (l, False)) ?ls"
    by (simp add: ifstream_def assms(1) open_file_Some getlines_unlines)
  have "for_each (cpu_step B) (map (\<lambda>l. (l, False)) (concat (map (\<lambda>b. b @ [[]]) blocks)))
      ([], zero_cpu_info) = ((map cpu_of blocks, zero_cpu_info), Inr ())"
    using cpu_steps_blocks [of blocks B cpu_of "[]"] assms(2) by simp
  moreover have "for_each (cpu_step B) (map (\<lambda>l. (l, False)) unfinished)
      (map cpu_of blocks, zero_cpu_info) = ((map cpu_of blocks, c), Inr ())"
    using cpu_steps_block [OF _ assms(4)] assms(3) by simp
  ultimately have r: "readCPUInfo B w = Inr (map cpu_of blocks)"
    unfolding readCPUInfo_def lines by (simp add: for_each_append del: map_concat)
  then show ?thesis
    by (simp add: getNbCores_def getNbCPUs_def count_cores filter_map comp_def)
qed

theorem readCPUInfo_blocks_witness:
  "getNbCores reference_boost (empty_world\<lparr>files := [''/proc/cpuinfo'' \<mapsto>
       unlines CHR 0x0A (concat (map (\<lambda>b. b @ [[]]) [[''a:0''], [''b:1'']]) @ [''c:2''])]\<rparr>) = Inr 2"
proof -
  let ?w = "empty_world\<lparr>files := [''/proc/cpuinfo'' \<mapsto>
       unlines CHR 0x0A (concat (map (\<lambda>b. b @ [[]]) [[''a:0''], [''b:1'']]) @ [''c:2''])]\<rparr>"
  have f: "files ?w ''/proc/cpuinfo''
      = Some (unlines CHR 0x0A (concat (map (\<lambda>b. b @ [[]]) [[''a:0''], [''b:1'']]) @ [''c:2'']))"
    by (simp add: empty_world_def)
  have skip: "parse_cpu_line reference_boost l c = (c, Inr ())"
    if "l \<in> {''a:0'', ''b:1'', ''c:2''}" for l c
    using that by (auto simp: parse_cpu_line_def getline_def strip_def is_space_def
        cpu_field_def run_simps)
  show ?thesis
    using readCPUInfo_blocks [OF f, of reference_boost "\<lambda>_. zero_cpu_info" zero_cpu_info] skip
    by simp
qed

text \<open>
  The three yes-or-no members are never true on the kernel's lines \<open>fpu : yes\<close> and the
  like: the value is not trimmed, so it starts with the space after the colon.
\<close>

theorem cpu_yes_never_read:
  assumes "trimming (trim B)" and "list_all is_space sp" and "CHR 0x0A \<notin> set v"
  shows "parse_cpu_line B (''fpu'' @ sp @ '': '' @ v) c = (c\<lparr>fpu := False\<rparr>, Inr ())
    \<and> parse_cpu_line B (''fpu_exception'' @ sp @ '': '' @ v) c = (c\<lparr>fpu_exception := False\<rparr>, Inr ())
    \<and> parse_cpu_line B (''wp'' @ sp @ '': '' @ v) c = (c\<lparr>wp := False\<rparr>, Inr ())"
proof -
  have sp: "CHR '':'' \<notin> set sp"
    using assms(2) by (auto simp: list_all_iff is_space_def)
  have line: "parse_cpu_line B (k @ sp @ '': '' @ v) c
      = (case cpu_field k of Some set_field \<Rightarrow> set_field (CHR '' '' # v) | None \<Rightarrow> returns ()) c"
    if k: "CHR '':'' \<notin> set k" "k \<noteq> []" "\<not> is_space (hd k)" "\<not> is_space (last k)" for k
  proof -
    have "getline CHR '':'' (istringstream ((k @ sp) @ CHR '':'' # CHR '' '' # v)) []
        = (istringstream (CHR '' '' # v), k @ sp)"
      using k(1) sp by (intro getline_delimited) simp
    moreover have "getline CHR 0x0A (istringstream (CHR '' '' # v)) old
        = (\<lparr>buf = [], eofbit = True, failbit = False\<rparr>, CHR '' '' # v)" for old
      using assms(3) getline_to_end [of "CHR 0x0A" "CHR '' '' # v" old] by simp
    moreover have "trim B (k @ sp) = k"
      using trimming.trim_core [OF assms(1), of "[]" sp k] assms(2) k by simp
    ultimately show ?thesis
      by (simp add: parse_cpu_line_def)
  qed
  show ?thesis
    using line [of "''fpu''"] line [of "''fpu_exception''"] line [of "''wp''"]
    by (simp add: is_space_def cpu_field_def run_simps)
qed

theorem cpu_yes_never_read_witness:
  "\<forall>c. parse_cpu_line reference_boost (''fpu'' @ [CHR 0x09, CHR 0x09] @ '': '' @ ''yes'') c
     = (c\<lparr>fpu := False\<rparr>, Inr ())"
  using cpu_yes_never_read [OF reference.trimming_axioms, of "[CHR 0x09, CHR 0x09]" "''yes''"]
  by simp

end
