(* ===== verification/Usage.thy ===== *)
theory Usage
  imports Process_Io Cpu_Info
begin

text \<open>
  The computed values of \<open>processinfo.cpp\<close>: processor usage and the two input/output rates.
  They compare the present values of a process with a copy of the object that was made at
  the first sample of its pid and is kept, for the whole program, in the static map
  \<open>map_pid_oldstate\<close>.  The state of an operation is therefore that map (and the static
  \<open>nb_core\<close>) together with the object.
\<close>

section \<open>State\<close>

text \<open>
  The map holds owned copies that nothing else points to, so a map to values models it.
  \<open>nb_core\<close> is the function-local static: \<^term>\<open>None\<close> until its initialiser has returned.
\<close>

record globals =
  map_pid_oldstate :: "c_int \<rightharpoonup> process_info"
  nb_core :: "c_int option"

definition initial_globals :: globals where
  "initial_globals = \<lparr>map_pid_oldstate = Map.empty, nb_core = None\<rparr>"

type_synonym usage_state = "globals \<times> process_info"

text \<open>A getter of the object inside an operation on both.\<close>

definition on_process :: "(process_info, 'a) action \<Rightarrow> (usage_state, 'a) action" where
  "on_process m s = (case m (snd s) of (p, r) \<Rightarrow> ((fst s, p), r))"

section \<open>Input and output rates\<close>

text \<open>\<open>std::chrono::duration<double, std::ratio<1,1>>\<close> of a number of nanoseconds.\<close>

definition seconds :: "c_long \<Rightarrow> double" where
  "seconds ns = double_div (double_of_int (sint ns)) (double_of_int 1000000000)"

text \<open>
  The common body of \<open>updateIoReadUsage\<close> and \<open>updateIoWriteUsage\<close>: \<open>get_bytes\<close> is the getter
  of the counter, \<open>counter\<close> the member of the old state it is compared with, \<open>put\<close> the member
  that takes the rate.  The copy inserted at the first sample is made before the rate is stored.
\<close>

definition updateIoUsage ::
  "(process_info, c_ulong) action \<Rightarrow> (io_stat \<Rightarrow> c_ulong) \<Rightarrow>
   (double \<Rightarrow> process_info \<Rightarrow> process_info) \<Rightarrow> (usage_state, unit) action" where
  "updateIoUsage get_bytes counter put s =
     (case on_process get_bytes s of
        (s', Inl e) \<Rightarrow> (s', Inl e)
      | ((g, p), Inr bytes) \<Rightarrow>
          let last_time = last_read (m_io p) in
          case map_pid_oldstate g (m_pid p) of
            None \<Rightarrow>
              ((g\<lparr>map_pid_oldstate := (map_pid_oldstate g)(m_pid p \<mapsto> p)\<rparr>, put 0 p), Inr ())
          | Some oldstate \<Rightarrow>
              let delta = bytes - counter (m_io oldstate);
                  delta_time = seconds (last_time - last_read (m_io oldstate));
                  usage = (if delta_time \<noteq> 0
                           then double_div (double_of_int (uint delta)) delta_time else 0)
              in ((g\<lparr>map_pid_oldstate :=
                       (map_pid_oldstate g)(m_pid p \<mapsto> oldstate\<lparr>m_io := m_io p\<rparr>)\<rparr>,
                   put usage p), Inr ()))"

definition updateIoReadUsage :: "boost \<Rightarrow> world \<Rightarrow> (usage_state, unit) action" where
  "updateIoReadUsage B w =
     updateIoUsage (readBytes B w) read_bytes (\<lambda>u p. p\<lparr>m_io_read_usage := u\<rparr>)"

definition updateIoWriteUsage :: "boost \<Rightarrow> world \<Rightarrow> (usage_state, unit) action" where
  "updateIoWriteUsage B w =
     updateIoUsage (writeBytes B w) write_bytes (\<lambda>u p. p\<lparr>m_io_write_usage := u\<rparr>)"

definition ioReadUsage :: "boost \<Rightarrow> world \<Rightarrow> (usage_state, double) action" where
  "ioReadUsage B w =
     getter (\<lambda>(g, p). m_need_update_io_read_usage p)
       (\<lambda>(g, p). (g, p\<lparr>m_need_update_io_read_usage := False\<rparr>))
       (updateIoReadUsage B w) (\<lambda>(g, p). m_io_read_usage p)"

definition ioWriteUsage :: "boost \<Rightarrow> world \<Rightarrow> (usage_state, double) action" where
  "ioWriteUsage B w =
     getter (\<lambda>(g, p). m_need_update_io_write_usage p)
       (\<lambda>(g, p). (g, p\<lparr>m_need_update_io_write_usage := False\<rparr>))
       (updateIoWriteUsage B w) (\<lambda>(g, p). m_io_write_usage p)"

text \<open>
  \<open>ioReadUsage() + ioWriteUsage()\<close>: the language does not say which operand is evaluated
  first, so the order is an argument.
\<close>

definition ioTotalUsage :: "bool \<Rightarrow> boost \<Rightarrow> world \<Rightarrow> (usage_state, double) action" where
  "ioTotalUsage read_first B w =
     (if read_first
      then and_then (ioReadUsage B w) (\<lambda>r. and_then (ioWriteUsage B w) (\<lambda>v. returns (double_add r v)))
      else and_then (ioWriteUsage B w) (\<lambda>v. and_then (ioReadUsage B w) (\<lambda>r. returns (double_add r v))))"

section \<open>Processor usage\<close>

text \<open>
  The first line of \<open>/proc/stat\<close>.  \<open>user\<close> is initialised, \<open>nice\<close>, \<open>system\<close> and \<open>idle\<close> are not:
  \<open>raw\<close> is what they held.
\<close>

definition cpuTotalTime :: "c_ull \<times> c_ull \<times> c_ull \<Rightarrow> world \<Rightarrow> c_ull" where
  "cpuTotalTime raw w =
     (let (raw_nice, raw_system, raw_idle) = raw;
          is0 = ifstream w ''/proc/stat'';
          (is1, tmp) = extract_string is0 [];
          (is2, user) = extract_unsigned is1 0;
          (is3, nic) = extract_unsigned is2 raw_nice;
          (is4, system) = extract_unsigned is3 raw_system;
          (is5, idle) = extract_unsigned is4 raw_idle
      in user + nic + system + idle)"

definition init_nb_core :: "boost \<Rightarrow> world \<Rightarrow> (usage_state, c_int) action" where
  "init_nb_core B w = (\<lambda>(g, p).
     case nb_core g of
       Some n \<Rightarrow> ((g, p), Inr n)
     | None \<Rightarrow>
         (case getNbCores B w of
            Inl e \<Rightarrow> ((g, p), Inl e)
          | Inr n \<Rightarrow> ((g\<lparr>nb_core := Some n\<rparr>, p), Inr n)))"

text \<open>
  \<open>100 * nb_core * delta_process_time / delta_cpu_time\<close>: the first product is an \<open>int\<close>, the
  others are taken modulo \<open>2 ^ 64\<close>, and the quotient is narrowed to \<open>int\<close>.
\<close>

definition cpu_percentage :: "c_int \<Rightarrow> c_ull \<Rightarrow> c_ull \<Rightarrow> c_int" where
  "cpu_percentage n delta_process_time delta_cpu_time =
     ucast (scast (100 * n) * delta_process_time div delta_cpu_time)"

definition updateCPUUsage ::
  "c_ull \<times> c_ull \<times> c_ull \<Rightarrow> boost \<Rightarrow> world \<Rightarrow> (usage_state, unit) action" where
  "updateCPUUsage raw B w =
     and_then (init_nb_core B w) (\<lambda>n.
     and_then (on_process (utime w)) (\<lambda>ut.
     and_then (on_process (stime w)) (\<lambda>st (g, p).
       let cpu_total_time = cpuTotalTime raw w;
           process_total_time = ut + st
       in case map_pid_oldstate g (m_pid p) of
            None \<Rightarrow>
              let p' = p\<lparr>m_last_cpu_total_time := cpu_total_time,
                         m_last_process_total_time := process_total_time\<rparr>
              in ((g\<lparr>map_pid_oldstate := (map_pid_oldstate g)(m_pid p' \<mapsto> p')\<rparr>,
                   p'\<lparr>m_cpu_usage := 0\<rparr>), Inr ())
          | Some oldstate \<Rightarrow>
              let delta_cpu_time = cpu_total_time - m_last_cpu_total_time oldstate;
                  delta_process_time = process_total_time - m_last_process_total_time oldstate;
                  cpu_usage = (if delta_cpu_time \<noteq> 0
                               then cpu_percentage n delta_process_time delta_cpu_time else 0);
                  oldstate' = oldstate\<lparr>m_last_cpu_total_time := cpu_total_time,
                                       m_last_process_total_time := process_total_time\<rparr>
              in ((g\<lparr>map_pid_oldstate := (map_pid_oldstate g)(m_pid p \<mapsto> oldstate')\<rparr>,
                   p\<lparr>m_cpu_usage := cpu_usage\<rparr>), Inr ()))))"

definition cpuUsage ::
  "c_ull \<times> c_ull \<times> c_ull \<Rightarrow> boost \<Rightarrow> world \<Rightarrow> (usage_state, c_int) action" where
  "cpuUsage raw B w =
     getter (\<lambda>(g, p). m_need_update_cpu_usage p)
       (\<lambda>(g, p). (g, p\<lparr>m_need_update_cpu_usage := False\<rparr>))
       (updateCPUUsage raw B w) (\<lambda>(g, p). m_cpu_usage p)"

section \<open>What the operations leave alone\<close>

lemma io_getter_cases:
  "io_getter B w val p =
     (if m_need_update_io p then
        (case readIo B w p of
           (q, Inl e) \<Rightarrow> (q, Inl e)
         | (q, Inr _) \<Rightarrow> (q\<lparr>m_need_update_io := False\<rparr>, Inr (val (q\<lparr>m_need_update_io := False\<rparr>))))
      else (p, Inr (val p)))"
  by (simp add: io_getter_def getter_cases)

lemma io_getter_frame:
  assumes "\<And>q x. view (q\<lparr>m_io := x\<rparr>) = view q"
    and "\<And>q x. view (q\<lparr>m_need_update_io := x\<rparr>) = view q"
  shows "view (fst (io_getter B w val p)) = view p"
proof (cases "readIo B w p")
  case (Pair q r)
  then have "view q = view p"
    using readIo_frame [of view B w p, OF assms(1)] by simp
  with Pair show ?thesis
    by (simp add: io_getter_cases assms(2) split: sum.splits)
qed

lemma io_getter_pid: "m_pid (fst (io_getter B w val p)) = m_pid p"
  by (rule io_getter_frame) simp_all

text \<open>One sample, by what the map holds for the pid.\<close>

lemma updateIoUsage_first:
  assumes "get_bytes p = (q, Inr bytes)" and "map_pid_oldstate g (m_pid q) = None"
  shows "updateIoUsage get_bytes counter put (g, p)
    = ((g\<lparr>map_pid_oldstate := (map_pid_oldstate g)(m_pid q \<mapsto> q)\<rparr>, put 0 q), Inr ())"
  using assms by (simp add: updateIoUsage_def on_process_def)

definition io_rate :: "c_ulong \<Rightarrow> c_long \<Rightarrow> double" where
  "io_rate delta ns =
     (if ns = 0 then 0 else double_div (double_of_int (uint delta)) (seconds ns))"

lemma sint_zero_iff: "sint (w :: 'a::len word) = 0 \<longleftrightarrow> w = 0"
  by (rule signed_eq_0_iff)

lemma rnd_nonzero: "q \<noteq> 0 \<Longrightarrow> rnd q \<noteq> 0"
  using rnd_error [of q] by (auto simp: field_simps)

lemma double_of_int_zero_iff: "double_of_int i = 0 \<longleftrightarrow> i = 0"
  using rnd_nonzero [of "of_int i"] by (auto simp: double_of_int_def)

lemma double_div_zero_iff: "double_div a b = 0 \<longleftrightarrow> a = 0 \<or> b = 0"
  using rnd_nonzero [of "a / b"] by (auto simp: double_div_def)

lemma seconds_zero [simp]: "seconds ns = 0 \<longleftrightarrow> ns = 0"
  unfolding seconds_def double_div_zero_iff double_of_int_zero_iff sint_zero_iff by simp

lemma updateIoUsage_later:
  assumes "get_bytes p = (q, Inr bytes)" and "map_pid_oldstate g (m_pid q) = Some old"
  shows "updateIoUsage get_bytes counter put (g, p)
    = ((g\<lparr>map_pid_oldstate := (map_pid_oldstate g)(m_pid q \<mapsto> old\<lparr>m_io := m_io q\<rparr>)\<rparr>,
        put (io_rate (bytes - counter (m_io old)) (last_read (m_io q) - last_read (m_io old))) q),
       Inr ())"
  using assms by (simp add: updateIoUsage_def on_process_def io_rate_def Let_def)

lemma updateIoUsage_throws:
  assumes "get_bytes p = (q, Inl e)"
  shows "updateIoUsage get_bytes counter put (g, p) = ((g, q), Inl e)"
  using assms by (simp add: updateIoUsage_def on_process_def)

text \<open>After a sample that returned, the map holds the counters the sample has seen.\<close>

lemma updateIoUsage_samples:
  assumes "get_bytes p = (q, Inr bytes)"
  shows "\<exists>old v. updateIoUsage get_bytes counter put (g, p)
      = ((g\<lparr>map_pid_oldstate := (map_pid_oldstate g)(m_pid q \<mapsto> old)\<rparr>, put v q), Inr ())
    \<and> m_io old = m_io q \<and> double_add v 0 = v \<and> double_add 0 v = v"
proof (cases "map_pid_oldstate g (m_pid q)")
  case None
  with assms show ?thesis
    by (intro exI [of _ q] exI [of _ 0]) (simp add: updateIoUsage_first)
next
  case (Some old)
  with assms show ?thesis
    by (intro exI [of _ "old\<lparr>m_io := m_io q\<rparr>"]
        exI [of _ "io_rate (bytes - counter (m_io old)) (last_read (m_io q) - last_read (m_io old))"])
       (auto simp: updateIoUsage_later io_rate_def)
qed

interpretation read_usage: lazy_group "\<lambda>(g, p). m_need_update_io_read_usage p"
  "\<lambda>(g, p). (g, p\<lparr>m_need_update_io_read_usage := False\<rparr>)"
  by unfold_locales auto

interpretation write_usage: lazy_group "\<lambda>(g, p). m_need_update_io_write_usage p"
  "\<lambda>(g, p). (g, p\<lparr>m_need_update_io_write_usage := False\<rparr>)"
  by unfold_locales auto

interpretation cpu_usage: lazy_group "\<lambda>(g, p). m_need_update_cpu_usage p"
  "\<lambda>(g, p). (g, p\<lparr>m_need_update_cpu_usage := False\<rparr>)"
  by unfold_locales auto

lemma io_getter_settled:
  assumes "io_getter B w val p = (q, Inr v)"
  shows "io_getter B' w' val' q = (q, Inr (val' q))" and "v = val q"
  using io_group.getter_settles [OF assms [unfolded io_getter_def]]
  by (simp_all add: io_getter_def)

lemma io_getter_flags:
  assumes "io_getter B w val p = (q, r)"
  shows "m_need_update_io_read_usage q = m_need_update_io_read_usage p"
    and "m_need_update_io_write_usage q = m_need_update_io_write_usage p"
    and "m_need_update_cpu_usage q = m_need_update_cpu_usage p" and "m_pid q = m_pid p"
    and "r = Inr v \<Longrightarrow> \<not> m_need_update_io q"
  using io_getter_frame [of "\<lambda>p. (m_need_update_io_read_usage p, m_need_update_io_write_usage p,
      m_need_update_cpu_usage p, m_pid p)" B w val p] assms
    io_group.getter_settles(1) [where reader = "readIo B w" and val = val and s = p and t = q and v = v]
  by (simp_all add: io_getter_def)

section \<open>Properties of the rates\<close>

text \<open>
  The second of two rates that are computed from one read of the counters is 0: the first one
  has already replaced the counters of the old state.
\<close>

lemma second_sample_zero:
  assumes "\<not> m_need_update_io q" and "map_pid_oldstate g (m_pid q) = Some old"
    and "m_io old = m_io q"
  shows "updateIoUsage (io_getter B w val) counter put (g, q) = ((g, put 0 q), Inr ())"
proof -
  have "io_getter B w val q = (q, Inr (val q))"
    using assms(1) by (simp add: io_getter_cases)
  moreover have "old\<lparr>m_io := m_io q\<rparr> = old"
    unfolding assms(3) [symmetric] by simp
  then have "(map_pid_oldstate g)(m_pid q \<mapsto> old\<lparr>m_io := m_io q\<rparr>) = map_pid_oldstate g"
    using assms(2) by auto
  ultimately show ?thesis
    using assms(2,3) by (simp add: updateIoUsage_later io_rate_def)
qed

text \<open>
  C25. The total rate is only the rate of the operand that is evaluated first: when both rates
  have to be computed, the other operand contributes 0, whatever the counters are.
\<close>

theorem ioTotalUsage_one_operand:
  assumes "m_need_update_io_read_usage p" and "m_need_update_io_write_usage p"
  shows "snd (ioTotalUsage read_first B w (g, p))
    = snd (if read_first then ioReadUsage B w (g, p) else ioWriteUsage B w (g, p))"
proof -
  obtain q r where get: "(if read_first then readBytes B w p else writeBytes B w p) = (q, r)"
    by fastforce
  note flags = io_getter_flags [of B w _ p q r] and bytes = readBytes_def writeBytes_def
  show ?thesis
  proof (cases r)
    case (Inl e)
    with get assms show ?thesis
      by (cases read_first) (simp_all add: ioReadUsage_def ioWriteUsage_def updateIoReadUsage_def
          updateIoWriteUsage_def getter_cases updateIoUsage_throws ioTotalUsage_def and_then_def)
  next
    case (Inr v)
    have keep: "m_need_update_io_read_usage q" "m_need_update_io_write_usage q" "\<not> m_need_update_io q"
      using get assms Inr flags by (cases read_first; simp add: bytes)+
    note samples = updateIoUsage_samples [where p = p and q = q and bytes = v and g = g]
    show ?thesis
    proof (cases read_first)
      case True
      with get Inr samples [of "readBytes B w" read_bytes "\<lambda>u p. p\<lparr>m_io_read_usage := u\<rparr>"]
      obtain old x where "m_io old = m_io q" "double_add x 0 = x"
        "updateIoReadUsage B w (g, p) = ((g\<lparr>map_pid_oldstate := (map_pid_oldstate g)(m_pid q \<mapsto> old)\<rparr>,
           q\<lparr>m_io_read_usage := x\<rparr>), Inr ())"
        by (auto simp: updateIoReadUsage_def)
      with True keep assms show ?thesis
        by (simp add: ioTotalUsage_def ioReadUsage_def ioWriteUsage_def getter_cases and_then_def
            updateIoWriteUsage_def bytes second_sample_zero returns_run)
    next
      case False
      with get Inr samples [of "writeBytes B w" write_bytes "\<lambda>u p. p\<lparr>m_io_write_usage := u\<rparr>"]
      obtain old x where "m_io old = m_io q" "double_add 0 x = x"
        "updateIoWriteUsage B w (g, p) = ((g\<lparr>map_pid_oldstate := (map_pid_oldstate g)(m_pid q \<mapsto> old)\<rparr>,
           q\<lparr>m_io_write_usage := x\<rparr>), Inr ())"
        by (auto simp: updateIoWriteUsage_def)
      with False keep assms show ?thesis
        by (simp add: ioTotalUsage_def ioReadUsage_def ioWriteUsage_def getter_cases and_then_def
            updateIoReadUsage_def bytes second_sample_zero returns_run)
    qed
  qed
qed

theorem ioTotalUsage_one_operand_witness:
  "\<forall>raw. snd (ioTotalUsage True reference_boost empty_world (initial_globals, ProcessInfo raw 7))
     = snd (ioReadUsage reference_boost empty_world (initial_globals, ProcessInfo raw 7))"
proof
  fix raw
  have "m_need_update_io_read_usage (ProcessInfo raw 7)" "m_need_update_io_write_usage (ProcessInfo raw 7)"
    by (simp_all add: ProcessInfo_def Let_def)
  from ioTotalUsage_one_operand [OF this, of True]
  show "snd (ioTotalUsage True reference_boost empty_world (initial_globals, ProcessInfo raw 7))
     = snd (ioReadUsage reference_boost empty_world (initial_globals, ProcessInfo raw 7))"
    by simp
qed

lemma uint_diff: "uint b \<le> uint a \<Longrightarrow> uint (a - b) = uint a - uint b" for a b :: "'a::len word"
  by (simp add: uint_sub_if')

lemma sint_diff:
  fixes a b :: "'a::len word"
  assumes "0 \<le> sint b" and "sint b \<le> sint a"
  shows "sint (a - b) = sint a - sint b"
proof -
  have "sint a - sint b < 2 ^ (LENGTH('a) - Suc 0)"
    using sint_less [of a] assms(1) by (simp only: One_nat_def)
  then show ?thesis
    using assms by (simp add: sint_word_ariths signed_take_bit_int_eq_self_iff)
qed

lemma io_sample:
  assumes "readIo B w p = (q, Inr ())" and "m_need_update_io p"
  shows "io_getter B w val p = (q\<lparr>m_need_update_io := False\<rparr>, Inr (val (q\<lparr>m_need_update_io := False\<rparr>)))"
    and "m_pid q = m_pid p" and "last_read (m_io q) = clock w"
  using assms readIo_frame [of m_pid B w p] readIo_last_read [of B w p]
  by (simp_all add: io_getter_cases)

text \<open>
  C4. A read rate that has an older sample to compare with, taken later and with a smaller or
  equal counter, is the number of bytes per second between the two samples, up to a relative
  error of \<open>2 ^ -50\<close>; the sample then replaces the older one, and the rest of the old state stays.
\<close>

theorem ioReadUsage_rate:
  assumes "m_need_update_io_read_usage p" and "m_need_update_io p"
    and "readIo B w p = (q, Inr ())" and "map_pid_oldstate g (m_pid p) = Some old"
    and "uint (read_bytes (m_io old)) \<le> uint (read_bytes (m_io q))"
    and "0 \<le> sint (last_read (m_io old))" and "sint (last_read (m_io old)) < sint (clock w)"
    and "x = of_int (uint (read_bytes (m_io q)) - uint (read_bytes (m_io old))) * 1000000000
      / of_int (sint (clock w) - sint (last_read (m_io old)))"
  shows "\<exists>g' p' v. ioReadUsage B w (g, p) = ((g', p'), Inr v) \<and> \<bar>v - x\<bar> \<le> x / 2 ^ 50
    \<and> map_pid_oldstate g' = (map_pid_oldstate g)(m_pid p \<mapsto> old\<lparr>m_io := m_io q\<rparr>)"
proof -
  note sample = io_sample [OF assms(3,2)]
  let ?n = "clock w - last_read (m_io old)"
  let ?d = "read_bytes (m_io q) - read_bytes (m_io old)"
  have n: "sint ?n = sint (clock w) - sint (last_read (m_io old))"
    using assms(6,7) by (intro sint_diff) simp_all
  with assms(7) have n0: "?n \<noteq> 0" by auto
  have "io_rate ?d ?n = double_div (double_of_int (uint ?d))
      (double_div (double_of_int (sint ?n)) (double_of_int 1000000000))"
    using n0 by (simp add: io_rate_def seconds_def)
  moreover have "x = of_int (uint ?d) * 1000000000 / of_int (sint ?n)"
    unfolding n uint_diff [OF assms(5)] by (rule assms(8))
  ultimately have "\<bar>io_rate ?d ?n - x\<bar> \<le> x / 2 ^ 50"
    using quotient_accuracy [of "uint ?d" "sint ?n"] n assms(7) by (simp del: of_int_sint of_int_uint)
  moreover have "updateIoReadUsage B w (g, p)
      = ((g\<lparr>map_pid_oldstate := (map_pid_oldstate g)(m_pid p \<mapsto> old\<lparr>m_io := m_io q\<rparr>)\<rparr>,
          (q\<lparr>m_need_update_io := False\<rparr>)\<lparr>m_io_read_usage := io_rate ?d ?n\<rparr>), Inr ())"
    unfolding updateIoReadUsage_def readBytes_def
    using updateIoUsage_later [where g = g and p = p and get_bytes = "io_getter B w (\<lambda>p. read_bytes (m_io p))"
        and old = old and counter = read_bytes, OF sample(1)] sample(2,3) assms(4) by simp
  ultimately show ?thesis
    using assms(1) by (simp add: ioReadUsage_def getter_cases)
qed

theorem ioReadUsage_rate_witness:
  "\<forall>raw. \<exists>v. snd (ioReadUsage reference_boost (io_world 4096 0 2000000000)
       (initial_globals\<lparr>map_pid_oldstate := [7 \<mapsto> (ProcessInfo raw 7)\<lparr>m_io :=
          \<lparr>rchar = 0, wchar = 0, syscr = 0, syscw = 0, read_bytes = 0, write_bytes = 0,
           cancelled_write_bytes = 0, last_read = 1000000000\<rparr>\<rparr>]\<rparr>, ProcessInfo raw 7)) = Inr v
     \<and> \<bar>v - 4096\<bar> \<le> 4096 / 2 ^ 50"
proof
  fix raw
  let ?p = "ProcessInfo raw 7"
  let ?old = "?p\<lparr>m_io := \<lparr>rchar = 0, wchar = 0, syscr = 0, syscw = 0, read_bytes = 0,
     write_bytes = 0, cancelled_write_bytes = 0, last_read = 1000000000\<rparr>\<rparr>"
  let ?g = "initial_globals\<lparr>map_pid_oldstate := [7 \<mapsto> ?old]\<rparr>"
  let ?w = "io_world 4096 0 2000000000"
  have flags: "m_need_update_io_read_usage ?p" "m_need_update_io ?p"
    by (simp_all add: ProcessInfo_def Let_def)
  have "map_pid_oldstate ?g (m_pid ?p) = Some ?old"
    by (simp add: ProcessInfo_def needUpdate_def Let_def)
  note rate = ioReadUsage_rate [OF flags io_world_read [OF constructed_path] this]
  have "clock ?w = 2000000000" by (simp add: io_world_def)
  then show "\<exists>v. snd (ioReadUsage reference_boost ?w (?g, ?p)) = Inr v \<and> \<bar>v - 4096\<bar> \<le> 4096 / 2 ^ 50"
    using rate [of 4096 0 2000000000 4096] by auto
qed

end
