(* ===== verification/Sampling.thy ===== *)
theory Sampling
  imports Usage
begin

text \<open>
  Sequences of samples: what the second processor sample of an object reports, what a
  processor sample reports after a rate has been sampled first, and that the rates of
  processes are never negative when each is sampled by one object at a time under a clock that
  never goes back.
\<close>

section \<open>One processor sample\<close>

definition cores_known :: "boost \<Rightarrow> world \<Rightarrow> globals \<Rightarrow> c_int \<Rightarrow> bool" where
  "cores_known B w g n \<longleftrightarrow>
     nb_core g = Some n \<or> nb_core g = None \<and> getNbCores B w = Inr n"

lemma init_nb_core_run:
  "cores_known B w g n \<Longrightarrow> init_nb_core B w (g, p) = ((g\<lparr>nb_core := Some n\<rparr>, p), Inr n)"
  by (cases g) (auto simp: cores_known_def init_nb_core_def)

definition process_time :: "process_info \<Rightarrow> c_ull" where
  "process_time p = m_utime p + m_stime p"

lemma updateCPUUsage_first:
  assumes "cores_known B w g n" and "q = stat_view w p" and "map_pid_oldstate g (m_pid q) = None"
    and "q' = q\<lparr>m_last_cpu_total_time := cpuTotalTime raw w,
                m_last_process_total_time := process_time q\<rparr>"
  shows "updateCPUUsage raw B w (g, p)
    = ((\<lparr>map_pid_oldstate = (map_pid_oldstate g)(m_pid q \<mapsto> q'), nb_core = Some n\<rparr>,
        q'\<lparr>m_cpu_usage := 0\<rparr>), Inr ())"
  using assms init_nb_core_run [OF assms(1), of p]
  by (cases g) (simp add: updateCPUUsage_def and_then_def on_process_def utime_def stime_def
      stat_getter_view stat_view_settled process_time_def Let_def)

lemma updateCPUUsage_later:
  assumes "cores_known B w g n" and "q = stat_view w p" and "map_pid_oldstate g (m_pid q) = Some old"
    and "usage = (if cpuTotalTime raw w = m_last_cpu_total_time old then 0
      else cpu_percentage n (process_time q - m_last_process_total_time old)
             (cpuTotalTime raw w - m_last_cpu_total_time old))"
  shows "updateCPUUsage raw B w (g, p)
    = ((\<lparr>map_pid_oldstate = (map_pid_oldstate g)(m_pid q \<mapsto> old\<lparr>m_last_cpu_total_time :=
            cpuTotalTime raw w, m_last_process_total_time := process_time q\<rparr>), nb_core = Some n\<rparr>,
        q\<lparr>m_cpu_usage := usage\<rparr>), Inr ())"
  using assms init_nb_core_run [OF assms(1), of p]
  by (cases g) (simp add: updateCPUUsage_def and_then_def on_process_def utime_def stime_def
      stat_getter_view stat_view_settled process_time_def Let_def)

lemma updateCPUUsage_throws:
  assumes "nb_core g = None" and "getNbCores B w = Inl e"
  shows "updateCPUUsage raw B w (g, p) = ((g, p), Inl e)"
  using assms by (simp add: updateCPUUsage_def init_nb_core_def and_then_def)

section \<open>What the kernel shows\<close>

text \<open>
  The two files a processor sample reads, for a process with the members of \<open>q\<close> and a sum
  \<open>ticks\<close> of the first four counters of the processors.
\<close>

definition cpu_file :: "c_ull \<Rightarrow> c_ull \<Rightarrow> c_ull \<Rightarrow> c_ull \<Rightarrow> string \<Rightarrow> string" where
  "cpu_file u n s i rest = ''cpu '' @ '' '' @ int_str (uint u) @ '' '' @ int_str (uint n)
     @ '' '' @ int_str (uint s) @ '' '' @ int_str (uint i) @ '' '' @ rest"

lemma cpuTotalTime_file:
  assumes "files w ''/proc/stat'' = Some (cpu_file u n s i rest)"
  shows "cpuTotalTime raw w = u + n + s + i"
proof -
  obtain r where r: "r = CHR '' '' # int_str (uint u) @ CHR '' '' # int_str (uint n)
     @ CHR '' '' # int_str (uint s) @ CHR '' '' # int_str (uint i) @ CHR '' '' # rest" by simp
  obtain whole where whole: "whole = ''cpu'' @ CHR '' '' # r" by simp
  have stat_file: "ifstream w ''/proc/stat'' = istringstream whole"
    by (simp add: ifstream_def assms open_file_Some cpu_file_def r whole)
  have tag: "extract_string (istringstream whole) [] = (istringstream (CHR '' '' # r), ''cpu'')"
    unfolding whole using extract_string_word [of "[]" "''cpu''" "CHR '' '' # r" "[]"] by (simp add: is_space_def)
  have num: "extract_unsigned (istringstream (CHR '' '' # int_str (uint v) @ CHR '' '' # t)) old
      = (istringstream (CHR '' '' # t), v)" for v :: c_ull and t old
    using extract_unsigned_spaced [of "CHR '' '' # t" v old] by simp
  have first: "extract_unsigned (istringstream (CHR '' '' # CHR '' '' # int_str (uint u) @ CHR '' '' # t)) old
      = (istringstream (CHR '' '' # t), u)" for t old
    using extract_unsigned_int_str [of "''  ''" "CHR '' '' # t" u old] by simp
  show ?thesis
    by (cases raw) (simp add: cpuTotalTime_def stat_file tag Let_def, simp add: r first num)
qed

definition kernel_shows :: "world \<Rightarrow> string \<Rightarrow> process_info \<Rightarrow> c_ull \<Rightarrow> bool" where
  "kernel_shows w path q ticks \<longleftrightarrow>
     (\<exists>comm st. files w (path @ ''stat'') = Some (proc_stat_line q comm st)
        \<and> (\<forall>c \<in> set comm. \<not> is_space c) \<and> set comm \<inter> set ''()'' = {} \<and> plain_word st)
   \<and> (\<exists>u n s i rest. files w ''/proc/stat'' = Some (cpu_file u n s i rest) \<and> ticks = u + n + s + i)"

lemma kernel_shows_sample:
  assumes "kernel_shows w (m_proc_path p) q ticks" and "m_need_update_stat p"
  shows "m_pid (stat_view w p) = m_pid q" and "process_time (stat_view w p) = process_time q"
    and "cpuTotalTime raw w = ticks"
proof -
  from assms(1) obtain comm st where
    line: "files w (m_proc_path p @ ''stat'') = Some (proc_stat_line q comm st)"
      "\<forall>c \<in> set comm. \<not> is_space c" "set comm \<inter> set ''()'' = {}" "plain_word st"
    by (auto simp: kernel_shows_def)
  from readStat_line [OF this]
  show "m_pid (stat_view w p) = m_pid q" "process_time (stat_view w p) = process_time q"
    using assms(2) by (simp_all add: stat_view_def process_time_def stat_fields_def)
  from assms(1) show "cpuTotalTime raw w = ticks"
    by (auto simp: kernel_shows_def cpuTotalTime_file)
qed

section \<open>Two processor samples\<close>

lemma uint_nonneg_sint: "0 \<le> sint w \<Longrightarrow> uint w = sint w" for w :: "'a::len word"
proof -
  assume "0 \<le> sint w"
  moreover have "sint w < 2 ^ (LENGTH('a) - 1)" using sint_less [of w] by simp
  moreover have "(2 :: int) ^ (LENGTH('a) - 1) \<le> 2 ^ LENGTH('a)" by (intro power_increasing) simp_all
  ultimately show ?thesis
    unfolding uint_sint by (intro take_bit_int_eq_self) linarith+
qed

lemma sint_uint_small: "uint w < 2 ^ (LENGTH('a) - 1) \<Longrightarrow> sint w = uint w" for w :: "'a::len word"
proof -
  assume "uint w < 2 ^ (LENGTH('a) - 1)"
  moreover have "- (2 ^ (LENGTH('a) - 1)) \<le> uint w"
    using uint_ge_0 [of w] by (smt (verit) zero_le_power)
  ultimately show ?thesis
    unfolding sint_uint One_nat_def by (intro signed_take_bit_int_eq_self)
qed

lemma cpu_percentage_exact:
  assumes "0 \<le> sint n" and "100 * sint n \<le> 2147483647" and "0 < uint c" and "uint d \<le> uint c"
    and "100 * sint n * uint d < 2 ^ 64"
  shows "sint (cpu_percentage n d c) = 100 * sint n * uint d div uint c"
    and "sint (cpu_percentage n d c) \<le> 100 * sint n"
proof -
  have "sint (100 * n) = signed_take_bit 31 (100 * sint n)"
    by (simp add: sint_word_ariths)
  also have "\<dots> = 100 * sint n"
    using assms(1,2) by (intro signed_take_bit_int_eq_self) simp_all
  finally have s: "sint (100 * n) = 100 * sint n" .
  have "sint (scast (100 * n) :: c_ull) = sint (100 * n)"
    using s assms(1,2) by (simp add: signed_scast_eq signed_take_bit_int_eq_self)
  then have u: "uint (scast (100 * n) :: c_ull) = 100 * sint n"
    using s assms(1) by (subst uint_nonneg_sint) simp_all
  let ?m = "scast (100 * n) * d"
  have m: "uint ?m = 100 * sint n * uint d"
    using assms(1,5) u using uint_mult_lem [of "scast (100 * n) :: c_ull" d] by (simp del: mult.assoc)
  let ?x = "100 * sint n * uint d div uint c"
  have "100 * sint n * uint d \<le> 100 * sint n * uint c"
    using assms(1,4) by (simp add: mult_left_mono)
  then have le: "?x \<le> 100 * sint n"
    using zdiv_mono1 [of _ "100 * sint n * uint c" "uint c"] assms(3) by fastforce
  have ge: "0 \<le> ?x" using assms(1,3) by (simp add: pos_imp_zdiv_nonneg_iff)
  have "uint (cpu_percentage n d c) = ?x"
    unfolding cpu_percentage_def
    using le ge assms(2) by (simp add: unsigned_ucast_eq uint_div m take_bit_int_eq_self)
  moreover have "?x < 2 ^ (LENGTH(32) - 1)" using le assms(2) by simp
  ultimately show "sint (cpu_percentage n d c) = ?x"
    using sint_uint_small [of "cpu_percentage n d c"] by simp
  with le show "sint (cpu_percentage n d c) \<le> 100 * sint n" by simp
qed
text \<open>
  C1. An object whose pid has not been seen reports a usage of 0 at its first processor
  sample.  Its second sample, after \<open>needUpdate\<close>, reports the share of the ticks of all
  processors that the process used between the two samples, in percent and times the number
  of cores, rounded down; it is at most 100 times the number of cores.
\<close>

theorem cpuUsage_two_samples:
  assumes "kernel_shows w1 (m_proc_path p) q1 c1" and "kernel_shows w2 (m_proc_path p) q2 c2"
    and "m_pid q2 = m_pid q1" and "map_pid_oldstate g (m_pid q1) = None"
    and "cores_known B w1 g n" and "0 \<le> sint n" and "100 * sint n \<le> 2147483647"
    and "t = uint (process_time q2) - uint (process_time q1)" and "c = uint c2 - uint c1"
    and "0 \<le> t" and "t \<le> c" and "0 < c" and "100 * sint n * t < 2 ^ 64"
  shows "\<exists>g1 p1 g2 p2 v. cpuUsage raw1 B w1 (g, needUpdate p) = ((g1, p1), Inr 0)
    \<and> cpuUsage raw2 B w2 (g1, needUpdate p1) = ((g2, p2), Inr v)
    \<and> sint v = 100 * sint n * t div c \<and> 0 \<le> sint v \<and> sint v \<le> 100 * sint n"
proof -
  have path: "m_proc_path (needUpdate r) = m_proc_path r" for r
    by (simp add: needUpdate_def)
  let ?q = "stat_view w1 (needUpdate p)"
  let ?q' = "?q\<lparr>m_last_cpu_total_time := c1, m_last_process_total_time := process_time q1\<rparr>"
  let ?g1 = "\<lparr>map_pid_oldstate = (map_pid_oldstate g)(m_pid q1 \<mapsto> ?q'), nb_core = Some n\<rparr>"
  let ?p1 = "?q'\<lparr>m_cpu_usage := 0, m_need_update_cpu_usage := False\<rparr>"
  have s1: "m_pid ?q = m_pid q1" "process_time ?q = process_time q1" "cpuTotalTime raw1 w1 = c1"
    using kernel_shows_sample [of w1 "needUpdate p" q1 c1] assms(1) by (simp_all add: path)
  have first: "cpuUsage raw1 B w1 (g, needUpdate p) = ((?g1, ?p1), Inr 0)"
    using updateCPUUsage_first [OF assms(5) refl, where raw = raw1] s1 assms(4)
    by (simp add: cpuUsage_def getter_cases)
  have p1: "m_proc_path ?p1 = m_proc_path p"
    by (simp add: stat_view_keeps path)
  let ?r = "stat_view w2 (needUpdate ?p1)"
  have s2: "m_pid ?r = m_pid q1" "process_time ?r = process_time q2" "cpuTotalTime raw2 w2 = c2"
    using kernel_shows_sample [of w2 "needUpdate ?p1" q2 c2] assms(2,3)
    by (simp_all add: path p1 del: simp_thms)
  have d: "uint (process_time q2 - process_time q1) = t" "uint (c2 - c1) = c"
    using assms(8-12) by (simp_all add: uint_diff)
  with assms(12) have "c2 \<noteq> c1" by auto
  let ?v = "cpu_percentage n (process_time q2 - process_time q1) (c2 - c1)"
  have "cores_known B w2 ?g1 n" by (simp add: cores_known_def)
  from updateCPUUsage_later [OF this refl, where raw = raw2 and old = ?q']
  have "\<exists>g2 p2. cpuUsage raw2 B w2 (?g1, needUpdate ?p1) = ((g2, p2), Inr ?v)"
    using s2 \<open>c2 \<noteq> c1\<close> by (simp add: cpuUsage_def getter_cases)
  moreover have "sint ?v = 100 * sint n * t div c" "sint ?v \<le> 100 * sint n"
    using cpu_percentage_exact [OF assms(6,7), of "c2 - c1" "process_time q2 - process_time q1"]
      d assms(8-13) by simp_all
  moreover have "0 \<le> 100 * sint n * t div c"
    using assms by (simp add: pos_imp_zdiv_nonneg_iff)
  ultimately show ?thesis
    using first by metis
qed

definition sample_world :: "process_info \<Rightarrow> c_ull \<Rightarrow> world" where
  "sample_world q u = empty_world\<lparr>files := [''/proc/7/stat'' \<mapsto> proc_stat_line q ''a'' ''R'',
     ''/proc/stat'' \<mapsto> cpu_file u 0 0 0 []]\<rparr>"

lemma sample_world_shows: "kernel_shows (sample_world q u) ''/proc/7/'' q u"
  unfolding kernel_shows_def
proof (intro conjI exI)
  show "files (sample_world q u) ''/proc/stat'' = Some (cpu_file u 0 0 0 [])"
    by (simp add: sample_world_def)
  show "files (sample_world q u) (''/proc/7/'' @ ''stat'') = Some (proc_stat_line q ''a'' ''R'')"
    by (simp add: sample_world_def)
qed (simp_all add: plain_word_def is_space_def)

theorem cpuUsage_two_samples_witness:
  "\<forall>raw junk. \<exists>g1 p1 g2 p2 v.
     cpuUsage junk reference_boost (sample_world ((ProcessInfo raw 7)\<lparr>m_utime := 10, m_stime := 0\<rparr>) 100)
       (initial_globals\<lparr>nb_core := Some 2\<rparr>, needUpdate (ProcessInfo raw 7)) = ((g1, p1), Inr 0)
   \<and> cpuUsage junk reference_boost (sample_world ((ProcessInfo raw 7)\<lparr>m_utime := 50, m_stime := 10\<rparr>) 200)
       (g1, needUpdate p1) = ((g2, p2), Inr v) \<and> sint v = 100"
proof (intro allI)
  fix raw junk
  let ?p = "ProcessInfo raw 7" and ?g = "initial_globals\<lparr>nb_core := Some 2\<rparr>"
  let ?q1 = "?p\<lparr>m_utime := 10, m_stime := 0\<rparr>" and ?q2 = "?p\<lparr>m_utime := 50, m_stime := 10\<rparr>"
  note shows1 = sample_world_shows [of ?q1 100, folded constructed_path [of raw]]
  note shows2 = sample_world_shows [of ?q2 200, folded constructed_path [of raw]]
  have g: "map_pid_oldstate ?g (m_pid ?q1) = None" "cores_known reference_boost w ?g 2" for w
    by (simp_all add: initial_globals_def cores_known_def)
  have t: "50 = uint (process_time ?q2) - uint (process_time ?q1)" "100 = uint (200 :: c_ull) - uint (100 :: c_ull)"
    by (simp_all add: process_time_def)
  have "m_pid ?q2 = m_pid ?q1" "0 \<le> sint (2 :: c_int)" "100 * sint (2 :: c_int) \<le> 2147483647" by simp_all
  note facts = cpuUsage_two_samples [OF shows1 shows2 this(1) g this(2,3) t]
  have n: "0 \<le> (50 :: int)" "50 \<le> (100 :: int)" "0 < (100 :: int)" "100 * sint (2 :: c_int) * 50 < 2 ^ 64"
    by simp_all
  from facts [OF n, of junk junk]
  show "\<exists>g1 p1 g2 p2 v.
     cpuUsage junk reference_boost (sample_world ?q1 100) (?g, needUpdate ?p) = ((g1, p1), Inr 0)
   \<and> cpuUsage junk reference_boost (sample_world ?q2 200) (g1, needUpdate p1) = ((g2, p2), Inr v)
   \<and> sint v = 100"
    by (elim exE conjE) (intro exI conjI, assumption, assumption, simp)
qed

text \<open>
  C21. The usage belongs to the pid and not to the object: two objects with the same path report
  the same at the same moment, whatever they have read before, and once the pid has been
  sampled they leave the same samples.  A new object of a pid that is used again is so
  measured against the last sample of the process that had the pid before.
\<close>

theorem cpuUsage_any_object:
  assumes "kernel_shows w (m_proc_path p) q ticks" and "m_proc_path p' = m_proc_path p"
  shows "snd (cpuUsage raw B w (g, needUpdate p)) = snd (cpuUsage raw' B w (g, needUpdate p'))
    \<and> (map_pid_oldstate g (m_pid q) \<noteq> None \<longrightarrow>
       fst (fst (cpuUsage raw B w (g, needUpdate p))) = fst (fst (cpuUsage raw' B w (g, needUpdate p'))))"
proof -
  have shows': "kernel_shows w (m_proc_path (needUpdate p)) q ticks"
      "kernel_shows w (m_proc_path (needUpdate p')) q ticks"
    using assms by (simp_all add: needUpdate_def)
  note sample = kernel_shows_sample [OF shows'(1)] kernel_shows_sample [OF shows'(2)]
  show ?thesis
  proof (cases "\<exists>n. cores_known B w g n")
    case False
    then obtain e where "nb_core g = None" "getNbCores B w = Inl e"
      by (cases "nb_core g"; cases "getNbCores B w") (auto simp: cores_known_def)
    then show ?thesis
      by (simp add: cpuUsage_def getter_cases updateCPUUsage_throws needUpdate_flags)
  next
    case True
    then obtain n where n: "cores_known B w g n" by blast
    show ?thesis
    proof (cases "map_pid_oldstate g (m_pid q)")
      case None
      then show ?thesis
        using updateCPUUsage_first [OF n refl _ refl, of "needUpdate p" raw]
          updateCPUUsage_first [OF n refl _ refl, of "needUpdate p'" raw'] sample
        by (simp add: cpuUsage_def getter_cases needUpdate_flags)
    next
      case (Some old)
      then show ?thesis
        using updateCPUUsage_later [OF n refl _ refl, of "needUpdate p" old raw]
          updateCPUUsage_later [OF n refl _ refl, of "needUpdate p'" old raw'] sample
        by (simp add: cpuUsage_def getter_cases needUpdate_flags)
    qed
  qed
qed

theorem cpuUsage_any_object_witness:
  "\<forall>raw q g junk. snd (cpuUsage junk reference_boost (sample_world q 100) (g, needUpdate (ProcessInfo raw 7)))
    = snd (cpuUsage junk reference_boost (sample_world q 100)
        (g, needUpdate ((ProcessInfo raw 7)\<lparr>m_utime := 9, m_name := ''old''\<rparr>)))"
proof (intro allI)
  fix raw q g junk
  let ?p = "(ProcessInfo raw 7)\<lparr>m_utime := 9, m_name := ''old''\<rparr>"
  have "m_proc_path ?p = m_proc_path (ProcessInfo raw 7)" by simp
  from conjunct1 [OF cpuUsage_any_object [OF sample_world_shows [of q 100, folded constructed_path [of raw]] this]]
  show "snd (cpuUsage junk reference_boost (sample_world q 100) (g, needUpdate (ProcessInfo raw 7)))
    = snd (cpuUsage junk reference_boost (sample_world q 100) (g, needUpdate ?p))" .
qed

text \<open>
  C34. An object that samples a rate before its first processor sample has inserted a copy whose
  two last times were never assigned: its first processor usage is not 0 but compares the
  present times with what the memory of the object held when it was constructed.
\<close>

theorem cpuUsage_after_rate_uninitialised:
  assumes "readIo B w1 (ProcessInfo raw n_pid) = (q, Inr ())" and "map_pid_oldstate g n_pid = None"
    and "ioReadUsage B w1 (g, ProcessInfo raw n_pid) = ((g1, p1), r)"
    and "kernel_shows w2 (m_proc_path p1) q2 c2" and "m_pid q2 = n_pid"
    and "cores_known B w2 g1 n"
  shows "r = Inr 0
    \<and> snd (cpuUsage junk B w2 (g1, p1)) = Inr (if c2 = m_last_cpu_total_time raw then 0
        else cpu_percentage n (process_time q2 - m_last_process_total_time raw)
               (c2 - m_last_cpu_total_time raw))"
proof -
  let ?p = "ProcessInfo raw n_pid"
  have flags: "m_need_update_io_read_usage ?p" "m_need_update_io ?p" "m_need_update_cpu_usage ?p"
      "m_need_update_stat ?p"
    and pid: "m_pid ?p = n_pid" and last: "m_last_cpu_total_time ?p = m_last_cpu_total_time raw"
      "m_last_process_total_time ?p = m_last_process_total_time raw"
    by (simp_all add: ProcessInfo_def needUpdate_def fresh_process_def Let_def)
  define view where "view p = (m_need_update_io_read_usage p, m_need_update_cpu_usage p, m_need_update_stat p,
     m_pid p, m_last_cpu_total_time p, m_last_process_total_time p)" for p :: process_info
  have q: "view q = view ?p"
    using readIo_frame [of view B w1 ?p] assms(1) by (simp add: view_def)
  let ?q = "q\<lparr>m_need_update_io := False\<rparr>"
  have get: "readBytes B w1 ?p = (?q, Inr (read_bytes (m_io ?q)))"
    unfolding readBytes_def by (rule io_sample(1) [OF assms(1) flags(2)])
  have "map_pid_oldstate g (m_pid ?q) = None"
    using q pid assms(2) by (simp add: view_def)
  from updateIoUsage_first [where get_bytes = "readBytes B w1" and p = ?p and q = ?q and g = g
      and counter = read_bytes and put = "\<lambda>u p. p\<lparr>m_io_read_usage := u\<rparr>",
      OF _ this, OF get]
  have upd: "updateIoReadUsage B w1 (g, ?p)
    = ((g\<lparr>map_pid_oldstate := (map_pid_oldstate g)(n_pid \<mapsto> ?q)\<rparr>, ?q\<lparr>m_io_read_usage := 0\<rparr>), Inr ())"
    using q pid by (simp add: updateIoReadUsage_def view_def)
  then have st: "r = Inr 0" "g1 = g\<lparr>map_pid_oldstate := (map_pid_oldstate g)(n_pid \<mapsto> ?q)\<rparr>"
    "p1 = ?q\<lparr>m_io_read_usage := 0, m_need_update_io_read_usage := False\<rparr>"
    using assms(3) flags by (simp_all add: ioReadUsage_def getter_cases)
  have "m_need_update_stat p1" "m_need_update_cpu_usage p1"
    using q flags by (simp_all add: st view_def)
  note s = kernel_shows_sample [OF assms(4) this(1)] and cpu = this(2)
  have "map_pid_oldstate g1 (m_pid (stat_view w2 p1)) = Some ?q"
    using s(1) assms(5) by (simp add: st)
  from updateCPUUsage_later [OF assms(6) refl this refl, of junk]
  show ?thesis
    using st(1) cpu s q last by (simp add: cpuUsage_def getter_cases view_def)
qed

theorem cpuUsage_after_rate_uninitialised_witness:
  "\<forall>raw junk. snd (cpuUsage junk reference_boost
       (sample_world ((ProcessInfo raw 7)\<lparr>m_utime := 50, m_stime := 10\<rparr>) 200)
       (fst (ioReadUsage reference_boost (io_world 4096 0 1000)
          (initial_globals\<lparr>nb_core := Some 2\<rparr>, ProcessInfo raw 7))))
     = Inr (if 200 = m_last_cpu_total_time raw then 0
        else cpu_percentage 2 (60 - m_last_process_total_time raw) (200 - m_last_cpu_total_time raw))"
proof (intro allI)
  fix raw junk
  let ?p = "ProcessInfo raw 7" and ?g = "initial_globals\<lparr>nb_core := Some 2\<rparr>"
  let ?q2 = "?p\<lparr>m_utime := 50, m_stime := 10\<rparr>"
  obtain g1 p1 r where io: "ioReadUsage reference_boost (io_world 4096 0 1000) (?g, ?p) = ((g1, p1), r)"
    by (metis prod.exhaust)
  have read: "readIo reference_boost (io_world 4096 0 1000) ?p = (?p\<lparr>m_io := \<lparr>rchar = 0, wchar = 0,
    syscr = 0, syscw = 0, read_bytes = of_nat 4096, write_bytes = of_nat 0,
    cancelled_write_bytes = 0, last_read = 1000\<rparr>\<rparr>, Inr ())"
    by (rule io_world_read [OF constructed_path]) simp_all
  have g0: "map_pid_oldstate ?g 7 = None" by (simp add: initial_globals_def)
  have flags: "m_need_update_io_read_usage ?p" "m_need_update_io ?p"
    by (simp_all add: ProcessInfo_def Let_def)
  have "m_proc_path p1 = ''/proc/7/'' \<and> nb_core g1 = Some 2"
    using io flags read
    by (auto simp: ioReadUsage_def getter_cases updateIoReadUsage_def updateIoUsage_def readBytes_def
        io_getter_cases on_process_def Let_def constructed_path split: option.splits)
  then have "kernel_shows (sample_world ?q2 200) (m_proc_path p1) ?q2 200"
      and "cores_known reference_boost (sample_world ?q2 200) g1 2"
    by (simp_all add: sample_world_shows cores_known_def)
  from cpuUsage_after_rate_uninitialised [OF read g0 io this(1) _ this(2), of junk] io
  show "snd (cpuUsage junk reference_boost (sample_world ?q2 200)
       (fst (ioReadUsage reference_boost (io_world 4096 0 1000) (?g, ?p))))
     = Inr (if 200 = m_last_cpu_total_time raw then 0
        else cpu_percentage 2 (60 - m_last_process_total_time raw) (200 - m_last_cpu_total_time raw))"
    by (simp add: ProcessInfo_def needUpdate_def Let_def process_time_def)
qed

section \<open>Sampled objects under a clock that never goes back\<close>

text \<open>
  What a monitor does with its objects: it invalidates them and asks for their values, each call
  in the world of its own time.  All stat getters leave the same object, so one stands for them.
\<close>

datatype request =
    Invalidate
  | Stat_value
  | Bytes_read
  | Bytes_written
  | Read_rate
  | Write_rate
  | Total_rate bool
  | Cpu_share "c_ull \<times> c_ull \<times> c_ull"

datatype reply = Done | Count "c_ulong outcome" | Rate "double outcome" | Share "c_int outcome"

fun serve :: "boost \<Rightarrow> world \<Rightarrow> request \<Rightarrow> usage_state \<Rightarrow> usage_state \<times> reply" where
  "serve B w Invalidate s = ((fst s, needUpdate (snd s)), Done)"
| "serve B w Stat_value s = ((fst s, fst (ppid w (snd s))), Done)"
| "serve B w Bytes_read s = map_prod id Count (on_process (readBytes B w) s)"
| "serve B w Bytes_written s = map_prod id Count (on_process (writeBytes B w) s)"
| "serve B w Read_rate s = map_prod id Rate (ioReadUsage B w s)"
| "serve B w Write_rate s = map_prod id Rate (ioWriteUsage B w s)"
| "serve B w (Total_rate read_first) s = map_prod id Rate (ioTotalUsage read_first B w s)"
| "serve B w (Cpu_share raw) s = map_prod id Share (cpuUsage raw B w s)"

text \<open>
  The monitor has any number of objects, at most one of a pid at a time: it constructs and
  destroys them, so a pid can be sampled by one object after another.  The stat file of a
  process shows its own pid, or is not there.
\<close>

inductive monitor :: "boost \<Rightarrow> int \<Rightarrow> globals \<Rightarrow> (c_int \<rightharpoonup> process_info) \<Rightarrow> bool" for B where
  monitor_start: "monitor B 0 initial_globals Map.empty"
| monitor_create: "monitor B now g objs \<Longrightarrow> objs k = None \<Longrightarrow>
    monitor B now g (objs(k \<mapsto> ProcessInfo raw k))"
| monitor_destroy: "monitor B now g objs \<Longrightarrow> monitor B now g (objs(k := None))"
| monitor_serve: "monitor B now g objs \<Longrightarrow> objs k = Some p \<Longrightarrow> now \<le> sint (clock w) \<Longrightarrow>
    m_pid (stat_view w p) = m_pid p \<Longrightarrow> serve B w r (g, p) = ((g', p'), a) \<Longrightarrow>
    monitor B (sint (clock w)) g' (objs(k \<mapsto> p'))"

inductive_cases monitorE: "monitor B now g objs"

text \<open>
  The invariant: no time is in the future, and an object whose counters are up to date has read
  them no earlier than the old state of its pid; a rate whose flag is clear is not negative.
\<close>

abbreviation read_at :: "process_info \<Rightarrow> int" where
  "read_at p \<equiv> sint (last_read (m_io p))"

definition olds_ordered :: "int \<Rightarrow> globals \<Rightarrow> bool" where
  "olds_ordered now g \<longleftrightarrow>
     (\<forall>k old. map_pid_oldstate g k = Some old \<longrightarrow> 0 \<le> read_at old \<and> read_at old \<le> now)"

definition times_ordered :: "int \<Rightarrow> usage_state \<Rightarrow> bool" where
  "times_ordered now = (\<lambda>(g, p). 0 \<le> read_at p \<and> read_at p \<le> now \<and> olds_ordered now g
     \<and> (m_need_update_io p \<or>
        (\<forall>old. map_pid_oldstate g (m_pid p) = Some old \<longrightarrow> read_at old \<le> read_at p)))"

definition rates_ok :: "process_info \<Rightarrow> bool" where
  "rates_ok p \<longleftrightarrow> (\<not> m_need_update_io_read_usage p \<longrightarrow> 0 \<le> m_io_read_usage p)
     \<and> (\<not> m_need_update_io_write_usage p \<longrightarrow> 0 \<le> m_io_write_usage p)"

definition rate_view where
  "rate_view p = (m_need_update_io_read_usage p, m_io_read_usage p,
     m_need_update_io_write_usage p, m_io_write_usage p)"

lemma rates_ok_view: "rate_view q = rate_view p \<Longrightarrow> rates_ok q = rates_ok p"
  by (simp add: rates_ok_def rate_view_def)

text \<open>An operation on an object keeps its pid and touches only the old state of that pid.\<close>

definition own_entry :: "usage_state \<Rightarrow> usage_state \<Rightarrow> bool" where
  "own_entry = (\<lambda>(g, p) (g', p'). m_pid p' = m_pid p
     \<and> (\<forall>k. k \<noteq> m_pid p \<longrightarrow> map_pid_oldstate g' k = map_pid_oldstate g k))"

lemma own_entry_refl: "own_entry s s"
  by (simp add: own_entry_def split_beta)

lemma own_entry_trans: "own_entry s t \<Longrightarrow> own_entry t u \<Longrightarrow> own_entry s u"
  by (auto simp: own_entry_def split_beta)

definition monitor_ok :: "int \<Rightarrow> usage_state \<Rightarrow> bool" where
  "monitor_ok now s \<longleftrightarrow> times_ordered now s \<and> rates_ok (snd s)"

lemma monitor_ok_later: "monitor_ok now s \<Longrightarrow> now \<le> now' \<Longrightarrow> monitor_ok now' s"
  by (force simp: monitor_ok_def times_ordered_def olds_ordered_def)

lemma io_rate_nonneg:
  assumes "0 \<le> sint b" and "sint b \<le> sint a"
  shows "0 \<le> io_rate d (a - b)"
proof -
  have "0 \<le> seconds (a - b)"
    using assms by (simp add: seconds_def sint_diff double_div_nonneg double_of_int_nonneg)
  then show ?thesis
    by (simp add: io_rate_def double_div_nonneg double_of_int_nonneg)
qed

lemma io_getter_effect:
  assumes "io_getter B w val p = (q, r)" and "times_ordered now (g, p)" and "now \<le> sint (clock w)"
  shows "times_ordered (sint (clock w)) (g, q)" and "rate_view q = rate_view p" and "m_pid q = m_pid p"
    and "r = Inr v \<Longrightarrow> \<not> m_need_update_io q"
proof -
  have later: "olds_ordered (sint (clock w)) g"
    using assms(2,3) by (force simp: times_ordered_def olds_ordered_def)
  show pid: "m_pid q = m_pid p" and "r = Inr v \<Longrightarrow> \<not> m_need_update_io q"
    using io_getter_flags [OF assms(1)] by simp_all
  show "times_ordered (sint (clock w)) (g, q)"
  proof (cases "m_need_update_io p")
    case True
    then have "last_read (m_io q) = clock w"
      using assms(1) readIo_last_read [of B w p]
      by (auto simp: io_getter_cases split: if_splits prod.splits sum.splits)
    with later assms(2,3) show ?thesis by (auto simp: times_ordered_def olds_ordered_def)
  next
    case False
    then have "q = p" using assms(1) by (simp add: io_getter_cases)
    with later assms(2,3) show ?thesis by (auto simp: times_ordered_def)
  qed
  show "rate_view q = rate_view p"
    using io_getter_frame [of rate_view B w val p] assms(1) by (simp add: rate_view_def)
qed

lemma olds_ordered_upd:
  "olds_ordered now g \<Longrightarrow> 0 \<le> read_at old \<Longrightarrow> read_at old \<le> now \<Longrightarrow>
   olds_ordered now (g\<lparr>map_pid_oldstate := (map_pid_oldstate g)(k \<mapsto> old)\<rparr>)"
  by (simp add: olds_ordered_def)

lemma updateIoUsage_effect:
  assumes "updateIoUsage (io_getter B w val) counter put (g, p) = ((g', p'), r)"
    and "times_ordered now (g, p)" and "now \<le> sint (clock w)"
    and "\<And>u q. m_io (put u q) = m_io q \<and> m_pid (put u q) = m_pid q
      \<and> m_need_update_io (put u q) = m_need_update_io q"
  shows "times_ordered (sint (clock w)) (g', p') \<and> own_entry (g, p) (g', p')
    \<and> (\<exists>q. rate_view q = rate_view p
         \<and> (case r of Inl e \<Rightarrow> p' = q | Inr _ \<Rightarrow> (\<exists>u \<ge> 0. p' = put u q)))"
proof -
  obtain q x where get: "io_getter B w val p = (q, x)" by fastforce
  note ord = io_getter_effect(1) [OF get assms(2,3)] and vw = io_getter_effect(2,3) [OF get assms(2,3)]
  show ?thesis
  proof (cases x)
    case (Inl e)
    with get assms(1) ord vw show ?thesis by (auto simp: updateIoUsage_throws own_entry_def)
  next
    case (Inr bytes)
    have fresh: "\<not> m_need_update_io q" by (rule io_getter_effect(4) [OF get assms(2,3) Inr])
    show ?thesis
    proof (cases "map_pid_oldstate g (m_pid q)")
      case None
      with get Inr assms(1) have "g' = g\<lparr>map_pid_oldstate := (map_pid_oldstate g)(m_pid q \<mapsto> q)\<rparr>"
        "p' = put 0 q" "r = Inr ()"
        by (simp_all add: updateIoUsage_first)
      with ord vw show ?thesis
        by (auto simp: times_ordered_def own_entry_def assms(4) intro!: olds_ordered_upd)
    next
      case (Some old)
      let ?u = "io_rate (bytes - counter (m_io old)) (last_read (m_io q) - last_read (m_io old))"
      from Some get Inr assms(1) have
        "g' = g\<lparr>map_pid_oldstate := (map_pid_oldstate g)(m_pid q \<mapsto> old\<lparr>m_io := m_io q\<rparr>)\<rparr>"
        "p' = put ?u q" "r = Inr ()"
        by (simp_all add: updateIoUsage_later)
      moreover have "0 \<le> ?u"
        using ord Some fresh by (intro io_rate_nonneg) (auto simp: times_ordered_def olds_ordered_def)
      ultimately show ?thesis
        using ord vw by (auto simp: times_ordered_def own_entry_def assms(4) intro!: olds_ordered_upd)
    qed
  qed
qed

lemma ioReadUsage_ok:
  assumes "ioReadUsage B w s = (s', r)" and "monitor_ok now s" and "now \<le> sint (clock w)"
  shows "monitor_ok (sint (clock w)) s' \<and> own_entry s s' \<and> (\<forall>v. r = Inr v \<longrightarrow> 0 \<le> v)"
proof (cases "m_need_update_io_read_usage (snd s)")
  case False
  with assms have "s' = s" "r = Inr (m_io_read_usage (snd s))"
    by (auto simp: ioReadUsage_def getter_cases split_beta)
  with False assms show ?thesis
    using monitor_ok_later [OF assms(2,3)] by (simp add: monitor_ok_def rates_ok_def own_entry_refl)
next
  case True
  obtain g p where s: "s = (g, p)" by fastforce
  obtain g' p' x where upd: "updateIoReadUsage B w (g, p) = ((g', p'), x)" by (metis prod.exhaust)
  with updateIoUsage_effect [where now = now and put = "\<lambda>u p. p\<lparr>m_io_read_usage := u\<rparr>"] assms(2,3)
  have eff: "times_ordered (sint (clock w)) (g', p') \<and> own_entry (g, p) (g', p')
      \<and> (\<exists>q. rate_view q = rate_view p
      \<and> (case x of Inl e \<Rightarrow> p' = q | Inr _ \<Rightarrow> (\<exists>u \<ge> 0. p' = q\<lparr>m_io_read_usage := u\<rparr>)))"
    by (simp add: updateIoReadUsage_def readBytes_def s monitor_ok_def)
  have "(s', r) = (case x of Inl e \<Rightarrow> ((g', p'), Inl e)
      | Inr _ \<Rightarrow> ((g', p'\<lparr>m_need_update_io_read_usage := False\<rparr>), Inr (m_io_read_usage p')))"
    using assms(1) True upd by (simp add: ioReadUsage_def getter_cases s split: sum.splits)
  with eff show ?thesis
    using assms(2) rates_ok_view
    by (auto simp: monitor_ok_def s times_ordered_def own_entry_def rates_ok_def rate_view_def split: sum.splits)
qed

lemma ioWriteUsage_ok:
  assumes "ioWriteUsage B w s = (s', r)" and "monitor_ok now s" and "now \<le> sint (clock w)"
  shows "monitor_ok (sint (clock w)) s' \<and> own_entry s s' \<and> (\<forall>v. r = Inr v \<longrightarrow> 0 \<le> v)"
proof (cases "m_need_update_io_write_usage (snd s)")
  case False
  with assms have "s' = s" "r = Inr (m_io_write_usage (snd s))"
    by (auto simp: ioWriteUsage_def getter_cases split_beta)
  with False assms show ?thesis
    using monitor_ok_later [OF assms(2,3)] by (simp add: monitor_ok_def rates_ok_def own_entry_refl)
next
  case True
  obtain g p where s: "s = (g, p)" by fastforce
  obtain g' p' x where upd: "updateIoWriteUsage B w (g, p) = ((g', p'), x)" by (metis prod.exhaust)
  with updateIoUsage_effect [where now = now and put = "\<lambda>u p. p\<lparr>m_io_write_usage := u\<rparr>"] assms(2,3)
  have eff: "times_ordered (sint (clock w)) (g', p') \<and> own_entry (g, p) (g', p')
      \<and> (\<exists>q. rate_view q = rate_view p
      \<and> (case x of Inl e \<Rightarrow> p' = q | Inr _ \<Rightarrow> (\<exists>u \<ge> 0. p' = q\<lparr>m_io_write_usage := u\<rparr>)))"
    by (simp add: updateIoWriteUsage_def writeBytes_def s monitor_ok_def)
  have "(s', r) = (case x of Inl e \<Rightarrow> ((g', p'), Inl e)
      | Inr _ \<Rightarrow> ((g', p'\<lparr>m_need_update_io_write_usage := False\<rparr>), Inr (m_io_write_usage p')))"
    using assms(1) True upd by (simp add: ioWriteUsage_def getter_cases s split: sum.splits)
  with eff show ?thesis
    using assms(2) rates_ok_view
    by (auto simp: monitor_ok_def s times_ordered_def own_entry_def rates_ok_def rate_view_def split: sum.splits)
qed

lemma ioTotalUsage_ok:
  assumes "ioTotalUsage read_first B w s = (s', r)" and "monitor_ok now s" and "now \<le> sint (clock w)"
  shows "monitor_ok (sint (clock w)) s' \<and> own_entry s s' \<and> (\<forall>v. r = Inr v \<longrightarrow> 0 \<le> v)"
proof -
  have add: "0 \<le> a \<Longrightarrow> 0 \<le> b \<Longrightarrow> 0 \<le> double_add a b" for a b
    by (simp add: double_add_def rnd_nonneg)
  obtain s1 r1 where r1: "(if read_first then ioReadUsage B w s else ioWriteUsage B w s) = (s1, r1)"
    by fastforce
  then have ok1: "monitor_ok (sint (clock w)) s1 \<and> own_entry s s1 \<and> (\<forall>v. r1 = Inr v \<longrightarrow> 0 \<le> v)"
    using ioReadUsage_ok [OF _ assms(2,3)] ioWriteUsage_ok [OF _ assms(2,3)] by (cases read_first) auto
  obtain s2 r2 where r2: "(if read_first then ioWriteUsage B w s1 else ioReadUsage B w s1) = (s2, r2)"
    by fastforce
  with ok1 have ok2: "monitor_ok (sint (clock w)) s2 \<and> own_entry s1 s2 \<and> (\<forall>v. r2 = Inr v \<longrightarrow> 0 \<le> v)"
    using ioReadUsage_ok [OF _ conjunct1 [OF ok1] order_refl]
      ioWriteUsage_ok [OF _ conjunct1 [OF ok1] order_refl] by (cases read_first) auto
  have own: "own_entry s s2" using ok1 ok2 own_entry_trans by blast
  show ?thesis
    using assms(1) r1 r2 ok1 ok2 own
    by (cases read_first; cases r1; cases r2)
       (auto simp: ioTotalUsage_def and_then_def returns_run add)
qed

lemma stat_view_io: "m_need_update_io (stat_view w p) = m_need_update_io p"
  using readStat_outside [of w p] by (simp add: stat_view_def outside_stat_def)

lemma updateCPUUsage_cases:
  obtains e where "updateCPUUsage raw B w (g, p) = ((g, p), Inl e)"
  | (run) n where "cores_known B w g n"
  by (cases "nb_core g"; cases "getNbCores B w")
     (auto simp: cores_known_def updateCPUUsage_throws)

lemma updateCPUUsage_ok:
  assumes "updateCPUUsage raw B w s = (s', r)" and "monitor_ok now s"
    and "m_pid (stat_view w (snd s)) = m_pid (snd s)"
  shows "monitor_ok now s' \<and> own_entry s s'"
proof -
  obtain g p where s: "s = (g, p)" by fastforce
  show ?thesis
  proof (cases rule: updateCPUUsage_cases [of raw B w g p])
    case (1 e)
    with assms s show ?thesis by (simp add: own_entry_refl)
  next
    case (run n)
    let ?q = "stat_view w p"
    have pid: "m_pid ?q = m_pid p" using assms(3) s by simp
    show ?thesis
    proof (cases "map_pid_oldstate g (m_pid ?q)")
      case None
      from updateCPUUsage_first [OF run refl None refl, of raw] assms s pid None show ?thesis
        by (auto simp: monitor_ok_def times_ordered_def olds_ordered_def own_entry_def rates_ok_def
            stat_view_keeps stat_view_io split: if_splits)
    next
      case (Some old)
      from updateCPUUsage_later [OF run refl Some refl, of raw] assms s pid Some show ?thesis
        by (auto simp: monitor_ok_def times_ordered_def olds_ordered_def own_entry_def rates_ok_def
            stat_view_keeps stat_view_io split: if_splits)
    qed
  qed
qed

lemma cpuUsage_ok:
  assumes "cpuUsage raw B w s = (s', r)" and "monitor_ok now s" and "now \<le> sint (clock w)"
    and "m_pid (stat_view w (snd s)) = m_pid (snd s)"
  shows "monitor_ok (sint (clock w)) s' \<and> own_entry s s'"
proof (cases "m_need_update_cpu_usage (snd s)")
  case False
  with assms show ?thesis
    using monitor_ok_later [OF assms(2,3)] by (auto simp: cpuUsage_def getter_cases split_beta own_entry_refl)
next
  case True
  obtain t x where upd: "updateCPUUsage raw B w s = (t, x)" by fastforce
  from updateCPUUsage_ok [OF this assms(2,4)] monitor_ok_later assms(3)
  have ok: "monitor_ok (sint (clock w)) t \<and> own_entry s t" by blast
  have "s' = t \<or> s' = (fst t, (snd t)\<lparr>m_need_update_cpu_usage := False\<rparr>)"
    using assms(1) True upd by (auto simp: cpuUsage_def getter_cases split_beta split: sum.splits)
  with ok show ?thesis
    by (auto simp: monitor_ok_def times_ordered_def rates_ok_def own_entry_def)
qed

lemma io_getter_ok:
  assumes "on_process (io_getter B w val) s = (s', r)" and "monitor_ok now s" and "now \<le> sint (clock w)"
  shows "monitor_ok (sint (clock w)) s' \<and> own_entry s s'"
proof -
  obtain g p where s: "s = (g, p)" by fastforce
  obtain q x where get: "io_getter B w val p = (q, x)" by fastforce
  have ord: "times_ordered now (g, p)" "rates_ok p" using assms(2) s by (simp_all add: monitor_ok_def)
  from io_getter_effect(1-3) [OF get ord(1) assms(3)] ord(2) rates_ok_view [of q p]
  have "monitor_ok (sint (clock w)) (g, q)" "m_pid q = m_pid p" by (simp_all add: monitor_ok_def)
  moreover have "s' = (g, q)" using assms(1) s get by (simp add: on_process_def)
  ultimately show ?thesis by (simp add: s own_entry_def)
qed

lemma serve_ok:
  assumes "serve B w req s = (s', a)" and "monitor_ok now s" and "now \<le> sint (clock w)"
  shows "(m_pid (stat_view w (snd s)) = m_pid (snd s) \<longrightarrow> monitor_ok (sint (clock w)) s' \<and> own_entry s s')
    \<and> (a = Rate (Inr v) \<longrightarrow> 0 \<le> v)"
proof (cases req)
  case Invalidate
  with assms(1) monitor_ok_later [OF assms(2,3)] show ?thesis
    by (auto simp: monitor_ok_def times_ordered_def rates_ok_def own_entry_def split_beta)
       (simp_all add: needUpdate_def)
next
  case Stat_value
  with assms(1) monitor_ok_later [OF assms(2,3)] show ?thesis
    by (auto simp: ppid_def stat_getter_view monitor_ok_def times_ordered_def rates_ok_def own_entry_def
        split_beta stat_view_keeps stat_view_io)
next
  case Bytes_read
  with assms(1) obtain r where "on_process (readBytes B w) s = (s', r)" "a = Count r"
    by (auto simp: map_prod_def split: prod.splits)
  with io_getter_ok [OF _ assms(2,3)] show ?thesis
    unfolding readBytes_def by blast
next
  case Bytes_written
  with assms(1) obtain r where "on_process (writeBytes B w) s = (s', r)" "a = Count r"
    by (auto simp: map_prod_def split: prod.splits)
  with io_getter_ok [OF _ assms(2,3)] show ?thesis
    unfolding writeBytes_def by blast
next
  case Read_rate
  with assms(1) obtain r where r: "ioReadUsage B w s = (s', r)" "a = Rate r"
    by (auto simp: map_prod_def split: prod.splits)
  from ioReadUsage_ok [OF r(1) assms(2,3)] r(2) show ?thesis by simp
next
  case Write_rate
  with assms(1) obtain r where r: "ioWriteUsage B w s = (s', r)" "a = Rate r"
    by (auto simp: map_prod_def split: prod.splits)
  from ioWriteUsage_ok [OF r(1) assms(2,3)] r(2) show ?thesis by simp
next
  case (Total_rate b)
  with assms(1) obtain r where r: "ioTotalUsage b B w s = (s', r)" "a = Rate r"
    by (auto simp: map_prod_def split: prod.splits)
  from ioTotalUsage_ok [OF r(1) assms(2,3)] r(2) show ?thesis by simp
next
  case (Cpu_share raw)
  with assms(1) obtain r where r: "cpuUsage raw B w s = (s', r)" "a = Share r"
    by (auto simp: map_prod_def split: prod.splits)
  from cpuUsage_ok [OF r(1) assms(2,3)] r(2) show ?thesis by simp
qed

definition objects_ok :: "int \<Rightarrow> globals \<Rightarrow> (c_int \<rightharpoonup> process_info) \<Rightarrow> bool" where
  "objects_ok now g objs \<longleftrightarrow> olds_ordered now g \<and> 0 \<le> now
     \<and> (\<forall>k p. objs k = Some p \<longrightarrow> m_pid p = k \<and> monitor_ok now (g, p))"

lemma fresh_monitor_ok:
  "olds_ordered now g \<Longrightarrow> 0 \<le> now \<Longrightarrow> m_pid (ProcessInfo raw k) = k \<and> monitor_ok now (g, ProcessInfo raw k)"
  by (simp add: monitor_ok_def times_ordered_def rates_ok_def ProcessInfo_def needUpdate_def
      fresh_process_def Let_def)

text \<open>A step of one object leaves the others in order: the old states of their pids have not changed.\<close>

lemma others_ok:
  assumes "monitor_ok now (g, q)" and "own_entry (g, p) (g', p')" and "m_pid q \<noteq> m_pid p"
    and "olds_ordered now' g'" and "now \<le> now'"
  shows "monitor_ok now' (g', q)"
  using assms by (auto simp: monitor_ok_def times_ordered_def own_entry_def)

lemma monitor_invariant: "monitor B now g objs \<Longrightarrow> objects_ok now g objs"
proof (induction rule: monitor.induct)
  case monitor_start
  show ?case by (simp add: objects_ok_def olds_ordered_def initial_globals_def)
next
  case (monitor_create now g objs k raw)
  then show ?case using fresh_monitor_ok [of now g raw k] by (auto simp: objects_ok_def)
next
  case (monitor_destroy now g objs k)
  then show ?case by (auto simp: objects_ok_def)
next
  case (monitor_serve now g objs k p w r g' p' a)
  then have p: "m_pid p = k" "monitor_ok now (g, p)" by (auto simp: objects_ok_def)
  from serve_ok [OF monitor_serve.hyps(5) p(2) monitor_serve.hyps(3)] monitor_serve.hyps(4)
  have ok: "monitor_ok (sint (clock w)) (g', p')" and own: "own_entry (g, p) (g', p')" by auto
  then have olds: "olds_ordered (sint (clock w)) g'" by (simp add: monitor_ok_def times_ordered_def)
  have "m_pid q = j \<and> monitor_ok (sint (clock w)) (g', q)" if "(objs(k \<mapsto> p')) j = Some q" for j q
  proof (cases "j = k")
    case True
    with that ok own p(1) show ?thesis by (simp add: own_entry_def)
  next
    case False
    with that monitor_serve.IH have "m_pid q = j" "monitor_ok now (g, q)" by (auto simp: objects_ok_def)
    with others_ok [OF this(2) own _ olds monitor_serve.hyps(3)] False p(1) show ?thesis by simp
  qed
  with olds monitor_serve.IH monitor_serve.hyps(3) show ?case by (auto simp: objects_ok_def)
qed

text \<open>
  C5. Whatever sequence of constructions, destructions, invalidations and samples a monitor with at
  most one object per pid at a time has gone through, with whatever counters, failures and files
  but stat files of another pid, a rate that one of its objects reports is not negative as long as
  the clock has never gone back.
\<close>

theorem monitor_rates_nonneg:
  assumes "monitor B now g objs" and "objs k = Some p" and "now \<le> sint (clock w)"
    and "serve B w req (g, p) = (s', Rate (Inr v))"
  shows "0 \<le> v"
proof -
  from monitor_invariant [OF assms(1)] assms(2) have "monitor_ok now (g, p)"
    by (simp add: objects_ok_def)
  from serve_ok [OF assms(4) this assms(3), of v] show ?thesis by simp
qed

theorem monitor_rates_nonneg_witness:
  "\<forall>raw. \<exists>s v. serve reference_boost (io_world 4096 0 1000) Read_rate
       (initial_globals, ProcessInfo raw 7) = (s, Rate (Inr v)) \<and> 0 \<le> v"
proof
  fix raw
  let ?p = "ProcessInfo raw 7"
  have m: "monitor reference_boost 0 initial_globals [7 \<mapsto> ?p]"
    by (rule monitor_create [OF monitor_start]) simp
  have at: "[7 \<mapsto> ?p] 7 = Some ?p" by simp
  have read: "readIo reference_boost (io_world 4096 0 1000) ?p = (?p\<lparr>m_io := \<lparr>rchar = 0, wchar = 0,
    syscr = 0, syscw = 0, read_bytes = of_nat 4096, write_bytes = of_nat 0,
    cancelled_write_bytes = 0, last_read = 1000\<rparr>\<rparr>, Inr ())"
    by (rule io_world_read [OF constructed_path]) simp_all
  have "m_need_update_io_read_usage ?p" "m_need_update_io ?p"
    by (simp_all add: ProcessInfo_def Let_def)
  then obtain s v where "serve reference_boost (io_world 4096 0 1000) Read_rate (initial_globals, ?p)
      = (s, Rate (Inr v))"
    by (simp add: ioReadUsage_def getter_cases updateIoReadUsage_def updateIoUsage_def readBytes_def
        io_getter_cases on_process_def read initial_globals_def)
  with monitor_rates_nonneg [OF m at _ this]
  show "\<exists>s v. serve reference_boost (io_world 4096 0 1000) Read_rate (initial_globals, ?p)
      = (s, Rate (Inr v)) \<and> 0 \<le> v"
    by (auto simp: io_world_def)
qed

text \<open>
  One object per pid is needed: with two, the counters that one of them has kept can be older than
  the sample of the other, and the rate is negative.
\<close>

lemma rnd_neg: "q < 0 \<Longrightarrow> rnd q < 0"
proof -
  assume q: "q < 0"
  then have "rnd q \<le> q - q / 2 ^ 53"
    using rnd_error [of q] by (simp add: abs_le_iff)
  moreover have "q - q / 2 ^ 53 < 0" using q by (simp add: field_simps)
  ultimately show ?thesis by simp
qed

lemma double_div_neg: "0 < a \<Longrightarrow> b < 0 \<Longrightarrow> double_div a b < 0"
  by (simp add: double_div_def rnd_neg divide_pos_neg)

lemma double_of_int_sign: "0 < i \<Longrightarrow> 0 < double_of_int i" "i < 0 \<Longrightarrow> double_of_int i < 0"
  using double_of_int_nonneg [of i] double_of_int_zero_iff [of i] rnd_neg [of "of_int i"]
  by (auto simp: double_of_int_def)

theorem two_objects_negative_rate:
  "\<exists>g1 a1 g2 b1 u s v.
     ioWriteUsage reference_boost (io_world 4096 0 1000) (initial_globals, ProcessInfo raw 7) = ((g1, a1), Inr 0)
   \<and> ioReadUsage reference_boost (io_world 8192 0 2000) (g1, ProcessInfo raw 7) = ((g2, b1), Inr u)
   \<and> ioReadUsage reference_boost w (g2, a1) = (s, Inr v) \<and> v < 0"
proof -
  let ?p = "ProcessInfo raw 7"
  define io where "io b t = \<lparr>rchar = 0, wchar = 0, syscr = 0, syscw = 0, read_bytes = of_nat b,
    write_bytes = of_nat 0, cancelled_write_bytes = 0, last_read = t\<rparr>" for b and t :: c_long
  have read: "readIo reference_boost (io_world b 0 t) ?p = (?p\<lparr>m_io := io b t\<rparr>, Inr ())"
    if "b \<le> 8192" for b t
    unfolding io_def by (rule io_world_read [OF constructed_path]) (use that in simp_all)
  have flags: "m_need_update_io ?p" "m_need_update_io_read_usage ?p" "m_need_update_io_write_usage ?p"
    "m_pid ?p = 7" by (simp_all add: ProcessInfo_def needUpdate_def Let_def)
  let ?q = "\<lambda>b t. ?p\<lparr>m_io := io b t, m_need_update_io := False\<rparr>"
  let ?g = "\<lambda>x. initial_globals\<lparr>map_pid_oldstate := [7 \<mapsto> x]\<rparr>"
  let ?old = "(?q 4096 1000)\<lparr>m_io := io 8192 2000\<rparr>"
  let ?a = "(?q 4096 1000)\<lparr>m_io_write_usage := 0, m_need_update_io_write_usage := False\<rparr>"
  have 1: "ioWriteUsage reference_boost (io_world 4096 0 1000) (initial_globals, ?p) = ((?g (?q 4096 1000), ?a), Inr 0)"
    using flags by (simp add: ioWriteUsage_def getter_cases updateIoWriteUsage_def updateIoUsage_def
        writeBytes_def io_getter_cases on_process_def read initial_globals_def)
  obtain b1 u where 2: "ioReadUsage reference_boost (io_world 8192 0 2000) (?g (?q 4096 1000), ?p)
      = ((?g ?old, b1), Inr u)"
    using flags by (simp add: ioReadUsage_def getter_cases updateIoReadUsage_def updateIoUsage_def
        readBytes_def io_getter_cases on_process_def read Let_def)
  let ?v = "io_rate (4096 - 8192) (1000 - 2000)"
  have 3: "snd (ioReadUsage reference_boost w (?g ?old, ?a)) = Inr ?v"
    using flags by (simp add: ioReadUsage_def getter_cases updateIoReadUsage_def updateIoUsage_def
        readBytes_def io_getter_cases on_process_def read Let_def io_rate_def io_def)
  have "double_of_int (sint (1000 - 2000 :: c_long)) < 0"
    by (rule double_of_int_sign) simp
  then have "seconds (1000 - 2000) < 0"
    unfolding seconds_def double_of_billion double_div_def by (intro rnd_neg) simp
  moreover have "0 < double_of_int (uint (4096 - 8192 :: c_ulong))"
    by (rule double_of_int_sign) simp
  ultimately have "?v < 0" by (simp add: io_rate_def double_div_neg)
  with 1 2 3 show ?thesis
    by (metis prod.collapse)
qed

end
