(* ===== verification/Process_Maps.thy ===== *)
theory Process_Maps
  imports Process_Files
begin

text \<open>
  The group of \<open>/proc/<pid>/smaps\<close>: the file is cut into the texts of the mappings at the lines
  that hold a hyphen, and each text is given to the constructor of \<open>MMap\<close>.
\<close>

section \<open>Reading /proc/pid/smaps\<close>

text \<open>
  \<open>MMap map = MMap (map_stream); m_maps.push_back (map);\<close> where the scalar members of the n-th
  mapping start with what the memory held, \<open>raw n\<close>.
\<close>

definition append_map ::
  "boost \<Rightarrow> (nat \<Rightarrow> mmap) \<Rightarrow> string \<Rightarrow> (process_info, unit) action" where
  "append_map B raw map_stream p =
     (case mk_MMap B (raw (length (m_maps p))) map_stream of
        (m, Inl e) \<Rightarrow> (p, Inl e)
      | (m, Inr _) \<Rightarrow> (p\<lparr>m_maps := m_maps p @ [m]\<rparr>, Inr ()))"

text \<open>The body of the loop; the state is the object and the content of \<open>map_stream\<close>.\<close>

definition smaps_step ::
  "boost \<Rightarrow> (nat \<Rightarrow> mmap) \<Rightarrow> string \<Rightarrow> (process_info \<times> string, unit) action" where
  "smaps_step B raw line = (\<lambda>(p, map_stream).
     if CHR ''-'' \<in> set line \<and> map_stream \<noteq> [] then
       (case append_map B raw map_stream p of
          (p', Inl e) \<Rightarrow> ((p', map_stream), Inl e)
        | (p', Inr _) \<Rightarrow> ((p', [] @ line @ [CHR 0x0A]), Inr ()))
     else ((p, map_stream @ line @ [CHR 0x0A]), Inr ()))"

definition readSmaps ::
  "boost \<Rightarrow> (nat \<Rightarrow> mmap) \<Rightarrow> world \<Rightarrow> (process_info, unit) action" where
  "readSmaps B raw w p =
     (let p1 = p\<lparr>m_maps := []\<rparr>; file_path = m_proc_path p @ ''/smaps''
      in if is_open w file_path then
           (case for_each (smaps_step B raw) (lines_of (ifstream w file_path)) (p1, []) of
              ((p', map_stream), Inl e) \<Rightarrow> (p', Inl e)
            | ((p', map_stream), Inr _) \<Rightarrow> append_map B raw map_stream p')
         else (p1, Inr ()))"

definition maps :: "boost \<Rightarrow> (nat \<Rightarrow> mmap) \<Rightarrow> world \<Rightarrow> (process_info, mmap list) action" where
  "maps B raw w = getter m_need_update_smaps (\<lambda>p. p\<lparr>m_need_update_smaps := False\<rparr>)
     (readSmaps B raw w) m_maps"

section \<open>What the reader leaves alone\<close>

lemma append_map_frame:
  assumes "\<And>q x. view (q\<lparr>m_maps := x\<rparr>) = view q"
  shows "view (fst (append_map B raw t p)) = view p"
  by (simp add: append_map_def assms split: prod.splits sum.splits)

lemma smaps_step_frame:
  assumes "\<And>q x. view (q\<lparr>m_maps := x\<rparr>) = view q"
  shows "view (fst (fst (smaps_step B raw line s))) = view (fst s)"
  using append_map_frame [of view, OF assms, of B raw "snd s" "fst s"]
  by (auto simp: smaps_step_def split_beta split: sum.splits)

lemma readSmaps_frame:
  assumes "\<And>q x. view (q\<lparr>m_maps := x\<rparr>) = view q"
  shows "view (fst (readSmaps B raw w p)) = view p"
proof -
  let ?ls = "lines_of (ifstream w (m_proc_path p @ ''/smaps''))"
  obtain q t r where loop: "for_each (smaps_step B raw) ?ls (p\<lparr>m_maps := []\<rparr>, []) = ((q, t), r)"
    by (metis prod.exhaust)
  have "view (fst (fst (for_each (smaps_step B raw) ?ls (p\<lparr>m_maps := []\<rparr>, [])))) = view p"
    using for_each_frame [where view = "\<lambda>s. view (fst s)" and f = "smaps_step B raw" and xs = ?ls,
        OF smaps_step_frame [of view, OF assms]] by (simp add: assms)
  with loop have "view q = view p" by simp
  then show ?thesis
    using append_map_frame [of view, OF assms, of B raw t q]
    by (simp add: readSmaps_def Let_def loop assms split: sum.splits)
qed

interpretation smaps_group: lazy_reader m_need_update_smaps "\<lambda>p. p\<lparr>m_need_update_smaps := False\<rparr>"
  "\<lambda>(B, raw, w). readSmaps B raw w"
  by unfold_locales (auto simp: readSmaps_frame)

section \<open>Blocks of the file\<close>

definition mapping_block :: "string list \<Rightarrow> bool" where
  "mapping_block b \<longleftrightarrow> b \<noteq> [] \<and> CHR ''-'' \<in> set (hd b) \<and> (\<forall>l \<in> set (tl b). CHR ''-'' \<notin> set l)
     \<and> (\<forall>l \<in> set b. CHR 0x0A \<notin> set l)"

text \<open>The mapping built from the \<open>n\<close>-th block.\<close>

definition block_map :: "boost \<Rightarrow> (nat \<Rightarrow> mmap) \<Rightarrow> nat \<times> string list \<Rightarrow> mmap" where
  "block_map B raw nb = fst (mk_MMap B (raw (fst nb)) (unlines CHR 0x0A (snd nb)))"

definition block_end :: "boost \<Rightarrow> (nat \<Rightarrow> mmap) \<Rightarrow> nat \<times> string list \<Rightarrow> unit outcome" where
  "block_end B raw nb = snd (mk_MMap B (raw (fst nb)) (unlines CHR 0x0A (snd nb)))"

lemma append_block:
  "append_map B raw (unlines CHR 0x0A b) p =
     (case block_end B raw (length (m_maps p), b) of
        Inl e \<Rightarrow> (p, Inl e)
      | Inr _ \<Rightarrow> (p\<lparr>m_maps := m_maps p @ [block_map B raw (length (m_maps p), b)]\<rparr>, Inr ()))"
  by (simp add: append_map_def block_end_def block_map_def split: prod.splits sum.splits)

lemma smaps_attributes:
  "\<forall>l \<in> set ls. CHR ''-'' \<notin> set l \<Longrightarrow>
   for_each (smaps_step B raw) ls (p, t) = ((p, t @ unlines CHR 0x0A ls), Inr ())"
  by (induction ls arbitrary: t) (simp_all add: smaps_step_def)

lemma smaps_first_block:
  assumes "mapping_block b"
  shows "for_each (smaps_step B raw) b (p, []) = ((p, unlines CHR 0x0A b), Inr ())"
  using assms by (cases b) (simp_all add: mapping_block_def smaps_step_def smaps_attributes)

lemma unlines_block [simp]: "mapping_block b \<Longrightarrow> unlines CHR 0x0A b \<noteq> []"
  by (cases b) (simp_all add: mapping_block_def)

lemma smaps_next_block:
  assumes "mapping_block b" and "mapping_block b'"
  shows "for_each (smaps_step B raw) b' (p, unlines CHR 0x0A b) =
     (case append_map B raw (unlines CHR 0x0A b) p of
        (p', Inl e) \<Rightarrow> ((p', unlines CHR 0x0A b), Inl e)
      | (p', Inr _) \<Rightarrow> ((p', unlines CHR 0x0A b'), Inr ()))"
  using assms unlines_block [OF assms(1)]
  by (cases b') (auto simp: mapping_block_def smaps_step_def smaps_attributes
      split: prod.splits sum.splits)

text \<open>The whole file: the loop, then the last mapping.\<close>

definition finish_smaps ::
  "boost \<Rightarrow> (nat \<Rightarrow> mmap) \<Rightarrow> (process_info \<times> string) \<times> unit outcome \<Rightarrow> process_info \<times> unit outcome" where
  "finish_smaps B raw s =
     (case s of ((p', t), Inl e) \<Rightarrow> (p', Inl e) | ((p', t), Inr _) \<Rightarrow> append_map B raw t p')"

lemma smaps_blocks:
  assumes "\<forall>b \<in> set (b # bs). mapping_block b"
    and "\<forall>nb \<in> set (enumerate (length (m_maps p)) (b # bs)). block_end B raw nb = Inr ()"
  shows "finish_smaps B raw (for_each (smaps_step B raw) (concat bs) (p, unlines CHR 0x0A b))
    = (p\<lparr>m_maps := m_maps p @ map (block_map B raw) (enumerate (length (m_maps p)) (b # bs))\<rparr>, Inr ())"
  using assms
proof (induction bs arbitrary: b p)
  case Nil
  then show ?case by (simp add: finish_smaps_def append_block)
next
  case (Cons b' bs)
  let ?p = "p\<lparr>m_maps := m_maps p @ [block_map B raw (length (m_maps p), b)]\<rparr>"
  have "append_map B raw (unlines CHR 0x0A b) p = (?p, Inr ())"
    using Cons.prems(2) by (simp add: append_block)
  then have "for_each (smaps_step B raw) b' (p, unlines CHR 0x0A b) = ((?p, unlines CHR 0x0A b'), Inr ())"
    using Cons.prems(1) by (simp add: smaps_next_block)
  then show ?case
    using Cons.IH [of b' ?p] Cons.prems by (simp add: for_each_append)
qed

lemma smaps_bad_block:
  assumes "\<forall>b \<in> set (b # bs). mapping_block b" and "good_blocks @ bad # rest = b # bs"
    and "\<forall>nb \<in> set (enumerate (length (m_maps p)) good_blocks). block_end B raw nb = Inr ()"
    and "block_end B raw (length (m_maps p) + length good_blocks, bad) = Inl e"
  shows "finish_smaps B raw (for_each (smaps_step B raw) (concat bs) (p, unlines CHR 0x0A b))
    = (p\<lparr>m_maps := m_maps p @ map (block_map B raw) (enumerate (length (m_maps p)) good_blocks)\<rparr>, Inl e)"
  using assms
proof (induction bs arbitrary: b p good_blocks)
  case Nil
  then have "good_blocks = []" "bad = b" by (cases good_blocks; simp)+
  with Nil show ?case by (simp add: finish_smaps_def append_block)
next
  case (Cons b' bs)
  show ?case
  proof (cases good_blocks)
    case empty: Nil
    with Cons.prems have "append_map B raw (unlines CHR 0x0A b) p = (p, Inl e)"
      by (simp add: append_block)
    then have "for_each (smaps_step B raw) b' (p, unlines CHR 0x0A b) = ((p, unlines CHR 0x0A b), Inl e)"
      using Cons.prems(1) by (simp add: smaps_next_block)
    with empty show ?thesis by (simp add: for_each_append finish_smaps_def)
  next
    case good: (Cons g gs)
    let ?p = "p\<lparr>m_maps := m_maps p @ [block_map B raw (length (m_maps p), b)]\<rparr>"
    have "append_map B raw (unlines CHR 0x0A b) p = (?p, Inr ())"
      using Cons.prems(2,3) good by (simp add: append_block)
    then have "for_each (smaps_step B raw) b' (p, unlines CHR 0x0A b) = ((?p, unlines CHR 0x0A b'), Inr ())"
      using Cons.prems(1) by (simp add: smaps_next_block)
    then show ?thesis
      using Cons.IH [of b' gs ?p] Cons.prems good by (simp add: for_each_append)
  qed
qed

lemma readSmaps_file:
  assumes "files w (m_proc_path p @ ''/smaps'') = Some (unlines CHR 0x0A (concat (b # bs)))"
    and "\<forall>b \<in> set (b # bs). mapping_block b"
  shows "readSmaps B raw w p
    = finish_smaps B raw (for_each (smaps_step B raw) (concat bs) (p\<lparr>m_maps := []\<rparr>, unlines CHR 0x0A b))"
proof -
  have "\<forall>l \<in> set (concat (b # bs)). CHR 0x0A \<notin> set l"
    using assms(2) by (auto simp: mapping_block_def)
  then have "lines_of (ifstream w (m_proc_path p @ ''/smaps'')) = concat (b # bs)"
    unfolding ifstream_def assms(1) by (rule lines_of_unlines)
  with assms show ?thesis
    by (simp add: readSmaps_def Let_def is_open_def finish_smaps_def for_each_append smaps_first_block)
qed

section \<open>Properties\<close>

text \<open>
  C11. A file of one or more blocks (a declaration line with a hyphen, attribute lines without)
  whose texts all construct: the mappings returned are the mappings of the blocks, one per
  block and in order, each built from the text of its own block; those of an earlier read are
  gone, and the object is otherwise unchanged.
\<close>

theorem maps_blocks:
  assumes "m_need_update_smaps p"
    and "files w (m_proc_path p @ ''/smaps'') = Some (unlines CHR 0x0A (concat blocks))"
    and "blocks \<noteq> []" and "\<forall>b \<in> set blocks. mapping_block b"
    and "\<forall>nb \<in> set (enumerate 0 blocks). block_end B raw nb = Inr ()"
    and "ms = map (block_map B raw) (enumerate 0 blocks)"
  shows "maps B raw w p = (p\<lparr>m_maps := ms, m_need_update_smaps := False\<rparr>, Inr ms)"
proof -
  obtain b bs where blocks: "blocks = b # bs" using assms(3) by (cases blocks) auto
  have "readSmaps B raw w p = (p\<lparr>m_maps := ms\<rparr>, Inr ())"
    using smaps_blocks [of b bs "p\<lparr>m_maps := []\<rparr>" B raw] assms readSmaps_file [of w p b bs B raw]
    by (simp add: blocks)
  then show ?thesis
    using assms(1) by (simp add: maps_def getter_cases)
qed

definition plain_mapping :: "string \<Rightarrow> string \<Rightarrow> string \<Rightarrow> string list" where
  "plain_mapping from to off =
     [declaration_line from to True False True True off ''08'' ''02'' ''12'' '' '' ''/x'', ''Rss: 4 kB'']"

lemma plain_mapping_block:
  assumes "hex_field from" "hex_field to" "hex_field off"
  shows "mapping_block (plain_mapping from to off)"
proof -
  have "CHR 0x0A \<notin> set (declaration_line from to True False True True off ''08'' ''02'' ''12'' '' '' ''/x'')"
    using assms by (intro declaration_no_newline)
      (simp_all add: hex_field_def dec_field_def is_xdigit_def is_digit_def)
  then show ?thesis
    by (simp add: mapping_block_def plain_mapping_def declaration_line_def)
qed

lemma plain_mapping_end:
  assumes "boost_perl B" and "hex_field from" "hex_field to" "hex_field off"
  shows "block_end B raw (n, plain_mapping from to off)
    = (case stol 10 off of Inl e \<Rightarrow> Inl e | Inr _ \<Rightarrow> Inr ())"
proof -
  let ?decl = "declaration_line from to True False True True off ''08'' ''02'' ''12'' '' '' ''/x''"
  have fields: "hex_field ''08''" "hex_field ''02''" "dec_field ''12''" "padding '' ''"
    "''/x'' = [] \<or> \<not> is_space (hd ''/x'')"
    by (simp_all add: hex_field_def dec_field_def padding_def is_xdigit_def is_digit_def is_space_def)
  have nums: "stoi 16 ''08'' = Inr 8" "stoi 16 ''02'' = Inr 2" "stol 10 ''12'' = Inr 12"
    by (simp_all add: num_eval)
  have "boost_library B" using assms(1) by (simp add: boost_perl_def)
  then have attrs: "\<exists>m'. for_each (parse_attribute B) [''Rss: 4 kB''] m = (m', Inr ())" for m
    using attributes_keep_declared by blast
  have whole: "mk_MMap B r (?decl @ CHR 0x0A # unlines CHR 0x0A [''Rss: 4 kB'']) =
    do_all [parse_declaration B ?decl, for_each (parse_attribute B) [''Rss: 4 kB''],
      modify defineCategory] (fresh_mmap r)" for r
    using declaration_no_newline [OF assms(2-4) fields(1-3), of "'' ''" "''/x''" True False True True]
    by (intro mk_MMap_text) simp_all
  show ?thesis
  proof (cases "stol 10 off")
    case (Inl e)
    then show ?thesis
      using whole parse_declaration_line [OF assms(1-4) fields]
      by (simp add: block_end_def plain_mapping_def run_simps del: for_each.simps)
  next
    case (Inr v)
    obtain m1 where "parse_declaration B ?decl (fresh_mmap (raw n)) = (m1, Inr ())"
      using parse_declaration_line [OF assms(1-4) fields] Inr
      by (simp add: run_simps nums)
    moreover obtain m2 where "for_each (parse_attribute B) [''Rss: 4 kB''] m1 = (m2, Inr ())"
      using attrs by blast
    ultimately show ?thesis
      using whole Inr by (simp add: block_end_def plain_mapping_def run_simps del: for_each.simps)
  qed
qed

lemma smaps_example:
  "hex_field ''00''" "hex_field ''01''" "hex_field ''02''" "hex_field ''c0''"
  "stol 10 ''00'' = Inr 0" "stol 10 ''c0'' = Inl Invalid_argument"
  by (simp_all add: hex_field_def is_xdigit_def num_eval)

theorem maps_blocks_witness:
  "\<forall>raw praw. \<exists>m1 m2. snd (maps reference_boost raw (stat_world ''/proc/7//smaps''
      (unlines CHR 0x0A (concat [plain_mapping ''00'' ''01'' ''00'', plain_mapping ''01'' ''02'' ''00''])))
      (ProcessInfo praw 7)) = Inr [m1, m2]"
proof (intro allI)
  fix raw praw
  let ?bs = "[plain_mapping ''00'' ''01'' ''00'', plain_mapping ''01'' ''02'' ''00'']"
  let ?w = "stat_world ''/proc/7//smaps'' (unlines CHR 0x0A (concat ?bs))"
  have "m_need_update_smaps (ProcessInfo praw 7)" by (simp add: ProcessInfo_def Let_def)
  moreover have "files ?w (m_proc_path (ProcessInfo praw 7) @ ''/smaps'') = Some (unlines CHR 0x0A (concat ?bs))"
    by (simp add: constructed_path stat_world_def)
  moreover have "\<forall>b \<in> set ?bs. mapping_block b"
    by (simp add: plain_mapping_block smaps_example)
  moreover have "\<forall>nb \<in> set (enumerate 0 ?bs). block_end reference_boost raw nb = Inr ()"
    by (simp add: plain_mapping_end reference.boost_perl_axioms smaps_example)
  ultimately show "\<exists>m1 m2. snd (maps reference_boost raw ?w (ProcessInfo praw 7)) = Inr [m1, m2]"
    using maps_blocks [of "ProcessInfo praw 7" ?w ?bs reference_boost raw] by simp
qed

text \<open>
  C29. When the text of some block makes the constructor throw, the exception leaves the getter:
  the object holds the mappings of the blocks before it, and the next call reads again.
\<close>

theorem maps_bad_block:
  assumes "m_need_update_smaps p"
    and "files w (m_proc_path p @ ''/smaps'') = Some (unlines CHR 0x0A (concat (good_blocks @ bad # rest)))"
    and "\<forall>b \<in> set (good_blocks @ bad # rest). mapping_block b"
    and "\<forall>nb \<in> set (enumerate 0 good_blocks). block_end B raw nb = Inr ()"
    and "block_end B raw (length good_blocks, bad) = Inl e"
  shows "maps B raw w p = (p\<lparr>m_maps := map (block_map B raw) (enumerate 0 good_blocks)\<rparr>, Inl e)
    \<and> m_need_update_smaps (fst (maps B raw w p))"
proof -
  obtain b bs where blocks: "good_blocks @ bad # rest = b # bs" by (cases good_blocks) auto
  have "readSmaps B raw w p = (p\<lparr>m_maps := map (block_map B raw) (enumerate 0 good_blocks)\<rparr>, Inl e)"
    using smaps_bad_block [of b bs good_blocks bad rest "p\<lparr>m_maps := []\<rparr>" B raw e]
      assms readSmaps_file [of w p b bs B raw]
    by (simp add: blocks del: concat_append)
  then show ?thesis
    using assms(1) by (simp add: maps_def getter_cases)
qed

theorem maps_bad_block_witness:
  "\<forall>raw praw. \<exists>m. maps reference_boost raw (stat_world ''/proc/7//smaps''
      (unlines CHR 0x0A (concat ([plain_mapping ''00'' ''01'' ''00''] @ plain_mapping ''01'' ''02'' ''c0'' # []))))
      (ProcessInfo praw 7) = ((ProcessInfo praw 7)\<lparr>m_maps := [m]\<rparr>, Inl Invalid_argument)"
proof (intro allI)
  fix raw praw
  let ?good = "[plain_mapping ''00'' ''01'' ''00'']" and ?bad = "plain_mapping ''01'' ''02'' ''c0''"
  let ?w = "stat_world ''/proc/7//smaps'' (unlines CHR 0x0A (concat (?good @ ?bad # [])))"
  have "m_need_update_smaps (ProcessInfo praw 7)" by (simp add: ProcessInfo_def Let_def)
  moreover have "files ?w (m_proc_path (ProcessInfo praw 7) @ ''/smaps'')
      = Some (unlines CHR 0x0A (concat (?good @ ?bad # [])))"
    by (simp add: constructed_path stat_world_def)
  moreover have "\<forall>b \<in> set (?good @ ?bad # []). mapping_block b"
    by (simp add: plain_mapping_block smaps_example)
  moreover have "\<forall>nb \<in> set (enumerate 0 ?good). block_end reference_boost raw nb = Inr ()"
    "block_end reference_boost raw (length ?good, ?bad) = Inl Invalid_argument"
    by (simp_all add: plain_mapping_end reference.boost_perl_axioms smaps_example)
  ultimately show "\<exists>m. maps reference_boost raw ?w (ProcessInfo praw 7)
      = ((ProcessInfo praw 7)\<lparr>m_maps := [m]\<rparr>, Inl Invalid_argument)"
    using maps_bad_block [of "ProcessInfo praw 7" ?w ?good ?bad "[]" reference_boost raw Invalid_argument]
    by simp blast
qed

lemma mk_MMap_empty:
  assumes "boost_library B"
  shows "mk_MMap B raw [] = (defineCategory (fresh_mmap raw), Inr ())"
proof -
  have rx: "regex_engine (regex_match B)"
    using assms by (simp add: boost_library_def)
  have "\<not> fits regex_declare_mapping [] cs" for cs
    unfolding regex_declare_mapping_def by (auto elim!: fits_GroupE)
  then have "regex_match B regex_declare_mapping [] = None"
    using regex_engine.no_match_iff [OF rx] by blast
  moreover have "getline CHR 0x0A (istringstream []) [] = (\<lparr>buf = [], eofbit = True, failbit = True\<rparr>, [])"
    by (simp add: getline_def)
  ultimately show ?thesis
    by (simp add: mk_MMap_def parse_declaration_def run_simps lines_of_def good_def)
qed

text \<open>
  C40. A file that opens but is empty, which is what the kernel shows for a process without
  memory of its own, gives one mapping and not none; its addresses and path are empty, and its
  size and its permissions are whatever the memory held.
\<close>

theorem maps_empty_file:
  assumes "boost_library B" and "m_need_update_smaps p"
    and "files w (m_proc_path p @ ''/smaps'') = Some []"
  shows "\<exists>m. snd (maps B raw w p) = Inr [m] \<and> addressFrom m = [] \<and> map_path m = []
    \<and> map_size m = map_size (raw 0) \<and> permissions m = permissions (raw 0)"
proof -
  have "readSmaps B raw w p = (p\<lparr>m_maps := [defineCategory (fresh_mmap (raw 0))]\<rparr>, Inr ())"
    by (simp add: readSmaps_def is_open_def ifstream_def assms(3) open_file_Some lines_of_def
        append_map_def mk_MMap_empty [OF assms(1)])
  then show ?thesis
    using assms(2) by (simp add: maps_def getter_cases addressFrom_def map_path_def map_size_def
        permissions_def fresh_mmap_def)
qed

theorem maps_empty_file_witness:
  "\<forall>raw praw. \<exists>m. snd (maps reference_boost raw (stat_world ''/proc/7//smaps'' []) (ProcessInfo praw 7))
     = Inr [m] \<and> map_size m = map_size (raw 0)"
proof (intro allI)
  fix raw praw
  have "m_need_update_smaps (ProcessInfo praw 7)" by (simp add: ProcessInfo_def Let_def)
  moreover have "files (stat_world ''/proc/7//smaps'' []) (m_proc_path (ProcessInfo praw 7) @ ''/smaps'') = Some []"
    by (simp add: constructed_path stat_world_def)
  ultimately show "\<exists>m. snd (maps reference_boost raw (stat_world ''/proc/7//smaps'' []) (ProcessInfo praw 7))
     = Inr [m] \<and> map_size m = map_size (raw 0)"
    using maps_empty_file [OF reference.boost_library_axioms] by blast
qed

end
