(* ===== verification/Process_Private.thy ===== *)
theory Process_Private
  imports Process_Files
begin

text \<open>
  The private readers of \<open>processinfo.cpp\<close> that no getter calls: control groups, resource
  limits and the kernel stack.  They append to or overwrite their members like the readers
  that are called.
\<close>

section \<open>Control groups\<close>

text \<open>
  \<open>splitted[1]\<close> and \<open>splitted[2]\<close> of a shorter vector are undefined; \<open>splitted[0]\<close> is converted
  first.
\<close>

definition parse_cgroup_line :: "boost \<Rightarrow> string \<Rightarrow> (process_info, unit) action" where
  "parse_cgroup_line B line p =
     (case split_any B CHR '':'' line of
        [] \<Rightarrow> (p, Inl Undefined_behaviour)
      | s0 # splitted \<Rightarrow>
          (case stoi 10 s0 of
             Inl e \<Rightarrow> (p, Inl e)
           | Inr n \<Rightarrow>
               (case splitted of
                  s1 # s2 # _ \<Rightarrow>
                    (p\<lparr>m_cgroups := m_cgroups p @
                       [\<lparr>hierarchy_id = n, subsystems = split_any B CHR '','' s1, cgroup = s2\<rparr>]\<rparr>, Inr ())
                | _ \<Rightarrow> (p, Inl Undefined_behaviour))))"

definition readCgroup :: "boost \<Rightarrow> world \<Rightarrow> (process_info, unit) action" where
  "readCgroup B w p =
     (let file_path = m_proc_path p @ ''/cgroup''
      in if is_open w file_path
         then for_each (parse_cgroup_line B) (lines_of (ifstream w file_path)) p
         else (p, Inr ()))"

section \<open>Limits\<close>

text \<open>\<^verbatim>\<open>^Max\s(.*)\s+(unlimited|[[:digit:]]+)\s+(unlimited|[[:digit:]]+).*$\<close>\<close>

definition regex_limits :: pattern where
  "regex_limits =
    [Bare (Lit ''Max''), Bare (One Space), Group (Many Any), Bare (Many1 Space),
     Group (Either (Lit ''unlimited'') (Many1 Digit)), Bare (Many1 Space),
     Group (Either (Lit ''unlimited'') (Many1 Digit)), Bare (Many Any)]"

definition limit_value :: "string \<Rightarrow> c_int outcome" where
  "limit_value s = (if s = ''unlimited'' then Inr (-1) else stoi 10 s)"

definition limits_table :: "(string \<times> (c_long \<Rightarrow> c_long \<Rightarrow> limits_t \<Rightarrow> limits_t)) list" where
  "limits_table =
    [(''cpu time'', \<lambda>s h l. l\<lparr>cpu_time_soft_lmt := s, cpu_time_hard_lmt := h\<rparr>),
     (''file size'', \<lambda>s h l. l\<lparr>file_size_soft_lmt := s, file_size_hard_lmt := h\<rparr>),
     (''data size'', \<lambda>s h l. l\<lparr>data_size_soft_lmt := s, data_size_hard_lmt := h\<rparr>),
     (''stack size'', \<lambda>s h l. l\<lparr>stack_size_soft_lmt := s, stack_size_hard_lmt := h\<rparr>),
     (''core file size'', \<lambda>s h l. l\<lparr>core_file_size_soft_lmt := s, core_file_size_hard_lmt := h\<rparr>),
     (''resident set'', \<lambda>s h l. l\<lparr>resident_set_soft_lmt := s, resident_set_hard_lmt := h\<rparr>),
     (''processes'', \<lambda>s h l. l\<lparr>processes_soft_lmt := s, processes_hard_lmt := h\<rparr>),
     (''open files'', \<lambda>s h l. l\<lparr>open_files_soft_lmt := s, open_files_hard_lmt := h\<rparr>),
     (''locked memory'', \<lambda>s h l. l\<lparr>locked_memory_soft_lmt := s, locked_memory_hard_lmt := h\<rparr>),
     (''address space'', \<lambda>s h l. l\<lparr>address_space_soft_lmt := s, address_space_hard_lmt := h\<rparr>),
     (''file locks'', \<lambda>s h l. l\<lparr>file_locks_soft_lmt := s, file_locks_hard_lmt := h\<rparr>),
     (''pending signals'', \<lambda>s h l. l\<lparr>pending_signals_soft_lmt := s, pending_signals_hard_lmt := h\<rparr>),
     (''msgqueue size'', \<lambda>s h l. l\<lparr>msgqueue_size_soft_lmt := s, msgqueue_size_hard_lmt := h\<rparr>),
     (''nice priority'', \<lambda>s h l. l\<lparr>nice_priority_soft_lmt := s, nice_priority_hard_lmt := h\<rparr>),
     (''realtime priority'', \<lambda>s h l. l\<lparr>realtime_priority_soft_lmt := s, realtime_priority_hard_lmt := h\<rparr>),
     (''realtime timeout'', \<lambda>s h l. l\<lparr>realtime_timeout_soft_lmt := s, realtime_timeout_hard_lmt := h\<rparr>)]"

text \<open>Both limits pass through an \<open>int\<close> before they are widened to \<open>long\<close>.\<close>

definition parse_limits_line :: "boost \<Rightarrow> string \<Rightarrow> (process_info, unit) action" where
  "parse_limits_line B line p =
     (case regex_match B regex_limits line of
        Some [m1, m2, m3] \<Rightarrow>
          (case limit_value m2 of
             Inl e \<Rightarrow> (p, Inl e)
           | Inr soft_lmt \<Rightarrow>
               (case limit_value m3 of
                  Inl e \<Rightarrow> (p, Inl e)
                | Inr hard_lmt \<Rightarrow>
                    (case map_of limits_table (trim B m1) of
                       Some put \<Rightarrow>
                         (p\<lparr>m_limits := put (scast soft_lmt) (scast hard_lmt) (m_limits p)\<rparr>, Inr ())
                     | None \<Rightarrow> (p, Inr ()))))
      | _ \<Rightarrow> (p, Inr ()))"

definition readLimits :: "boost \<Rightarrow> world \<Rightarrow> (process_info, unit) action" where
  "readLimits B w p =
     (let file_path = m_proc_path p @ ''/limits''
      in if is_open w file_path then
           (let (if_limits, line) = getline CHR 0x0A (ifstream w file_path) []
            in for_each (parse_limits_line B) (lines_of if_limits) p)
         else (p, Inr ()))"

section \<open>Kernel stack\<close>

text \<open>\<^verbatim>\<open>^\[<([[:xdigit:]]+)>\]\s(.*)$\<close>\<close>

definition regex_stack :: pattern where
  "regex_stack =
    [Bare (Lit ''[<''), Group (Many1 XDigit), Bare (Lit ''>]''), Bare (One Space), Group (Many Any)]"

definition parse_stack_line :: "boost \<Rightarrow> string \<Rightarrow> process_info \<Rightarrow> process_info" where
  "parse_stack_line B line p =
     (case regex_match B regex_stack line of
        Some [m1, m2] \<Rightarrow>
          p\<lparr>m_stack := m_stack p @ [\<lparr>address = m1, function_name = m2\<rparr>]\<rparr>
      | _ \<Rightarrow> p)"

definition readStack :: "boost \<Rightarrow> world \<Rightarrow> process_info \<Rightarrow> process_info" where
  "readStack B w p =
     (let file_path = m_proc_path p @ ''/stack''
      in if is_open w file_path
         then fold (parse_stack_line B) (lines_of (ifstream w file_path)) p
         else p)"

section \<open>Properties\<close>

text \<open>The line of a hierarchy: number, subsystems, path.\<close>

definition cgroup_line :: "cgroup_hierarchy_t \<Rightarrow> string" where
  "cgroup_line c = nat_str (unat (hierarchy_id c)) @ CHR '':'' # join CHR '','' (subsystems c)
     @ CHR '':'' # cgroup c"

definition plain_cgroup :: "cgroup_hierarchy_t \<Rightarrow> bool" where
  "plain_cgroup c \<longleftrightarrow> unat (hierarchy_id c) \<le> 2147483647
     \<and> subsystems c \<noteq> [] \<and> (\<forall>s \<in> set (subsystems c). set s \<inter> set '':,'' = {} \<and> CHR 0x0A \<notin> set s)
     \<and> CHR '':'' \<notin> set (cgroup c) \<and> CHR 0x0A \<notin> set (cgroup c)"

lemma set_join: "set (join d ts) \<subseteq> insert d (\<Union> (set ` set ts))"
  by (induction d ts rule: join.induct) auto

lemma nat_str_digit_set: "c \<in> set (nat_str n) \<Longrightarrow> is_digit c"
  using nat_str_digits [of n] by (simp add: list_all_iff)

lemma join_free: "d' \<noteq> d \<Longrightarrow> \<forall>t \<in> set ts. d' \<notin> set t \<Longrightarrow> d' \<notin> set (join d ts)"
  using set_join [of d ts] by auto

lemma parse_cgroup_line_run:
  assumes "splitting (split_any B)" and "plain_cgroup c"
  shows "parse_cgroup_line B (cgroup_line c) p = (p\<lparr>m_cgroups := m_cgroups p @ [c]\<rparr>, Inr ())"
proof -
  note split = splitting.split_at [OF assms(1)] splitting.split_plain [OF assms(1)]
  have n: "CHR '':'' \<notin> set (nat_str (unat (hierarchy_id c)))"
    using nat_str_digit_set by fastforce
  have s: "CHR '':'' \<notin> set (join CHR '','' (subsystems c))"
    using assms(2) by (intro join_free) (auto simp: plain_cgroup_def)
  have "split_any B CHR '':'' (cgroup_line c)
      = [nat_str (unat (hierarchy_id c)), join CHR '','' (subsystems c), cgroup c]"
    using n s assms(2) by (simp add: cgroup_line_def split plain_cgroup_def)
  moreover have "split_any B CHR '','' (join CHR '','' (subsystems c)) = subsystems c"
    using assms(2) by (intro splitting.split_join [OF assms(1)]) (auto simp: plain_cgroup_def)
  moreover have "stoi 10 (nat_str (unat (hierarchy_id c))) = Inr (hierarchy_id c)"
    using assms(2) by (simp add: stoi_nat_str plain_cgroup_def)
  ultimately show ?thesis
    by (simp add: parse_cgroup_line_def)
qed

lemma cgroup_lines_run:
  assumes "splitting (split_any B)" and "\<forall>c \<in> set cs. plain_cgroup c"
  shows "for_each (parse_cgroup_line B) (map cgroup_line cs) p
    = (p\<lparr>m_cgroups := m_cgroups p @ cs\<rparr>, Inr ())"
  using assms(2) by (induction cs arbitrary: p) (simp_all add: parse_cgroup_line_run [OF assms(1)])

lemma cgroup_line_no_newline: "plain_cgroup c \<Longrightarrow> CHR 0x0A \<notin> set (cgroup_line c)"
proof -
  assume c: "plain_cgroup c"
  have "CHR 0x0A \<notin> set (nat_str n)" for n
    using nat_str_digit_set by fastforce
  moreover have "CHR 0x0A \<notin> set (join CHR '','' (subsystems c))"
    using c by (intro join_free) (auto simp: plain_cgroup_def)
  ultimately show ?thesis using c by (simp add: cgroup_line_def plain_cgroup_def)
qed

text \<open>
  Reading the control groups appends one entry per line, with its number, its subsystems
  and its path, to those that are there already: reading twice lists every hierarchy twice.
\<close>

theorem readCgroup_appends:
  assumes "splitting (split_any B)" and "\<forall>c \<in> set cs. plain_cgroup c"
    and "files w (m_proc_path p @ ''/cgroup'') = Some (unlines CHR 0x0A (map cgroup_line cs))"
  shows "readCgroup B w p = (p\<lparr>m_cgroups := m_cgroups p @ cs\<rparr>, Inr ())
    \<and> m_cgroups (fst (readCgroup B w (fst (readCgroup B w p)))) = m_cgroups p @ cs @ cs"
proof -
  have lines: "lines_of (ifstream w (m_proc_path p @ ''/cgroup'')) = map cgroup_line cs"
    unfolding ifstream_def assms(3)
    using assms(2) cgroup_line_no_newline by (intro lines_of_unlines) auto
  have "readCgroup B w q = (q\<lparr>m_cgroups := m_cgroups q @ cs\<rparr>, Inr ())"
    if "m_proc_path q = m_proc_path p" for q
    using assms(3) lines cgroup_lines_run [OF assms(1,2)]
    by (simp add: readCgroup_def is_open_def Let_def that)
  then show ?thesis by simp
qed

theorem readCgroup_appends_witness:
  "\<forall>raw. m_cgroups (fst (readCgroup reference_boost (stat_world ''/proc/7//cgroup'' (unlines CHR 0x0A
      (map cgroup_line [\<lparr>hierarchy_id = 5, subsystems = [''cpuacct'', ''cpu''], cgroup = ''/daemons''\<rparr>])))
      ((ProcessInfo raw 7)\<lparr>m_cgroups := []\<rparr>)))
     = [\<lparr>hierarchy_id = 5, subsystems = [''cpuacct'', ''cpu''], cgroup = ''/daemons''\<rparr>]"
proof
  fix raw
  let ?cs = "[\<lparr>hierarchy_id = 5, subsystems = [''cpuacct'', ''cpu''], cgroup = ''/daemons''\<rparr>]"
  have cs: "\<forall>c \<in> set ?cs. plain_cgroup c"
    by (simp add: plain_cgroup_def)
  have sp: "splitting (split_any reference_boost)"
    using reference.boost_library_axioms by (simp add: boost_library_def)
  have "files (stat_world ''/proc/7//cgroup'' (unlines CHR 0x0A (map cgroup_line ?cs)))
      (m_proc_path ((ProcessInfo raw 7)\<lparr>m_cgroups := []\<rparr>) @ ''/cgroup'')
    = Some (unlines CHR 0x0A (map cgroup_line ?cs))"
    by (simp add: constructed_path stat_world_def)
  from readCgroup_appends [OF sp cs this]
  show "m_cgroups (fst (readCgroup reference_boost (stat_world ''/proc/7//cgroup''
      (unlines CHR 0x0A (map cgroup_line ?cs))) ((ProcessInfo raw 7)\<lparr>m_cgroups := []\<rparr>))) = ?cs"
    by simp
qed

lemma stack_line_fits:
  assumes "hex_field a"
  shows "fits regex_stack (''[<'' @ a @ ''>]'' @ '' '' @ f) [a, f]"
proof -
  have "fits [Group (Many Any)] (f @ []) [f]"
    by (intro fits_Group fits_Nil) simp
  then have "fits [Group (Many Any)] f [f]" by simp
  then have "fits [Bare (One Space), Group (Many Any)] ('' '' @ f) [f]"
    by (rule fits_Bare [rotated]) simp
  then have "fits [Bare (Lit ''>]''), Bare (One Space), Group (Many Any)] (''>]'' @ '' '' @ f) [f]"
    by (rule fits_Bare [rotated]) simp
  then have "fits [Group (Many1 XDigit), Bare (Lit ''>]''), Bare (One Space), Group (Many Any)]
      (a @ ''>]'' @ '' '' @ f) [a, f]"
    using assms by (intro fits_Group [rotated]) (simp_all add: hex_field_def)
  then show ?thesis
    unfolding regex_stack_def by (rule fits_Bare [rotated]) simp
qed

lemma unambiguous_stack: "unambiguous regex_stack"
  by (auto simp: regex_stack_def is_xdigit_def)

lemma stack_lines_run:
  assumes "regex_engine (regex_match B)" and "\<forall>s \<in> set st. hex_field (address s)"
  shows "fold (parse_stack_line B) (map (\<lambda>s. ''[<'' @ address s @ ''>]'' @ '' '' @ function_name s) st) p
    = p\<lparr>m_stack := m_stack p @ st\<rparr>"
  using assms(2)
proof (induction st arbitrary: p)
  case Nil
  then show ?case by simp
next
  case (Cons s st)
  have "regex_match B regex_stack (''[<'' @ address s @ ''>]'' @ '' '' @ function_name s)
      = Some [address s, function_name s]"
    using Cons.prems by (intro regex_engine.match_unique [OF assms(1) unambiguous_stack] stack_line_fits) simp
  then have "parse_stack_line B (''[<'' @ address s @ ''>]'' @ '' '' @ function_name s) p
      = p\<lparr>m_stack := m_stack p @ [s]\<rparr>"
    unfolding parse_stack_line_def by simp
  with Cons show ?case by (simp del: append.simps)
qed

text \<open>
  Every line of the kernel stack is appended with its address and its function, in the
  order of the file.
\<close>

theorem readStack_entries:
  assumes "regex_engine (regex_match B)"
    and "\<forall>s \<in> set st. hex_field (address s) \<and> CHR 0x0A \<notin> set (function_name s)"
    and "files w (m_proc_path p @ ''/stack'') = Some (unlines CHR 0x0A
      (map (\<lambda>s. ''[<'' @ address s @ ''>]'' @ '' '' @ function_name s) st))"
  shows "readStack B w p = p\<lparr>m_stack := m_stack p @ st\<rparr>"
proof -
  have "CHR 0x0A \<notin> set a" if "hex_field a" for a
    using that by (auto simp: hex_field_def list_all_iff is_xdigit_def)
  then have "lines_of (ifstream w (m_proc_path p @ ''/stack''))
      = map (\<lambda>s. ''[<'' @ address s @ ''>]'' @ '' '' @ function_name s) st"
    unfolding ifstream_def assms(3) using assms(2) by (intro lines_of_unlines) auto
  then show ?thesis
    using assms stack_lines_run [OF assms(1), of st p]
    by (simp add: readStack_def is_open_def Let_def del: append.simps)
qed

theorem readStack_entries_witness:
  "\<forall>raw. m_stack (readStack reference_boost (stat_world ''/proc/7//stack'' (unlines CHR 0x0A
      (map (\<lambda>s. ''[<'' @ address s @ ''>]'' @ '' '' @ function_name s)
        [\<lparr>address = ''ffffffff8106f5a0'', function_name = ''do_wait+0x1e/0x2a''\<rparr>])))
      ((ProcessInfo raw 7)\<lparr>m_stack := []\<rparr>))
     = [\<lparr>address = ''ffffffff8106f5a0'', function_name = ''do_wait+0x1e/0x2a''\<rparr>]"
proof
  fix raw
  let ?st = "[\<lparr>address = ''ffffffff8106f5a0'', function_name = ''do_wait+0x1e/0x2a''\<rparr>]"
  let ?ls = "map (\<lambda>s. ''[<'' @ address s @ ''>]'' @ '' '' @ function_name s) ?st"
  let ?p = "(ProcessInfo raw 7)\<lparr>m_stack := []\<rparr>"
  have rx: "regex_engine (regex_match reference_boost)"
    using reference.boost_library_axioms by (simp add: boost_library_def)
  have st: "\<forall>s \<in> set ?st. hex_field (address s) \<and> CHR 0x0A \<notin> set (function_name s)"
    by (simp add: hex_field_def is_xdigit_def)
  have "files (stat_world ''/proc/7//stack'' (unlines CHR 0x0A ?ls)) (m_proc_path ?p @ ''/stack'')
      = Some (unlines CHR 0x0A ?ls)"
    by (simp add: constructed_path stat_world_def)
  from readStack_entries [OF rx st this]
  show "m_stack (readStack reference_boost (stat_world ''/proc/7//stack'' (unlines CHR 0x0A ?ls)) ?p) = ?st"
    by simp
qed

text \<open>
  The first line of the limits never matters, a limit that does not fit \<open>int\<close> ends the
  function with an exception, and of the lines that match only those with a known name store.
\<close>

theorem readLimits_line:
  assumes "files w (m_proc_path p @ ''/limits'') = Some (unlines CHR 0x0A [header, line])"
    and "CHR 0x0A \<notin> set header" and "CHR 0x0A \<notin> set line"
    and "regex_match B regex_limits line = Some [name, soft, hard]"
    and "limit_value soft = Inr s"
  shows "readLimits B w p =
    (case limit_value hard of Inl e \<Rightarrow> (p, Inl e)
     | Inr h \<Rightarrow> (case map_of limits_table (trim B name) of
           Some put \<Rightarrow> (p\<lparr>m_limits := put (scast s) (scast h) (m_limits p)\<rparr>, Inr ())
         | None \<Rightarrow> (p, Inr ())))"
proof -
  have "getline CHR 0x0A (ifstream w (m_proc_path p @ ''/limits'')) []
      = (istringstream (unlines CHR 0x0A [line]), header)"
    using getline_delimited [OF assms(2), of "unlines CHR 0x0A [line]" "[]"] assms(1)
    by (simp add: ifstream_def open_file_Some)
  moreover have "lines_of (istringstream (unlines CHR 0x0A [line])) = [line]"
    using lines_of_unlines [of "[line]"] assms(3) by (simp add: open_file_Some)
  ultimately show ?thesis
    using assms(1,4,5)
    by (simp add: readLimits_def is_open_def Let_def parse_limits_line_def
        split: option.splits sum.splits)
qed

lemma limits_example:
  "backtrack regex_limits ''Max cpu time 5 7'' = Some [''cpu time'', ''5'', ''7'']"
  by (simp add: backtrack_def regex_limits_def is_space_def is_digit_def)

theorem readLimits_line_witness:
  "\<forall>raw. cpu_time_hard_lmt (m_limits (fst (readLimits reference_boost
      (stat_world ''/proc/7//limits'' (unlines CHR 0x0A [''Limit'', ''Max cpu time 5 7'']))
      (ProcessInfo raw 7)))) = 7"
proof
  fix raw
  let ?w = "stat_world ''/proc/7//limits'' (unlines CHR 0x0A [''Limit'', ''Max cpu time 5 7''])"
  have f: "files ?w (m_proc_path (ProcessInfo raw 7) @ ''/limits'')
      = Some (unlines CHR 0x0A [''Limit'', ''Max cpu time 5 7''])"
    by (simp add: constructed_path stat_world_def)
  have n: "CHR 0x0A \<notin> set ''Limit''" "CHR 0x0A \<notin> set ''Max cpu time 5 7''"
    "regex_match reference_boost regex_limits ''Max cpu time 5 7'' = Some [''cpu time'', ''5'', ''7'']"
    by (simp_all add: limits_example)
  have v: "limit_value ''5'' = Inr 5" "limit_value ''7'' = Inr 7"
    by (simp_all add: limit_value_def num_eval)
  have "strip ''cpu time'' = ''cpu time''" by (simp add: strip_def is_space_def)
  then show "cpu_time_hard_lmt (m_limits (fst (readLimits reference_boost ?w (ProcessInfo raw 7)))) = 7"
    using readLimits_line [OF f n v(1)] v(2) by (simp add: limits_table_def)
qed

end
