(* ===== verification/Sockets.thy ===== *)
theory Sockets
  imports MMap
begin

text \<open>
  The socket tables of \<open>sysinfo.cpp\<close>: \<open>/proc/net/unix\<close> and \<open>/proc/net/tcp\<close>.  The address
  conversions \<open>htonl\<close> and \<open>inet_ntoa\<close> depend on the byte order of the machine, which is an
  argument; so does the text the kernel prints for an address.
\<close>

section \<open>Data\<close>

text \<open>The enumeration of \<open>sysinfo.h\<close>; a cast of another number keeps the number.\<close>

datatype socket_state =
    TCP_ESTABLISHED | TCP_SYN_SENT | TCP_SYN_RECV | TCP_FIN_WAIT1 | TCP_FIN_WAIT2
  | TCP_TIME_WAIT | TCP_CLOSE | TCP_CLOSE_WAIT | TCP_LAST_ACK | TCP_LISTEN | TCP_CLOSING
  | TCP_NEW_SYN_RECV | TCP_MAX_STATES | Unnamed_state c_int

definition socket_states :: "socket_state list" where
  "socket_states =
    [TCP_ESTABLISHED, TCP_SYN_SENT, TCP_SYN_RECV, TCP_FIN_WAIT1, TCP_FIN_WAIT2, TCP_TIME_WAIT,
     TCP_CLOSE, TCP_CLOSE_WAIT, TCP_LAST_ACK, TCP_LISTEN, TCP_CLOSING, TCP_NEW_SYN_RECV,
     TCP_MAX_STATES]"

text \<open>\<open>static_cast<enum socket_state>\<close>: the enumerators count from 1.\<close>

definition socket_state_of :: "c_int \<Rightarrow> socket_state" where
  "socket_state_of n =
     (if 1 \<le> unat n \<and> unat n \<le> length socket_states then socket_states ! (unat n - 1)
      else Unnamed_state n)"

record unix_socket_t =
  unix_num :: string
  ref_count :: c_int
  protocol :: c_int
  unix_flags :: c_int
  unix_type :: c_int
  unix_state :: socket_state
  unix_inode :: c_int
  unix_path :: string

record tcp_socket_t =
  tcp_num :: c_int
  local_address :: string
  local_port :: c_int
  rem_address :: string
  rem_port :: c_int
  tcp_state :: c_int
  tx_queue :: c_int
  rx_queue :: c_int
  timer_active :: c_int
  tm_when :: c_int
  retrnsmt :: c_int
  tcp_uid :: c_int

section \<open>Byte order\<close>

datatype endianness = Little | Big

definition byte :: "nat \<Rightarrow> c_uint \<Rightarrow> nat" where
  "byte k x = unat x div 256 ^ k mod 256"

text \<open>The bytes of a 32-bit object in the order of their addresses.\<close>

definition memory_bytes :: "endianness \<Rightarrow> c_uint \<Rightarrow> nat list" where
  "memory_bytes host x =
     (let bs = [byte 0 x, byte 1 x, byte 2 x, byte 3 x] in if host = Little then bs else rev bs)"

definition htonl :: "endianness \<Rightarrow> c_uint \<Rightarrow> c_uint" where
  "htonl host x =
     (if host = Little
      then of_nat (byte 0 x * 2 ^ 24 + byte 1 x * 2 ^ 16 + byte 2 x * 2 ^ 8 + byte 3 x) else x)"

definition dotted :: "nat list \<Rightarrow> string" where
  "dotted bs = join CHR ''.'' (map nat_str bs)"

definition inet_ntoa :: "endianness \<Rightarrow> c_uint \<Rightarrow> string" where
  "inet_ntoa host a = dotted (memory_bytes host a)"

section \<open>UNIX sockets\<close>

text \<open>
  \<^verbatim>\<open>^([[:xdigit:]]+):\s([[:digit:]]+)\s([[:digit:]]+)\s([[:digit:]]+)\s([[:digit:]]+)\s([[:digit:]]+)\s([[:digit:]]+)\s(.*)$\<close>
\<close>

definition regex_unix :: pattern where
  "regex_unix =
    [Group (Many1 XDigit), Bare (Lit '':''), Bare (One Space), Group (Many1 Digit), Bare (One Space),
     Group (Many1 Digit), Bare (One Space), Group (Many1 Digit), Bare (One Space),
     Group (Many1 Digit), Bare (One Space), Group (Many1 Digit), Bare (One Space),
     Group (Many1 Digit), Bare (One Space), Group (Many Any)]"

text \<open>The members are converted in this order; the state of the loop is the vector.\<close>

definition parse_unix_line :: "boost \<Rightarrow> string \<Rightarrow> (unix_socket_t list, unit) action" where
  "parse_unix_line B line unix_socket_list =
     (case regex_match B regex_unix line of
        Some [m1, m2, m3, m4, m5, m6, m7, m8] \<Rightarrow>
          and_then (\<lambda>l. (l, stoi 16 m2)) (\<lambda>v2.
          and_then (\<lambda>l. (l, stoi 10 m3)) (\<lambda>v3.
          and_then (\<lambda>l. (l, stoi 10 m4)) (\<lambda>v4.
          and_then (\<lambda>l. (l, stoi 10 m5)) (\<lambda>v5.
          and_then (\<lambda>l. (l, stoi 10 m6)) (\<lambda>v6.
          and_then (\<lambda>l. (l, stoi 10 m7)) (\<lambda>v7.
            modify (\<lambda>l. l @ [\<lparr>unix_num = m1, ref_count = v2, protocol = v3, unix_flags = v4,
              unix_type = v5, unix_state = socket_state_of v6, unix_inode = v7,
              unix_path = m8\<rparr>])))))))
            unix_socket_list
      | _ \<Rightarrow> (unix_socket_list, Inr ()))"

definition getSocketUNIX :: "boost \<Rightarrow> world \<Rightarrow> unix_socket_t list outcome" where
  "getSocketUNIX B w =
     (if is_open w ''/proc/net/unix'' then
        (case for_each (parse_unix_line B) (lines_of (ifstream w ''/proc/net/unix'')) [] of
           (l, Inl e) \<Rightarrow> Inl e
         | (l, Inr _) \<Rightarrow> Inr l)
      else Inr [])"

section \<open>TCP sockets\<close>

text \<open>
  \<^verbatim>\<open>^\s+([[:digit:]]+):\s([[:xdigit:]]+):([[:xdigit:]]+)\s([[:xdigit:]]+):([[:xdigit:]]+).*$\<close>
\<close>

definition regex_tcp :: pattern where
  "regex_tcp =
    [Bare (Many1 Space), Group (Many1 Digit), Bare (Lit '':''), Bare (One Space),
     Group (Many1 XDigit), Bare (Lit '':''), Group (Many1 XDigit), Bare (One Space),
     Group (Many1 XDigit), Bare (Lit '':''), Group (Many1 XDigit), Bare (Many Any)]"

text \<open>
  \<open>addr.s_addr = htonl (std::stol (s, 0, 16)); std::string (inet_ntoa (addr))\<close>: the \<open>long\<close> is
  narrowed to 32 bits.
\<close>

definition address_text :: "endianness \<Rightarrow> c_long \<Rightarrow> string" where
  "address_text host v = inet_ntoa host (htonl host (ucast v))"

text \<open>
  Five members of a socket are assigned, the others keep what the memory held: \<open>raw n\<close> for the
  n-th socket.
\<close>

definition parse_tcp_line ::
  "endianness \<Rightarrow> (nat \<Rightarrow> tcp_socket_t) \<Rightarrow> boost \<Rightarrow> string \<Rightarrow> (tcp_socket_t list, unit) action" where
  "parse_tcp_line host raw B line tcp_socket_list =
     (case regex_match B regex_tcp line of
        Some [m1, m2, m3, m4, m5] \<Rightarrow>
          and_then (\<lambda>l. (l, stoi 10 m1)) (\<lambda>v1.
          and_then (\<lambda>l. (l, stol 16 m2)) (\<lambda>v2.
          and_then (\<lambda>l. (l, stoi 16 m3)) (\<lambda>v3.
          and_then (\<lambda>l. (l, stol 16 m4)) (\<lambda>v4.
          and_then (\<lambda>l. (l, stoi 16 m5)) (\<lambda>v5.
            modify (\<lambda>l. l @ [(raw (length l))\<lparr>tcp_num := v1, local_address := address_text host v2,
              local_port := v3, rem_address := address_text host v4, rem_port := v5\<rparr>]))))))
            tcp_socket_list
      | _ \<Rightarrow> (tcp_socket_list, Inr ()))"

definition getSocketTCP ::
  "endianness \<Rightarrow> (nat \<Rightarrow> tcp_socket_t) \<Rightarrow> boost \<Rightarrow> world \<Rightarrow> tcp_socket_t list outcome" where
  "getSocketTCP host raw B w =
     (if is_open w ''/proc/net/tcp'' then
        (case for_each (parse_tcp_line host raw B) (lines_of (ifstream w ''/proc/net/tcp'')) [] of
           (l, Inl e) \<Rightarrow> Inl e
         | (l, Inr _) \<Rightarrow> Inr l)
      else Inr [])"

section \<open>Hexadecimal numbers of the kernel\<close>

text \<open>\<open>%0kX\<close>\<close>

definition hex_char :: "nat \<Rightarrow> char" where
  "hex_char d = char_of (if d < 10 then 48 + d else 55 + d)"

fun hex_str :: "nat \<Rightarrow> nat \<Rightarrow> string" where
  "hex_str 0 n = []"
| "hex_str (Suc k) n = hex_str k (n div 16) @ [hex_char (n mod 16)]"

lemma hex_char_class [simp]: "d < 16 \<Longrightarrow> is_xdigit (hex_char d)"
  by (simp add: hex_char_def is_xdigit_def Let_def)

lemma hex_char_val [simp]: "d < 16 \<Longrightarrow> digit_val (hex_char d) = d"
  by (simp add: hex_char_def digit_val_def Let_def)

lemma hex_str_digits [simp]: "list_all is_xdigit (hex_str k n)"
  by (induction k arbitrary: n) simp_all

lemma hex_str_length [simp]: "length (hex_str k n) = k"
  by (induction k arbitrary: n) simp_all

lemma hex_str_val: "n < 16 ^ k \<Longrightarrow> num_val 16 0 (hex_str k n) = n"
  by (induction k arbitrary: n) (simp_all add: num_val_append less_mult_imp_div_less mult.commute)

lemma hex_str_field [simp]: "0 < k \<Longrightarrow> hex_field (hex_str k n)"
  using hex_str_length [of k n] by (auto simp: hex_field_def simp del: hex_str_length)

lemma strto_xdigits:
  assumes "hex_field s"
  shows "strto 16 s = Some (int (num_val 16 0 s))"
proof -
  from assms obtain c r where s: "s = c # r" "is_xdigit c" "list_all is_xdigit r"
    by (cases s) (auto simp: hex_field_def)
  have x: "\<not> is_space d" "d \<noteq> CHR ''-''" "d \<noteq> CHR ''+''" "d \<noteq> CHR ''x''" "d \<noteq> CHR ''X''"
    if "is_xdigit d" for d
    using that by (auto simp: is_xdigit_def is_space_def Let_def)
  have "strip_0x 16 s = s"
  proof (cases r)
    case Nil
    with s show ?thesis by (simp add: strip_0x_def)
  next
    case (Cons d r')
    with s x [of d] show ?thesis by (simp add: strip_0x_def)
  qed
  moreover have "dropWhile is_space s = s" "split_sign s = (False, s)"
    using s x [of c] by simp_all
  ultimately show ?thesis
    using s by (simp add: strto_def Let_def takeWhile_all)
qed

lemma stol_hex8: "stol 16 (hex_str 8 (unat x)) = Inr (ucast x)" for x :: c_uint
proof -
  have lt: "unat x < 16 ^ 8"
    using unsigned_less [of x] by simp
  then have "num_val 16 0 (hex_str 8 (unat x)) = unat x"
    by (rule hex_str_val)
  moreover have "uint x < 4294967296"
    using uint_lt2p [of x] by simp
  moreover have "\<not> uint x < - 9223372036854775808"
    using uint_ge_0 [of x] by linarith
  ultimately show ?thesis
    by (simp add: stol_def sto_def strto_xdigits)
qed

lemma stoi_hex4: "n < 65536 \<Longrightarrow> stoi 16 (hex_str 4 n) = Inr (of_nat n)"
  using hex_str_val [of n 4] by (simp add: stoi_def sto_def strto_xdigits)

section \<open>Addresses\<close>

text \<open>The host integer whose bytes in memory are \<open>bs\<close>: what the kernel passes to \<open>%08X\<close>.\<close>

definition host_int :: "endianness \<Rightarrow> nat list \<Rightarrow> c_uint" where
  "host_int host bs =
     (case if host = Little then bs else rev bs of
        [a, b, c, d] \<Rightarrow> of_nat (a + b * 2 ^ 8 + c * 2 ^ 16 + d * 2 ^ 24)
      | _ \<Rightarrow> 0)"

definition ip_bytes :: "nat list \<Rightarrow> bool" where
  "ip_bytes bs \<longleftrightarrow> length bs = 4 \<and> (\<forall>b \<in> set bs. b < 256)"

lemma byte_of_bytes:
  assumes "a < 256" "b < 256" "c < 256" "d < 256"
    and "x = of_nat (a + b * 2 ^ 8 + c * 2 ^ 16 + d * 2 ^ 24)"
  shows "byte 0 x = a" "byte 1 x = b" "byte 2 x = c" "byte 3 x = d"
proof -
  obtain y2 where y2: "y2 = c + 256 * d" by simp
  obtain y1 where y1: "y1 = b + 256 * y2" by simp
  have sum: "a + b * 2 ^ 8 + c * 2 ^ 16 + d * 2 ^ 24 = a + 256 * y1"
    unfolding y1 y2 by simp
  have "a + 256 * y1 < 2 ^ 32"
    unfolding y1 y2 using assms(1-4) by simp
  then have u: "unat x = a + 256 * y1"
    unfolding assms(5) sum by (simp add: unat_of_nat del: of_nat_add)
  have 1: "unat x div 256 = y1" using u assms(1) by simp
  have 2: "y1 div 256 = y2" using y1 assms(2) by simp
  have 3: "y2 div 256 = d" using y2 assms(3) by simp
  have 4: "unat x div 256 ^ 2 = y2" "unat x div 256 ^ 3 = d"
    using 1 2 3 by (simp_all only: power2_eq_square power3_eq_cube div_mult2_eq)
  have 5: "unat x mod 256 = a" "y1 mod 256 = b" "y2 mod 256 = c" "d mod 256 = d"
    unfolding u using assms(1-4) by (simp_all only: y1 y2 mod_mult_self2 mod_less)
  show "byte 0 x = a" "byte 1 x = b" "byte 2 x = c" "byte 3 x = d"
    unfolding byte_def 4 by (simp_all only: 1 5 power_0 power_one_right div_by_1)
qed

text \<open>On either machine the printed address lists the bytes from the most significant one.\<close>

lemma network_order:
  "memory_bytes host (htonl host x) = [byte 3 x, byte 2 x, byte 1 x, byte 0 x]"
proof (cases host)
  case Little
  have lt: "byte k x < 256" for k by (simp add: byte_def)
  have swap: "a * 2 ^ 24 + b * 2 ^ 16 + c * 2 ^ 8 + d = d + c * 2 ^ 8 + b * 2 ^ 16 + a * 2 ^ 24"
    for a b c d :: nat by simp
  have "htonl host x
      = of_nat (byte 3 x + byte 2 x * 2 ^ 8 + byte 1 x * 2 ^ 16 + byte 0 x * 2 ^ 24)"
    unfolding htonl_def swap using Little by (simp only: if_True simp_thms)
  from byte_of_bytes [OF lt lt lt lt this] Little show ?thesis
    by (simp add: memory_bytes_def)
next
  case Big
  then show ?thesis by (simp add: memory_bytes_def htonl_def)
qed

lemma address_text_kernel:
  assumes "ip_bytes bs"
  shows "address_text host (ucast (host_int host bs)) = dotted (if host = Little then rev bs else bs)"
proof -
  from assms obtain a b c d where bs: "bs = [a, b, c, d]"
    and lt: "a < 256" "b < 256" "c < 256" "d < 256"
    by (auto simp: ip_bytes_def length_Suc_conv numeral_eq_Suc)
  have id: "ucast (ucast x :: c_long) = x" for x :: c_uint
    by (rule ucast_up_ucast_id) (simp add: is_up)
  have text_of: "address_text host (ucast y) = dotted [byte 3 y, byte 2 y, byte 1 y, byte 0 y]" for y
    by (simp add: address_text_def id inet_ntoa_def network_order)
  show ?thesis
  proof (cases host)
    case Little
    then have y: "host_int host bs = of_nat (a + b * 2 ^ 8 + c * 2 ^ 16 + d * 2 ^ 24)"
      by (simp add: host_int_def bs del: of_nat_add)
    show ?thesis
      unfolding text_of byte_of_bytes [OF lt y] using Little by (simp add: bs)
  next
    case Big
    then have y: "host_int host bs = of_nat (d + c * 2 ^ 8 + b * 2 ^ 16 + a * 2 ^ 24)"
      by (simp add: host_int_def bs del: of_nat_add)
    show ?thesis
      unfolding text_of byte_of_bytes [OF lt(4,3,2,1) y] using Big by (simp add: bs)
  qed
qed

section \<open>Lines of /proc/net/tcp\<close>

text \<open>
  An entry of the kernel: slot, the two addresses in network byte order, the ports, the rest.
  It is printed with \<open>%4d: %08X:%04X %08X:%04X\<close>, so the slot has leading blanks only when it has
  at most three digits.
\<close>

record tcp_entry =
  te_num :: nat
  te_local :: "nat list"
  te_lport :: nat
  te_rem :: "nat list"
  te_rport :: nat
  te_rest :: string

definition tcp_line :: "endianness \<Rightarrow> tcp_entry \<Rightarrow> string" where
  "tcp_line host e = aligned 4 (te_num e) @ CHR '':'' # CHR '' ''
     # hex_str 8 (unat (host_int host (te_local e))) @ CHR '':'' # hex_str 4 (te_lport e) @ CHR '' ''
     # hex_str 8 (unat (host_int host (te_rem e))) @ CHR '':'' # hex_str 4 (te_rport e) @ te_rest e"

definition kernel_entry :: "tcp_entry \<Rightarrow> bool" where
  "kernel_entry e \<longleftrightarrow> te_num e \<le> 2147483647 \<and> ip_bytes (te_local e) \<and> ip_bytes (te_rem e)
     \<and> te_lport e < 65536 \<and> te_rport e < 65536
     \<and> is_space (hd (te_rest e)) \<and> te_rest e \<noteq> [] \<and> CHR 0x0A \<notin> set (te_rest e)"

definition tcp_socket_of :: "endianness \<Rightarrow> tcp_socket_t \<Rightarrow> tcp_entry \<Rightarrow> tcp_socket_t" where
  "tcp_socket_of host raw e = raw\<lparr>tcp_num := of_nat (te_num e),
     local_address := dotted (if host = Little then rev (te_local e) else te_local e),
     local_port := of_nat (te_lport e),
     rem_address := dotted (if host = Little then rev (te_rem e) else te_rem e),
     rem_port := of_nat (te_rport e)\<rparr>"

lemma tcp_captures:
  assumes "perl_engine rx" and "dec_field n" "hex_field a" "hex_field b" "hex_field c" "hex_field d"
    and "r = [] \<or> \<not> is_xdigit (hd r)" and "padding sp"
  shows "rx regex_tcp (sp @ n @ CHR '':'' # CHR '' '' # a @ CHR '':'' # b @ CHR '' '' # c
      @ CHR '':'' # d @ r) = Some [n, a, b, c, d]"
proof -
  note many = perl_engine.match_many [OF assms(1)] and ch = perl_engine.match_char [OF assms(1)]
  have xd: "rx (Group (Many1 XDigit) # p) (s @ t) = Some (s # cs)"
    if "rx p t = Some cs" "hex_field s" "t = [] \<or> \<not> is_xdigit (hd t)" for p s t cs
    using that by (intro many(4)) (simp_all add: hex_field_def)
  have sp: "rx (Bare (One Space) # p) (CHR '' '' # t) = Some cs" if "rx p t = Some cs" for p t cs
    using that by (intro perl_engine.match_one [OF assms(1)]) simp_all
  have dd: "rx (Group (Many1 Digit) # p) (n @ CHR '':'' # t) = Some (n # cs)"
    if "rx p (CHR '':'' # t) = Some cs" for p t cs
    using assms(2) that by (intro many(4)) (simp_all add: dec_field_def)
  have "rx [Bare (Many Any)] r = Some []"
    by (intro perl_engine.match_rest [OF assms(1)]) simp
  note tail = dd [OF ch [OF sp [OF xd [OF ch [OF xd [OF sp [OF xd [OF ch
    [OF xd [OF this assms(6,7)]] assms(5)]] assms(4)]] assms(3)]]]]
  have "list_all (in_cls Space) sp" "sp \<noteq> []"
    using assms(8) by (simp_all add: padding_def)
  moreover have "\<not> is_space (hd (n @ t))" for t
    using assms(2) by (cases n) (simp_all add: dec_field_def)
  ultimately show ?thesis
    unfolding regex_tcp_def by (intro many(3) tail) simp_all
qed

text \<open>A slot of four digits or more: the line has no leading blank and the regex rejects it.\<close>

lemma tcp_wide_slot_unmatched:
  assumes "regex_engine (regex_match B)" and "1000 \<le> te_num e"
  shows "parse_tcp_line host raw B (tcp_line host e) l = (l, Inr ())"
proof -
  have "aligned (Suc 3) (te_num e) = nat_str (te_num e)"
    using assms(2) by (intro aligned_wide) simp
  then obtain rest where line: "tcp_line host e = nat_str (te_num e) @ rest"
    by (simp add: tcp_line_def)
  have "\<not> fits regex_tcp (tcp_line host e) cs" for cs
  proof
    assume "fits regex_tcp (tcp_line host e) cs"
    then obtain u t where "tcp_line host e = u @ t" "u \<noteq> []" "list_all is_space u"
      unfolding regex_tcp_def by (auto elim!: fits_BareE)
    then have "is_space (hd (tcp_line host e))" by (cases u) simp_all
    moreover have "is_digit (hd (tcp_line host e))"
      unfolding line using nat_str_hd by simp
    ultimately show False using digit_not_space by blast
  qed
  then have "regex_match B regex_tcp (tcp_line host e) = None"
    using regex_engine.no_match_iff [OF assms(1)] by blast
  then show ?thesis by (simp add: parse_tcp_line_def)
qed

lemma parse_tcp_line_run:
  assumes "perl_engine (regex_match B)" and "kernel_entry e" and "te_num e < 1000"
  shows "parse_tcp_line host raw B (tcp_line host e) l
    = (l @ [tcp_socket_of host (raw (length l)) e], Inr ())"
proof -
  have n: "dec_field (nat_str (te_num e))" by (simp add: dec_field_def)
  have r: "te_rest e = [] \<or> \<not> is_xdigit (hd (te_rest e))"
    using assms(2) xdigit_not_space by (auto simp: kernel_entry_def)
  have "te_num e < 10 ^ 3" using assms(3) by simp
  then obtain j where blanks: "aligned (Suc 3) (te_num e) = CHR '' '' # replicate j CHR '' '' @ nat_str (te_num e)"
    using aligned_narrow [of 3 "te_num e"] by auto
  have "padding (CHR '' '' # replicate j CHR '' '')"
    by (simp add: padding_def list_all_iff is_space_def)
  from tcp_captures [OF assms(1) n _ _ _ _ r this]
  have "regex_match B regex_tcp (tcp_line host e) = Some [nat_str (te_num e),
      hex_str 8 (unat (host_int host (te_local e))), hex_str 4 (te_lport e),
      hex_str 8 (unat (host_int host (te_rem e))), hex_str 4 (te_rport e)]"
    using blanks by (simp add: tcp_line_def del: hex_str.simps)
  moreover have "stoi 10 (nat_str (te_num e)) = Inr (of_nat (te_num e))"
    using assms(2) sto_digits [of "nat_str (te_num e)", where ?'a = 32]
    by (simp add: stoi_def kernel_entry_def)
  ultimately show ?thesis
    using assms(2) by (simp add: parse_tcp_line_def run_simps kernel_entry_def stol_hex8 stoi_hex4
        address_text_kernel tcp_socket_of_def del: hex_str.simps)
qed

lemma tcp_lines_run:
  assumes "perl_engine (regex_match B)" and "regex_engine (regex_match B)" and "\<forall>e \<in> set es. kernel_entry e"
  shows "for_each (parse_tcp_line host raw B) (map (tcp_line host) es) l
    = (l @ map (\<lambda>(i, e). tcp_socket_of host (raw i) e)
        (enumerate (length l) (filter (\<lambda>e. te_num e < 1000) es)), Inr ())"
  using assms(3)
proof (induction es arbitrary: l)
  case Nil
  then show ?case by simp
next
  case (Cons e es)
  then show ?case
    by (cases "te_num e < 1000")
       (simp_all add: parse_tcp_line_run [OF assms(1)] tcp_wide_slot_unmatched [OF assms(2)])
qed

lemma tcp_line_no_newline: "kernel_entry e \<Longrightarrow> CHR 0x0A \<notin> set (tcp_line host e)"
proof -
  assume e: "kernel_entry e"
  have "CHR 0x0A \<notin> set (hex_str k n)" for k n
    using hex_str_digits [of k n] by (auto simp: list_all_iff is_xdigit_def)
  then show ?thesis
    using e by (simp add: tcp_line_def kernel_entry_def del: hex_str.simps)
qed

lemma tcp_header_unmatched:
  assumes "regex_engine (regex_match B)" and "c \<noteq> []" and "\<not> is_space (hd c)" "\<not> is_digit (hd c)"
    and "list_all is_space sp"
  shows "parse_tcp_line host raw B (sp @ c) l = (l, Inr ())"
proof -
  have "\<not> fits regex_tcp (sp @ c) cs" for cs
  proof
    assume "fits regex_tcp (sp @ c) cs"
    then obtain u v ds where "sp @ c = u @ v" "accepts (Many1 Space) u"
      "fits (Group (Many1 Digit) # tl (tl regex_tcp)) v ds"
      unfolding regex_tcp_def by (elim fits_BareE) simp
    moreover from this(3) have "v \<noteq> [] \<and> is_digit (hd v)"
      by (elim fits_GroupE) (auto simp: neq_Nil_conv)
    ultimately have uv: "sp @ c = u @ v" "list_all is_space u" "v \<noteq> []" "is_digit (hd v)"
      by simp_all
    then have "dropWhile is_space (sp @ c) = v"
      using digit_not_space by (auto intro: dropWhile_prefix)
    moreover have "dropWhile is_space (sp @ c) = c"
      using assms(3,5) by (intro dropWhile_prefix) simp_all
    ultimately show False using uv(4) assms(4) by simp
  qed
  then have "regex_match B regex_tcp (sp @ c) = None"
    using regex_engine.no_match_iff [OF assms(1)] by blast
  then show ?thesis by (simp add: parse_tcp_line_def)
qed

text \<open>
  C10. The table of the kernel, whose header is skipped because it does not match, gives one
  socket per entry in a slot below 1000, in order, with its slot and ports; the entries from
  slot 1000 on, whose lines begin with a digit, are lost.  On a little-endian machine every
  address is printed with its bytes in the wrong order; the members that the loop does not
  assign keep what the memory held.
\<close>

theorem getSocketTCP_entries:
  assumes "boost_perl B" and "\<forall>e \<in> set es. kernel_entry e" and "CHR 0x0A \<notin> set header"
    and "files w ''/proc/net/tcp''
      = Some (unlines CHR 0x0A ((''  sl  '' @ header) # map (tcp_line host) es))"
  shows "getSocketTCP host raw B w
    = Inr (map (\<lambda>(i, e). tcp_socket_of host (raw i) e)
        (enumerate 0 (filter (\<lambda>e. te_num e < 1000) es)))"
proof -
  have perl: "perl_engine (regex_match B)" and rx: "regex_engine (regex_match B)"
    using assms(1) by (simp_all add: boost_perl_def boost_library_def)
  have "lines_of (ifstream w ''/proc/net/tcp'') = (''  sl  '' @ header) # map (tcp_line host) es"
    unfolding ifstream_def assms(4) using assms(2,3) tcp_line_no_newline
    by (intro lines_of_unlines) auto
  moreover have "parse_tcp_line host raw B (''  '' @ ''sl  '' @ header) [] = ([], Inr ())"
    by (rule tcp_header_unmatched [OF rx]) (simp_all add: is_space_def is_digit_def)
  ultimately show ?thesis
    using assms(4) tcp_lines_run [OF perl rx assms(2), of host raw "[]"]
    by (simp add: getSocketTCP_def is_open_def)
qed

text \<open>Slot 0 is returned with its address reversed, slot 1000 is not returned.\<close>

definition tcp_example :: "tcp_entry list" where
  "tcp_example = [\<lparr>te_num = 0, te_local = [127, 0, 0, 1], te_lport = 53, te_rem = [0, 0, 0, 0],
     te_rport = 0, te_rest = '' 0A''\<rparr>,
    \<lparr>te_num = 1000, te_local = [10, 0, 0, 2], te_lport = 443, te_rem = [10, 0, 0, 3],
     te_rport = 5000, te_rest = '' 01''\<rparr>]"

definition tcp_example_file :: string where
  "tcp_example_file = unlines CHR 0x0A ((''  sl  '' @ ''local_address'') # map (tcp_line Little) tcp_example)"

theorem getSocketTCP_entries_witness:
  "\<forall>raw. map local_address (case getSocketTCP Little raw reference_boost
      (empty_world\<lparr>files := [''/proc/net/tcp'' \<mapsto> tcp_example_file]\<rparr>) of Inl e \<Rightarrow> [] | Inr l \<Rightarrow> l)
    = [dotted [1, 0, 0, 127]]"
proof
  fix raw
  let ?w = "empty_world\<lparr>files := [''/proc/net/tcp'' \<mapsto> tcp_example_file]\<rparr>"
  have es: "\<forall>e \<in> set tcp_example. kernel_entry e"
    by (simp add: tcp_example_def kernel_entry_def ip_bytes_def is_space_def)
  have h: "CHR 0x0A \<notin> set ''local_address''" by simp
  have "files ?w ''/proc/net/tcp'' = Some (unlines CHR 0x0A ((''  sl  '' @ ''local_address'')
      # map (tcp_line Little) tcp_example))" by (simp add: tcp_example_file_def)
  from getSocketTCP_entries [OF reference.boost_perl_axioms es h this, of raw]
  show "map local_address (case getSocketTCP Little raw reference_boost ?w of Inl e \<Rightarrow> [] | Inr l \<Rightarrow> l)
      = [dotted [1, 0, 0, 127]]"
    by (simp add: tcp_example_def tcp_socket_of_def)
qed

section \<open>Lines of /proc/net/unix\<close>

text \<open>
  An entry of the kernel, printed with \<open>%pK: %08X %08X %08X %04X %02X %5lu\<close> and, when the socket
  has a name, a blank and the name.  The reference count of a socket in the table is at most
  \<open>INT_MAX\<close>; names with a newline are left out.
\<close>

record unix_entry =
  ue_num :: string
  ue_ref :: nat
  ue_proto :: nat
  ue_flags :: nat
  ue_type :: nat
  ue_state :: nat
  ue_inode :: nat
  ue_path :: "string option"

definition unix_line :: "unix_entry \<Rightarrow> string" where
  "unix_line e = ue_num e @ CHR '':'' # CHR '' '' # hex_str 8 (ue_ref e) @ CHR '' ''
     # hex_str 8 (ue_proto e) @ CHR '' '' # hex_str 8 (ue_flags e) @ CHR '' '' # hex_str 4 (ue_type e)
     @ CHR '' '' # hex_str 2 (ue_state e) @ CHR '' '' # aligned 5 (ue_inode e)
     @ (case ue_path e of None \<Rightarrow> [] | Some p \<Rightarrow> CHR '' '' # p)"

definition unix_kernel_entry :: "unix_entry \<Rightarrow> bool" where
  "unix_kernel_entry e \<longleftrightarrow> hex_field (ue_num e) \<and> ue_ref e \<le> 2147483647
     \<and> (case ue_path e of None \<Rightarrow> True | Some p \<Rightarrow> CHR 0x0A \<notin> set p)"

text \<open>
  The entries the regex accepts: every hexadecimal column but the first happens to have decimal
  digits only, the inode has at least five digits, and the socket has a name.
\<close>

definition unix_listed :: "unix_entry \<Rightarrow> bool" where
  "unix_listed e \<longleftrightarrow> list_all is_digit (hex_str 8 (ue_ref e)) \<and> list_all is_digit (hex_str 8 (ue_proto e))
     \<and> list_all is_digit (hex_str 8 (ue_flags e)) \<and> list_all is_digit (hex_str 4 (ue_type e))
     \<and> list_all is_digit (hex_str 2 (ue_state e)) \<and> 10000 \<le> ue_inode e \<and> ue_path e \<noteq> None"

text \<open>What is stored: the reference count is read in base 16, the others in base 10.\<close>

definition unix_socket_of :: "unix_entry \<Rightarrow> unix_socket_t" where
  "unix_socket_of e = \<lparr>unix_num = ue_num e, ref_count = of_nat (ue_ref e),
     protocol = of_nat (num_val 10 0 (hex_str 8 (ue_proto e))),
     unix_flags = of_nat (num_val 10 0 (hex_str 8 (ue_flags e))),
     unix_type = of_nat (num_val 10 0 (hex_str 4 (ue_type e))),
     unix_state = socket_state_of (of_nat (num_val 10 0 (hex_str 2 (ue_state e)))),
     unix_inode = of_nat (ue_inode e),
     unix_path = (case ue_path e of None \<Rightarrow> [] | Some p \<Rightarrow> p)\<rparr>"

definition unix_overflow :: "unix_entry \<Rightarrow> bool" where
  "unix_overflow e \<longleftrightarrow> unix_listed e \<and> 2147483647 < ue_inode e"

lemma num_val_bound: "list_all is_digit s \<Longrightarrow> num_val 10 a s < (a + 1) * 10 ^ length s"
proof (induction s arbitrary: a)
  case Nil
  then show ?case by simp
next
  case (Cons c s)
  then have "digit_val c \<le> 9" by (auto simp: is_digit_def digit_val_def Let_def)
  then have "(a * 10 + digit_val c + 1) * 10 ^ length s \<le> (a * 10 + 10) * 10 ^ length s"
    by (intro mult_right_mono) simp_all
  also have "\<dots> = (a + 1) * 10 ^ length (c # s)"
    by (simp add: algebra_simps)
  finally have "(a * 10 + digit_val c + 1) * 10 ^ length s \<le> (a + 1) * 10 ^ length (c # s)" .
  with Cons.IH [of "a * 10 + digit_val c"] Cons.prems show ?case
    unfolding num_val.simps list.pred_inject by (blast intro: less_le_trans)
qed

lemma stoi_digits:
  assumes "list_all is_digit s" and "s \<noteq> []" and "length s \<le> 8"
  shows "stoi 10 s = Inr (of_nat (num_val 10 0 s))"
proof -
  have "num_val 10 0 s < 10 ^ length s" using num_val_bound [OF assms(1), of 0] by simp
  also have "\<dots> \<le> 10 ^ 8" using assms(3) by (intro power_increasing) simp_all
  finally show ?thesis
    using sto_digits [OF assms(2,1), where ?'a = 32] by (simp add: stoi_def)
qed

lemma of_char_hex: "d < 16 \<Longrightarrow> (of_char (hex_char d) :: nat) = (if d < 10 then 48 + d else 55 + d)"
  unfolding hex_char_def by (simp add: of_char_of)

lemma hex_char_digit: "d < 16 \<Longrightarrow> is_digit (hex_char d) \<longleftrightarrow> d < 10"
  unfolding is_digit_def Let_def by (auto simp only: of_char_hex split: if_splits)

lemma hex_str_numeral:
  "hex_str (numeral k) n = hex_str (pred_numeral k) (n div 16) @ [hex_char (n mod 16)]"
  by (subst numeral_eq_Suc) (rule hex_str.simps(2))

lemma stoi_hex8: "n \<le> 2147483647 \<Longrightarrow> stoi 16 (hex_str 8 n) = Inr (of_nat n)"
  using hex_str_val [of n 8] by (simp add: stoi_def sto_def strto_xdigits del: hex_str.simps)

lemma stoi_nat_str_cases:
  "stoi 10 (nat_str n) = (if n \<le> 2147483647 then Inr (of_nat n) else Inl Out_of_range)"
  using sto_digits [of "nat_str n", where ?'a = 32] by (simp add: stoi_def)

text \<open>
  A column without blanks in front of a blank is decided: the group takes it whole, so it has to
  consist of digits, and what follows has to match the rest.
\<close>

lemma fits_column:
  assumes "\<exists>cs. fits (Group (Many1 Digit) # Bare (One Space) # p) (col @ CHR '' '' # r) cs"
    and "list_all is_xdigit col"
  shows "list_all is_digit col \<and> (\<exists>cs. fits p r cs)"
proof -
  obtain cs u s ds where u: "col @ CHR '' '' # r = u @ s" "accepts (Many1 Digit) u"
      "fits (Bare (One Space) # p) s ds"
    using assms(1) by (elim exE fits_GroupE)
  from u(3) obtain x t where x: "s = x # t" "is_space x" "fits p t ds"
    by (elim fits_BareE) (auto simp: length_Suc_conv)
  have "takeWhile is_xdigit (col @ CHR '' '' # r) = col"
    using assms(2) by (intro takeWhile_prefix) simp_all
  moreover have "takeWhile is_xdigit (u @ x # t) = u"
    using u(2) x(2) xdigit_not_space by (intro takeWhile_prefix) (auto simp: list_all_iff)
  ultimately have "col = u" using u(1) x(1) by simp
  with u x show ?thesis by auto
qed

lemma fits_num:
  assumes "fits (Group (Many1 XDigit) # Bare (Lit '':'') # Bare (One Space) # p)
    (ds @ CHR '':'' # CHR '' '' # r) cs" and "hex_field ds"
  shows "\<exists>cs'. fits p r cs'"
proof -
  obtain u s cs1 where u: "ds @ CHR '':'' # CHR '' '' # r = u @ s" "accepts (Many1 XDigit) u"
      "fits (Bare (Lit '':'') # Bare (One Space) # p) s cs1"
    using assms(1) by (rule fits_GroupE)
  from u(3) obtain v t where "s = v @ t" "accepts (Lit '':'') v" "fits (Bare (One Space) # p) t cs1"
    by (rule fits_BareE)
  then have t: "s = CHR '':'' # t" "fits (Bare (One Space) # p) t cs1" by simp_all
  have "takeWhile is_xdigit (ds @ CHR '':'' # CHR '' '' # r) = ds"
    using assms(2) by (intro takeWhile_prefix) (simp_all add: hex_field_def)
  moreover have "takeWhile is_xdigit (u @ CHR '':'' # t) = u"
    using u(2) by (intro takeWhile_prefix) simp_all
  ultimately have "t = CHR '' '' # r" using u(1) t(1) by simp
  with t(2) show ?thesis
    by (elim fits_BareE) (auto simp: length_Suc_conv)
qed

lemma unix_unlisted_unmatched:
  assumes "unix_kernel_entry e" and "\<not> unix_listed e"
  shows "\<not> fits regex_unix (unix_line e) cs"
proof
  assume "fits regex_unix (unix_line e) cs"
  note num = fits_num [OF this [unfolded regex_unix_def unix_line_def]]
  have "hex_field (ue_num e)" using assms(1) by (simp add: unix_kernel_entry_def)
  note f1 = fits_column [OF num [OF this] hex_str_digits]
  note f2 = fits_column [OF conjunct2 [OF f1] hex_str_digits]
  note f3 = fits_column [OF conjunct2 [OF f2] hex_str_digits]
  note f4 = fits_column [OF conjunct2 [OF f3] hex_str_digits]
  note f5 = fits_column [OF conjunct2 [OF f4] hex_str_digits]
  from conjunct2 [OF f5] obtain u s ds where u: "aligned 5 (ue_inode e)
      @ (case ue_path e of None \<Rightarrow> [] | Some p \<Rightarrow> CHR '' '' # p) = u @ s"
    "u \<noteq> []" "list_all is_digit u" "fits [Bare (One Space), Group (Many Any)] s ds"
    by (elim exE fits_GroupE) simp
  from u(4) obtain x t where x: "s = x # t" "is_space x"
    by (elim fits_BareE) (auto simp: length_Suc_conv)
  show False
  proof (cases "10000 \<le> ue_inode e")
    case False
    then have "ue_inode e < 10 ^ 4" by simp
    then obtain j where "aligned (Suc 4) (ue_inode e) = CHR '' '' # replicate j CHR '' '' @ nat_str (ue_inode e)"
      using aligned_narrow [of 4 "ue_inode e"] by auto
    with u(1-3) show False by (cases u) simp_all
  next
    case True
    then have inode: "aligned (Suc 4) (ue_inode e) = nat_str (ue_inode e)"
      by (intro aligned_wide) simp
    from assms(2) True f1 f2 f3 f4 f5 have "ue_path e = None" by (simp add: unix_listed_def del: hex_str.simps)
    with inode u(1) x have "x \<in> set (nat_str (ue_inode e))" by simp
    then have "is_digit x"
      using nat_str_digits [of "ue_inode e"] by (auto simp: list_all_iff)
    with x(2) show False by simp
  qed
qed

lemma unix_listed_captures:
  assumes "regex_engine (regex_match B)" and "unix_kernel_entry e" and "unix_listed e" and "ue_path e = Some p"
  shows "regex_match B regex_unix (unix_line e) = Some [ue_num e, hex_str 8 (ue_ref e),
    hex_str 8 (ue_proto e), hex_str 8 (ue_flags e), hex_str 4 (ue_type e), hex_str 2 (ue_state e),
    nat_str (ue_inode e), p]"
proof (rule regex_engine.match_unique [OF assms(1)])
  show "unambiguous regex_unix"
    by (auto simp: regex_unix_def is_xdigit_def)
  have g: "fits (Group (Many1 k) # q) (s @ t) (s # cs)"
    if "fits q t cs" "s \<noteq> []" "list_all (in_cls k) s" for k q s t cs
    using that by (intro fits_Group) simp_all
  have sp: "fits (Bare (One Space) # q) (CHR '' '' # t) cs" if "fits q t cs" for q t cs
    using fits_Bare [of "One Space" "'' ''" q t cs] that by simp
  have co: "fits (Bare (Lit '':'') # q) (CHR '':'' # t) cs" if "fits q t cs" for q t cs
    using fits_Bare [of "Lit '':''" "'':''" q t cs] that by simp
  have any: "fits [Group (Many Any)] p [p]"
    using fits_Group [of "Many Any" p "[]" "[]" "[]"] by simp
  have "10 ^ 4 \<le> ue_inode e" using assms(3) by (simp add: unix_listed_def)
  then have inode: "aligned (Suc 4) (ue_inode e) = nat_str (ue_inode e)"
    by (rule aligned_wide)
  have line: "unix_line e = ue_num e @ CHR '':'' # CHR '' '' # hex_str 8 (ue_ref e) @ CHR '' ''
     # hex_str 8 (ue_proto e) @ CHR '' '' # hex_str 8 (ue_flags e) @ CHR '' '' # hex_str 4 (ue_type e)
     @ CHR '' '' # hex_str 2 (ue_state e) @ CHR '' '' # nat_str (ue_inode e) @ CHR '' '' # p"
    using inode by (simp add: unix_line_def assms(4) del: hex_str.simps)
  have ne: "hex_str 8 n \<noteq> []" "hex_str 4 n \<noteq> []" "hex_str 2 n \<noteq> []" for n
    using hex_str_length [of 8 n] hex_str_length [of 4 n] hex_str_length [of 2 n]
    by (auto simp del: hex_str_length hex_str.simps)
  show "fits regex_unix (unix_line e) [ue_num e, hex_str 8 (ue_ref e),
    hex_str 8 (ue_proto e), hex_str 8 (ue_flags e), hex_str 4 (ue_type e), hex_str 2 (ue_state e),
    nat_str (ue_inode e), p]"
    unfolding regex_unix_def line
    by (intro g sp co any) (use assms(2,3) ne in \<open>simp_all add: unix_kernel_entry_def unix_listed_def
      hex_field_def del: hex_str.simps\<close>)
qed

lemma parse_unix_line_run:
  assumes "regex_engine (regex_match B)" and "unix_kernel_entry e"
  shows "parse_unix_line B (unix_line e) l
    = (if unix_overflow e then (l, Inl Out_of_range)
       else (if unix_listed e then l @ [unix_socket_of e] else l, Inr ()))"
proof (cases "unix_listed e")
  case True
  then obtain p where p: "ue_path e = Some p" by (auto simp: unix_listed_def)
  have ne: "hex_str 8 n \<noteq> []" "hex_str 4 n \<noteq> []" "hex_str 2 n \<noteq> []" for n
    using hex_str_length [of 8 n] hex_str_length [of 4 n] hex_str_length [of 2 n]
    by (auto simp del: hex_str_length hex_str.simps)
  have "list_all is_digit (hex_str 8 (ue_proto e))" "list_all is_digit (hex_str 8 (ue_flags e))"
    "list_all is_digit (hex_str 4 (ue_type e))" "list_all is_digit (hex_str 2 (ue_state e))"
    using True by (simp_all add: unix_listed_def del: hex_str.simps)
  note columns = this [THEN stoi_digits]
  have "ue_ref e \<le> 2147483647" using assms(2) by (simp add: unix_kernel_entry_def)
  with unix_listed_captures [OF assms True p] True show ?thesis
    by (simp add: parse_unix_line_def run_simps columns ne stoi_hex8 stoi_nat_str_cases
        unix_socket_of_def unix_overflow_def p del: hex_str.simps)
next
  case False
  with unix_unlisted_unmatched [OF assms(2)] regex_engine.no_match_iff [OF assms(1)]
  have "regex_match B regex_unix (unix_line e) = None" by blast
  with False show ?thesis by (simp add: parse_unix_line_def unix_overflow_def)
qed

lemma unix_lines_run:
  assumes "regex_engine (regex_match B)" and "\<forall>e \<in> set es. unix_kernel_entry e"
  shows "(case for_each (parse_unix_line B) (map unix_line es) l of (l', Inl x) \<Rightarrow> Inl x | (l', Inr _) \<Rightarrow> Inr l')
    = (if \<exists>e \<in> set es. unix_overflow e then Inl Out_of_range
       else Inr (l @ map unix_socket_of (filter unix_listed es)))"
  using assms(2)
proof (induction es arbitrary: l)
  case Nil
  then show ?case by simp
next
  case (Cons e es)
  then have "unix_kernel_entry e" by simp
  note line = parse_unix_line_run [OF assms(1) this]
  from Cons show ?case by (cases "unix_overflow e"; cases "unix_listed e") (simp_all add: line)
qed

lemma unix_line_no_newline: "unix_kernel_entry e \<Longrightarrow> CHR 0x0A \<notin> set (unix_line e)"
proof -
  assume e: "unix_kernel_entry e"
  have "CHR 0x0A \<notin> set s" if "list_all is_xdigit s" for s
    using that by (auto simp: list_all_iff is_xdigit_def)
  note this [of "ue_num e"] this [OF hex_str_digits]
  with e show ?thesis
    by (simp add: unix_line_def unix_kernel_entry_def hex_field_def del: hex_str.simps split: option.splits)
qed

text \<open>
  C18. The table of the kernel, whose header is skipped because it does not match.  Exactly those
  entries are returned, in order, that have a name, an inode of five digits or more, and
  reference count, protocol, flags, type and state without one of the hexadecimal digits A to F; all
  others are lost.  The reference count is read in base 16, the protocol, the flags, the type and the
  state in base 10.  An inode above \<open>INT_MAX\<close> in such a line makes the function throw.
\<close>

theorem getSocketUNIX_entries:
  assumes "boost_library B" and "\<forall>e \<in> set es. unix_kernel_entry e" and "CHR 0x0A \<notin> set header"
    and "files w ''/proc/net/unix'' = Some (unlines CHR 0x0A ((''Num'' @ header) # map unix_line es))"
  shows "getSocketUNIX B w =
    (if \<exists>e \<in> set es. unix_overflow e then Inl Out_of_range
     else Inr (map unix_socket_of (filter unix_listed es)))"
proof -
  have rx: "regex_engine (regex_match B)"
    using assms(1) by (simp add: boost_library_def)
  have lines: "lines_of (ifstream w ''/proc/net/unix'') = (''Num'' @ header) # map unix_line es"
    unfolding ifstream_def assms(4) using assms(2,3) unix_line_no_newline
    by (intro lines_of_unlines) auto
  have "\<not> fits regex_unix (''Num'' @ header) cs" for cs
  proof
    assume "fits regex_unix (''Num'' @ header) cs"
    then obtain u t where "''Num'' @ header = u @ t" "u \<noteq> []" "list_all is_xdigit u"
      unfolding regex_unix_def by (elim fits_GroupE) auto
    then have "is_xdigit CHR ''N''" by (cases u) auto
    then show False by (simp add: is_xdigit_def)
  qed
  then have "regex_match B regex_unix (''Num'' @ header) = None"
    using regex_engine.no_match_iff [OF rx] by blast
  then have "parse_unix_line B (''Num'' @ header) [] = ([], Inr ())"
    by (simp add: parse_unix_line_def)
  then show ?thesis
    using assms(4) lines unix_lines_run [OF rx assms(2), of "[]"]
    by (simp add: getSocketUNIX_def is_open_def)
qed

text \<open>
  The sample of the source, a socket without a name, one with a padded inode, and one with ten
  references, whose count is printed as \<open>0000000A\<close>.
\<close>

definition unix_example :: "unix_entry list" where
  "unix_example =
    [\<lparr>ue_num = ''ffff8800c6110000'', ue_ref = 2, ue_proto = 0, ue_flags = 65536, ue_type = 1,
       ue_state = 1, ue_inode = 29692, ue_path = Some ''@/tmp/.ICE-unix/3006''\<rparr>,
     \<lparr>ue_num = ''ffff8800c6110400'', ue_ref = 2, ue_proto = 0, ue_flags = 0, ue_type = 2,
       ue_state = 1, ue_inode = 29700, ue_path = None\<rparr>,
     \<lparr>ue_num = ''ffff8800c6110800'', ue_ref = 2, ue_proto = 0, ue_flags = 0, ue_type = 2,
       ue_state = 1, ue_inode = 8123, ue_path = Some ''/run/a''\<rparr>,
     \<lparr>ue_num = ''ffff8800c6110c00'', ue_ref = 10, ue_proto = 0, ue_flags = 0, ue_type = 2,
       ue_state = 1, ue_inode = 29710, ue_path = Some ''/dev/log''\<rparr>]"

definition unix_example_file :: string where
  "unix_example_file =
     unlines CHR 0x0A ((''Num'' @ ''       RefCount Protocol Flags    Type St Inode Path'') # map unix_line unix_example)"

theorem getSocketUNIX_entries_witness:
  "(case getSocketUNIX reference_boost (empty_world\<lparr>files := [''/proc/net/unix'' \<mapsto> unix_example_file]\<rparr>) of
      Inl e \<Rightarrow> [] | Inr l \<Rightarrow> map (\<lambda>s. (ref_count s, unix_flags s, unix_state s)) l)
   = [(2, 10000, TCP_ESTABLISHED)]"
proof -
  let ?w = "empty_world\<lparr>files := [''/proc/net/unix'' \<mapsto> unix_example_file]\<rparr>"
  have es: "\<forall>e \<in> set unix_example. unix_kernel_entry e"
    by (simp add: unix_example_def unix_kernel_entry_def hex_field_def is_xdigit_def)
  have h: "CHR 0x0A \<notin> set ''       RefCount Protocol Flags    Type St Inode Path''" by simp
  have "files ?w ''/proc/net/unix'' = Some (unlines CHR 0x0A
      ((''Num'' @ ''       RefCount Protocol Flags    Type St Inode Path'') # map unix_line unix_example))"
    by (simp add: unix_example_file_def)
  note entries = getSocketUNIX_entries [OF reference.boost_library_axioms es h this]
  have listed: "filter unix_listed unix_example = [hd unix_example]"
    by (simp add: unix_example_def unix_listed_def hex_str_numeral hex_char_digit)
  have "\<not> (\<exists>e \<in> set unix_example. unix_overflow e)"
    by (simp add: unix_example_def unix_overflow_def)
  with entries listed show ?thesis
    by (simp add: unix_example_def unix_socket_of_def hex_str_numeral socket_state_of_def
        socket_states_def)
qed

end
