(* ===== verification/Proc_List.thy ===== *)
theory Proc_List
  imports Process_Files
begin

text \<open>
  The process list of \<open>sysinfo.cpp\<close>: the directories of \<open>/proc\<close> whose names are numbers, and
  one new \<open>ProcessInfo\<close> for each.
\<close>

section \<open>Listing\<close>

text \<open>\<^verbatim>\<open>\d+\<close>\<close>

definition regex_pid :: pattern where
  "regex_pid = [Bare (Many1 Digit)]"

text \<open>The state of the loop is the vector; the iterator throws when \<open>/proc\<close> cannot be listed.\<close>

definition processListPid :: "boost \<Rightarrow> world \<Rightarrow> c_int list outcome" where
  "processListPid B w =
     (case directories w ''/proc'' of
        None \<Rightarrow> Inl Filesystem_error
      | Some entries \<Rightarrow>
          (case for_each
             (\<lambda>e. if is_dir e \<and> regex_match B regex_pid (filename e) \<noteq> None
                  then assign (stoi 10 (filename e)) (\<lambda>pid l. l @ [pid]) else returns ())
             entries [] of
             (l, Inl e) \<Rightarrow> Inl e
           | (l, Inr _) \<Rightarrow> Inr l))"

definition processCount :: "boost \<Rightarrow> world \<Rightarrow> c_int outcome" where
  "processCount B w =
     (case processListPid B w of Inl e \<Rightarrow> Inl e | Inr l \<Rightarrow> Inr (of_nat (length l)))"

text \<open>
  The constructor opens no file and throws nothing, so the two \<open>catch\<close> clauses of the loop never
  run.  \<open>raw n\<close> is what the memory of the n-th object held.
\<close>

definition processList ::
  "(nat \<Rightarrow> process_info) \<Rightarrow> boost \<Rightarrow> world \<Rightarrow> process_info list outcome" where
  "processList raw B w =
     (case processListPid B w of
        Inl e \<Rightarrow> Inl e
      | Inr pids \<Rightarrow>
          Inr (fold (\<lambda>pid process_list. process_list @ [ProcessInfo (raw (length process_list)) pid])
                 pids []))"

section \<open>Properties\<close>

definition pid_directory :: "dir_entry \<Rightarrow> bool" where
  "pid_directory e \<longleftrightarrow> is_dir e \<and> dec_field (filename e)"

lemma regex_pid_iff:
  assumes "regex_engine rx"
  shows "rx regex_pid s \<noteq> None \<longleftrightarrow> dec_field s"
proof -
  have "(\<exists>cs. fits regex_pid s cs) \<longleftrightarrow> dec_field s"
  proof
    assume "\<exists>cs. fits regex_pid s cs"
    then show "dec_field s"
      by (auto simp: regex_pid_def dec_field_def elim!: fits_BareE)
  next
    assume "dec_field s"
    then show "\<exists>cs. fits regex_pid s cs"
      using fits_Bare [OF _ fits_Nil, of "Many1 Digit" s] by (auto simp: regex_pid_def dec_field_def)
  qed
  then show ?thesis
    unfolding regex_engine.no_match_iff [OF assms] by simp
qed

definition entry_pid :: "dir_entry \<Rightarrow> c_int" where
  "entry_pid e = of_nat (num_val 10 0 (filename e))"

lemma pid_loop:
  assumes "regex_engine (regex_match B)"
    and "\<forall>e \<in> set es. pid_directory e \<longrightarrow> num_val 10 0 (filename e) \<le> 2147483647"
  shows "for_each
     (\<lambda>e. if is_dir e \<and> regex_match B regex_pid (filename e) \<noteq> None
          then assign (stoi 10 (filename e)) (\<lambda>pid l. l @ [pid]) else returns ())
     es l = (l @ map entry_pid (filter pid_directory es), Inr ())"
  using assms(2)
proof (induction es arbitrary: l)
  case Nil
  then show ?case by simp
next
  case (Cons e es)
  have cond: "(is_dir e \<and> regex_match B regex_pid (filename e) \<noteq> None) = pid_directory e"
    unfolding pid_directory_def regex_pid_iff [OF assms(1)] ..
  show ?case
  proof (cases "pid_directory e")
    case True
    with Cons.prems have "stoi 10 (filename e) = Inr (entry_pid e)"
      using sto_digits [of "filename e", where ?'a = 32]
      by (simp add: stoi_def entry_pid_def pid_directory_def dec_field_def)
    with True Cons show ?thesis by (simp add: cond run_simps del: not_None_eq)
  next
    case False
    with Cons show ?thesis by (simp add: cond run_simps del: not_None_eq)
  qed
qed

lemma fold_constructs:
  "fold (\<lambda>pid l. l @ [ProcessInfo (raw (length l)) pid]) pids l
   = l @ map (\<lambda>(i, pid). ProcessInfo (raw i) pid) (enumerate (length l) pids)"
  by (induction pids arbitrary: l) simp_all

text \<open>
  C16. The list holds one object per directory of \<open>/proc\<close> whose name is a number, in the order of
  the directory, and nothing for a file, a link or another name; each object has that number as
  its pid, its path under \<open>/proc\<close>, and every group still to be read.  The count is its length.
\<close>

theorem processList_objects:
  assumes "regex_engine (regex_match B)" and "directories w ''/proc'' = Some es"
    and "\<forall>e \<in> set es. pid_directory e \<longrightarrow> num_val 10 0 (filename e) \<le> 2147483647"
    and "pids = map entry_pid (filter pid_directory es)"
  shows "\<exists>ps. processList raw B w = Inr ps \<and> map m_pid ps = pids
    \<and> (\<forall>p \<in> set ps. p = needUpdate p \<and> m_proc_path p = ''/proc/'' @ to_string (m_pid p) @ ''/'')
    \<and> processCount B w = Inr (of_nat (length ps))"
proof -
  have pids: "processListPid B w = Inr pids"
    using pid_loop [OF assms(1,3), of "[]"] assms(2,4) by (simp add: processListPid_def)
  let ?ps = "map (\<lambda>(i, pid). ProcessInfo (raw i) pid) (enumerate 0 pids)"
  have new: "m_pid (ProcessInfo r n) = n" "needUpdate (ProcessInfo r n) = ProcessInfo r n"
    "m_proc_path (ProcessInfo r n) = ''/proc/'' @ to_string n @ ''/''" for r n
    by (simp_all add: ProcessInfo_def Let_def) (simp_all add: needUpdate_def)
  have "processList raw B w = Inr ?ps"
    using pids fold_constructs [of raw pids "[]"] by (simp add: processList_def)
  moreover have "map m_pid ?ps = pids"
    by (simp add: new comp_def split_beta)
  moreover have "\<forall>p \<in> set ?ps. p = needUpdate p \<and> m_proc_path p = ''/proc/'' @ to_string (m_pid p) @ ''/''"
    by (auto simp: new)
  moreover have "processCount B w = Inr (of_nat (length ?ps))"
    using pids by (simp add: processCount_def)
  ultimately show ?thesis by blast
qed

theorem processList_objects_witness:
  "\<forall>raw. \<exists>ps. processList raw reference_boost (empty_world\<lparr>directories := [''/proc'' \<mapsto>
      [\<lparr>filename = ''1'', is_dir = True\<rparr>, \<lparr>filename = ''sys'', is_dir = True\<rparr>,
       \<lparr>filename = ''42'', is_dir = True\<rparr>, \<lparr>filename = ''7'', is_dir = False\<rparr>]]\<rparr>) = Inr ps
     \<and> map m_pid ps = [1, 42]"
proof
  fix raw
  let ?es = "[\<lparr>filename = ''1'', is_dir = True\<rparr>, \<lparr>filename = ''sys'', is_dir = True\<rparr>,
       \<lparr>filename = ''42'', is_dir = True\<rparr>, \<lparr>filename = ''7'', is_dir = False\<rparr>]"
  let ?w = "empty_world\<lparr>directories := [''/proc'' \<mapsto> ?es]\<rparr>"
  have rx: "regex_engine (regex_match reference_boost)"
    using reference.boost_library_axioms by (simp add: boost_library_def)
  have es: "\<forall>e \<in> set ?es. pid_directory e \<longrightarrow> num_val 10 0 (filename e) \<le> 2147483647"
    by (simp add: digit_val_def)
  have pids: "[1, 42] = map entry_pid (filter pid_directory ?es)"
    by (simp add: pid_directory_def dec_field_def entry_pid_def is_digit_def digit_val_def)
  have "directories ?w ''/proc'' = Some ?es" by simp
  from processList_objects [OF rx this es pids, of raw]
  show "\<exists>ps. processList raw reference_boost ?w = Inr ps \<and> map m_pid ps = [1, 42]"
    by (elim exE conjE) (intro exI conjI)
qed

end
