(* ===== verification/Proc_Connector.thy ===== *)
theory Proc_Connector
  imports Prelude
begin

text \<open>
  \<open>procconnector.cpp\<close>: the client of the kernel's process-event connector.  The object is
  explicit state together with \<open>errno\<close> and the trace of the system calls and callbacks; what
  the kernel answers is an argument of every operation.  The constructor, the subscription,
  the loop over the events and the destructor are modelled; \<open>listenBlock\<close> never returns
  normally, so it is a partial function whose value says how it ended.
\<close>

section \<open>System calls\<close>

text \<open>Numbers of the Linux headers that the source names.\<close>

definition PF_NETLINK :: c_int where "PF_NETLINK = 16"
definition SOCK_DGRAM :: c_int where "SOCK_DGRAM = 2"
definition NETLINK_CONNECTOR :: c_int where "NETLINK_CONNECTOR = 11"
definition CN_IDX_PROC :: c_uint where "CN_IDX_PROC = 1"
definition CN_VAL_PROC :: c_uint where "CN_VAL_PROC = 1"
definition NLMSG_DONE :: c_uint where "NLMSG_DONE = 3"
definition PROC_CN_MCAST_LISTEN :: c_uint where "PROC_CN_MCAST_LISTEN = 1"
definition EINTR :: c_int where "EINTR = 4"

text \<open>The message of \<open>subscribe\<close>; the members it does not assign are zeroed.\<close>

record nlcn_msg =
  nlmsg_len :: c_uint
  nlmsg_type :: c_uint
  nlmsg_flags :: c_uint
  nlmsg_seq :: c_uint
  nlmsg_pid :: c_uint
  id_idx :: c_uint
  id_val :: c_uint
  cn_seq :: c_uint
  cn_ack :: c_uint
  cn_len :: c_uint
  cn_flags :: c_uint
  cn_mcast :: c_uint

text \<open>A call and its arguments; a callback is known by the number of its registration.\<close>

datatype 'e call =
    Socket c_int c_int c_int
  | Bind c_int c_int c_uint c_int
  | Close c_int
  | Send c_int nlcn_msg
  | Recv c_int
  | Notify nat 'e
  | Start_thread
  | Terminate

datatype answer = Ok c_int | Fail c_int

record kernel =
  on_socket :: answer
  on_bind :: answer
  on_close :: answer
  on_send :: answer
  getpid :: c_int
  strerror :: "c_int \<Rightarrow> string"

text \<open>The object with the surroundings it acts on.\<close>

record 'e connector =
  m_nl_sock :: c_int
  m_thread_listen :: bool
  m_subscribers :: "nat list"
  errno :: c_int
  trace :: "('e call \<times> answer) list"

text \<open>A system call returns -1 and sets \<open>errno\<close> when it fails.\<close>

definition syscall :: "'e call \<Rightarrow> answer \<Rightarrow> ('e connector, c_int) action" where
  "syscall c a s =
     (let s' = s\<lparr>trace := trace s @ [(c, a)]\<rparr>
      in case a of Ok v \<Rightarrow> (s', Inr v) | Fail e \<Rightarrow> (s'\<lparr>errno := e\<rparr>, Inr (-1)))"

definition throw_errno :: "kernel \<Rightarrow> ('e connector, unit) action" where
  "throw_errno K s = (s, Inl (String_exn (strerror K (errno s))))"

section \<open>Construction\<close>

definition connect :: "kernel \<Rightarrow> ('e connector, unit) action" where
  "connect K =
     and_then (syscall (Socket PF_NETLINK SOCK_DGRAM NETLINK_CONNECTOR) (on_socket K)) (\<lambda>sock.
     and_then (modify (\<lambda>s. s\<lparr>m_nl_sock := sock\<rparr>)) (\<lambda>_.
     if sock = -1 then throw_errno K
     else
       and_then (\<lambda>s. syscall (Bind (m_nl_sock s) PF_NETLINK CN_IDX_PROC (getpid K)) (on_bind K) s) (\<lambda>rc.
       if rc = -1 then
         and_then (\<lambda>s. syscall (Close (m_nl_sock s)) (on_close K) s) (\<lambda>_. throw_errno K)
       else returns ())))"

text \<open>
  40 bytes: a netlink header of 16, a connector header of 20 and the operation of 4, packed.
\<close>

definition subscribe_msg :: "kernel \<Rightarrow> nlcn_msg" where
  "subscribe_msg K = \<lparr>nlmsg_len = 40, nlmsg_type = NLMSG_DONE, nlmsg_flags = 0, nlmsg_seq = 0,
     nlmsg_pid = getpid K, id_idx = CN_IDX_PROC, id_val = CN_VAL_PROC, cn_seq = 0, cn_ack = 0,
     cn_len = 4, cn_flags = 0, cn_mcast = PROC_CN_MCAST_LISTEN\<rparr>"

definition subscribe :: "kernel \<Rightarrow> ('e connector, unit) action" where
  "subscribe K =
     and_then (\<lambda>s. syscall (Send (m_nl_sock s) (subscribe_msg K)) (on_send K) s) (\<lambda>rc.
     if rc = -1 then throw_errno K else returns ())"

definition fresh_connector :: "'e connector \<Rightarrow> 'e connector" where
  "fresh_connector raw = raw\<lparr>m_thread_listen := False, m_subscribers := []\<rparr>"

text \<open>When the constructor throws there is no object and its destructor does not run.\<close>

definition ProcConnector :: "kernel \<Rightarrow> 'e connector \<Rightarrow> 'e connector \<times> unit outcome" where
  "ProcConnector K raw = do_all [connect K, subscribe K] (fresh_connector raw)"

section \<open>Listening\<close>

definition addCallback :: "nat \<Rightarrow> 'e connector \<Rightarrow> 'e connector" where
  "addCallback callback s = s\<lparr>m_subscribers := m_subscribers s @ [callback]\<rparr>"

text \<open>What \<open>recv\<close> leaves in the buffer, or the error it reports.\<close>

datatype 'e received = Event 'e | Recv_error c_int

definition processEvent :: "kernel \<Rightarrow> 'e received \<Rightarrow> ('e connector, unit) action" where
  "processEvent K r s =
     (case r of
        Recv_error e \<Rightarrow>
          (let s' = s\<lparr>trace := trace s @ [(Recv (m_nl_sock s), Fail e)], errno := e\<rparr>
           in if errno s' = EINTR then (s', Inr ()) else throw_errno K s')
      | Event ev \<Rightarrow>
          (fold (\<lambda>callback t. t\<lparr>trace := trace t @ [(Notify callback ev, Ok 0)]\<rparr>) (m_subscribers s)
             (s\<lparr>trace := trace s @ [(Recv (m_nl_sock s), Ok 0)]\<rparr>), Inr ()))"

text \<open>
  \<open>while (1) processEvent ();\<close> on the sequence of what \<open>recv\<close> yields, from the n-th call on: the
  value is the state and the exception that ended it, or \<^term>\<open>None\<close> when it never ends.
\<close>

partial_function (option) listenBlock ::
  "kernel \<Rightarrow> (nat \<Rightarrow> 'e received) \<Rightarrow> nat \<Rightarrow> 'e connector \<Rightarrow> ('e connector \<times> fault) option" where
  "listenBlock K rs n s =
     (case processEvent K (rs n) s of
        (s', Inl e) \<Rightarrow> Some (s', e)
      | (s', Inr _) \<Rightarrow> listenBlock K rs (Suc n) s')"

text \<open>
  \<open>listen\<close>: blocking in the caller, or on a new thread whose handle replaces the old one.
\<close>

definition listen ::
  "kernel \<Rightarrow> (nat \<Rightarrow> 'e received) \<Rightarrow> bool \<Rightarrow> 'e connector \<Rightarrow> ('e connector \<times> unit outcome) option" where
  "listen K rs block s =
     (if block then map_option (\<lambda>(s', e). (s', Inl e)) (listenBlock K rs 0 s)
      else Some (s\<lparr>m_thread_listen := True, trace := trace s @ [(Start_thread, Ok 0)]\<rparr>, Inr ()))"

text \<open>
  The destructor: deleting the handle of a thread that was neither joined nor detached calls
  \<open>std::terminate\<close>.
\<close>

definition destroy :: "kernel \<Rightarrow> 'e connector \<Rightarrow> 'e connector" where
  "destroy K s =
     (let s' = fst (syscall (Close (m_nl_sock s)) (on_close K) s)
      in if m_thread_listen s' then s'\<lparr>trace := trace s' @ [(Terminate, Ok 0)]\<rparr> else s')"

section \<open>Sockets that are open\<close>

text \<open>
  The descriptors a trace leaves open.  On Linux \<open>close\<close> releases the descriptor whatever it
  answers: an error reports a failure of earlier operations and the call must not be repeated.
\<close>

fun open_after :: "c_int list \<Rightarrow> ('e call \<times> answer) list \<Rightarrow> c_int list" where
  "open_after fds [] = fds"
| "open_after fds ((Socket _ _ _, Ok fd) # t) = open_after (fd # fds) t"
| "open_after fds ((Close fd, _) # t) = open_after (remove1 fd fds) t"
| "open_after fds (_ # t) = open_after fds t"

definition open_sockets :: "'e connector \<Rightarrow> c_int list" where
  "open_sockets s = open_after [] (trace s)"

lemma open_after_append: "open_after fds (t @ u) = open_after (open_after fds t) u"
  by (induction fds t rule: open_after.induct) simp_all

lemmas connector_run = connect_def subscribe_def ProcConnector_def syscall_def throw_errno_def
  and_then_def modify_def returns_def fresh_connector_def Let_def

section \<open>Properties of the construction\<close>

text \<open>A call that succeeds does not return -1.\<close>

definition kernel_ok :: "kernel \<Rightarrow> bool" where
  "kernel_ok K \<longleftrightarrow> on_socket K \<noteq> Ok (-1) \<and> on_bind K \<noteq> Ok (-1) \<and> on_send K \<noteq> Ok (-1)"

definition example_kernel :: kernel where
  "example_kernel = \<lparr>on_socket = Ok 3, on_bind = Ok 0, on_close = Ok 0, on_send = Ok 40,
     getpid = 7, strerror = (\<lambda>e. if e = 9 then ''Bad file descriptor'' else ''Other'')\<rparr>"

definition example_connector :: "nat connector" where
  "example_connector = \<lparr>m_nl_sock = 0, m_thread_listen = True, m_subscribers = [], errno = 0,
     trace = []\<rparr>"

text \<open>
  C23. Every way the constructor can end: it throws the message of the call that failed, with no
  socket left open when the creation of the socket or the bind failed (after a failed bind the
  message is the one of the close if that fails as well, because it is looked up after it), but
  with the socket still open and owned by nobody when the subscription failed; otherwise it
  returns and owns the one socket.
\<close>

theorem ProcConnector_outcomes:
  assumes "kernel_ok K" and "trace raw = []"
  shows "snd (ProcConnector K raw) =
      (case on_socket K of Fail e \<Rightarrow> Inl (String_exn (strerror K e))
       | Ok fd \<Rightarrow> case on_bind K of
           Fail e \<Rightarrow> Inl (String_exn (strerror K (case on_close K of Ok _ \<Rightarrow> e | Fail e' \<Rightarrow> e')))
         | Ok _ \<Rightarrow> case on_send K of Fail e \<Rightarrow> Inl (String_exn (strerror K e)) | Ok _ \<Rightarrow> Inr ())
    \<and> open_sockets (fst (ProcConnector K raw)) =
      (case on_socket K of Fail e \<Rightarrow> []
       | Ok fd \<Rightarrow> case on_bind K of Fail e \<Rightarrow> [] | Ok _ \<Rightarrow> [fd])"
  using assms
  by (cases "on_socket K"; cases "on_bind K"; cases "on_send K"; cases "on_close K")
     (simp_all add: kernel_ok_def connector_run open_sockets_def)

theorem ProcConnector_outcomes_witness:
  "snd (ProcConnector (example_kernel\<lparr>on_bind := Fail 1, on_close := Fail 9\<rparr>) example_connector)
      = Inl (String_exn ''Bad file descriptor'')
   \<and> open_sockets (fst (ProcConnector (example_kernel\<lparr>on_bind := Fail 1, on_close := Fail 9\<rparr>) example_connector)) = []
   \<and> open_sockets (fst (ProcConnector (example_kernel\<lparr>on_send := Fail 1\<rparr>) example_connector)) = [3]"
  using ProcConnector_outcomes [of "example_kernel\<lparr>on_bind := Fail 1, on_close := Fail 9\<rparr>" example_connector]
    ProcConnector_outcomes [of "example_kernel\<lparr>on_send := Fail 1\<rparr>" example_connector]
  by (simp add: kernel_ok_def example_kernel_def example_connector_def)

section \<open>Properties of the loop\<close>

text \<open>What one call of \<open>recv\<close> adds to the trace.\<close>

fun received_trace :: "c_int \<Rightarrow> nat list \<Rightarrow> 'e received \<Rightarrow> ('e call \<times> answer) list" where
  "received_trace fd subscribers (Recv_error e) = [(Recv fd, Fail e)]"
| "received_trace fd subscribers (Event ev) =
     (Recv fd, Ok 0) # map (\<lambda>callback. (Notify callback ev, Ok 0)) subscribers"

fun fatal :: "'e received \<Rightarrow> bool" where
  "fatal (Recv_error e) = (e \<noteq> EINTR)"
| "fatal (Event ev) = False"

lemma notify_all:
  "fold (\<lambda>callback t. t\<lparr>trace := trace t @ [(Notify callback ev, Ok 0)]\<rparr>) cbs s
   = s\<lparr>trace := trace s @ map (\<lambda>callback. (Notify callback ev, Ok 0)) cbs\<rparr>"
  by (induction cbs arbitrary: s) simp_all

lemma processEvent_run:
  "processEvent K r s =
     (s\<lparr>trace := trace s @ received_trace (m_nl_sock s) (m_subscribers s) r,
        errno := (case r of Recv_error e \<Rightarrow> e | Event _ \<Rightarrow> errno s)\<rparr>,
      case r of Recv_error e \<Rightarrow> if e = EINTR then Inr () else Inl (String_exn (strerror K e))
              | Event _ \<Rightarrow> Inr ())"
  by (cases r) (simp_all add: processEvent_def notify_all throw_errno_def Let_def)

lemma processEvent_continues: "\<not> fatal r \<Longrightarrow> snd (processEvent K r s) = Inr ()"
  by (cases r) (simp_all add: processEvent_run)

lemma listenBlock_continue:
  "\<not> fatal (rs n) \<Longrightarrow> listenBlock K rs n s = listenBlock K rs (Suc n) (fst (processEvent K (rs n) s))"
  using processEvent_continues [of "rs n" K s]
  by (subst listenBlock.simps) (simp add: split_beta)

lemma listenBlock_stop:
  "rs n = Recv_error e \<Longrightarrow> e \<noteq> EINTR \<Longrightarrow>
   listenBlock K rs n s = Some (fst (processEvent K (rs n) s), String_exn (strerror K e))"
  by (subst listenBlock.simps) (simp add: processEvent_run)

lemma listenBlock_events:
  assumes "\<forall>i < k. \<not> fatal (rs (n + i))" and "rs (n + k) = Recv_error e" and "e \<noteq> EINTR"
  shows "\<exists>s'. listenBlock K rs n s = Some (s', String_exn (strerror K e))
    \<and> trace s' = trace s @ concat (map (\<lambda>i. received_trace (m_nl_sock s) (m_subscribers s) (rs (n + i)))
        [0..<Suc k])
    \<and> m_subscribers s' = m_subscribers s \<and> m_nl_sock s' = m_nl_sock s"
  using assms
proof (induction k arbitrary: n s)
  case 0
  then show ?case by (simp add: listenBlock_stop processEvent_run)
next
  case (Suc k)
  let ?s = "fst (processEvent K (rs n) s)"
  have "\<not> fatal (rs n)" using Suc.prems(1) by force
  then have "listenBlock K rs n s = listenBlock K rs (Suc n) ?s" by (rule listenBlock_continue)
  moreover have "\<forall>i < k. \<not> fatal (rs (Suc n + i))"
    using Suc.prems(1) by force
  note IH = Suc.IH [OF this _ Suc.prems(3), of ?s]
  have "[0..<Suc (Suc k)] = 0 # map Suc [0..<Suc k]"
    by (metis map_Suc_upt upt_conv_Cons zero_less_Suc)
  then show ?case
    using IH Suc.prems(2) calculation by (auto simp: processEvent_run comp_def simp del: upt_Suc)
qed

text \<open>
  C8. Listening until the first error of \<open>recv\<close> other than an interruption: every event before it
  was given to every subscriber exactly once, in the order of the subscriptions, interruptions
  were ignored, nothing else was called, and the exception carries the message of the error.
\<close>

theorem listenBlock_dispatch:
  assumes "\<forall>i < n. \<not> fatal (rs i)" and "rs n = Recv_error e" and "e \<noteq> EINTR"
  shows "\<exists>s'. listen K rs True s = Some (s', Inl (String_exn (strerror K e)))
    \<and> trace s' = trace s
        @ concat (map (\<lambda>i. received_trace (m_nl_sock s) (m_subscribers s) (rs i)) [0..<Suc n])
    \<and> m_subscribers s' = m_subscribers s"
  using listenBlock_events [of n rs 0, OF _ _ assms(3), of K s] assms(1,2)
  by (auto simp: listen_def simp del: upt_Suc)

theorem listenBlock_dispatch_witness:
  "\<exists>s'. listen example_kernel (\<lambda>i. [Event 10, Recv_error EINTR, Event 20, Recv_error 9] ! i) True
      (addCallback 2 (addCallback 1 example_connector)) = Some (s', Inl (String_exn ''Bad file descriptor''))
    \<and> trace s' = [(Recv 0, Ok 0), (Notify 1 10, Ok 0), (Notify 2 10, Ok 0), (Recv 0, Fail EINTR),
        (Recv 0, Ok 0), (Notify 1 20, Ok 0), (Notify 2 20, Ok 0), (Recv 0, Fail 9)]"
proof -
  let ?rs = "\<lambda>i. [Event 10, Recv_error EINTR, Event 20, Recv_error 9] ! i"
  have ok: "\<forall>i < 3. \<not> fatal (?rs i)"
    by (auto simp: less_Suc_eq numeral_3_eq_3)
  have "?rs 3 = Recv_error 9" "(9 :: c_int) \<noteq> EINTR"
    by (simp_all add: EINTR_def)
  note run = listenBlock_dispatch [OF ok this,
      of example_kernel "addCallback 2 (addCallback 1 example_connector)"]
  have "[0..<Suc 3] = [0, 1, 2, 3]" by (simp add: upt_rec)
  moreover have "strerror example_kernel 9 = ''Bad file descriptor''"
    by (simp add: example_kernel_def)
  moreover have "m_subscribers (addCallback 2 (addCallback 1 example_connector)) = [1, 2]"
    "m_nl_sock (addCallback 2 (addCallback 1 example_connector)) = 0"
    "trace (addCallback 2 (addCallback 1 example_connector)) = []"
    by (simp_all add: addCallback_def example_connector_def)
  ultimately show ?thesis
    using run by (elim exE conjE) (intro exI conjI, simp_all)
qed

lemma listenBlock_Some_fatal:
  assumes "listenBlock K rs n s = Some r"
  shows "\<exists>i \<ge> n. fatal (rs i)"
proof (rule listenBlock.raw_induct [OF _ assms, where P = "\<lambda>K rs n s r. \<exists>i \<ge> n. fatal (rs i)"])
  fix f :: "kernel \<Rightarrow> (nat \<Rightarrow> 'a received) \<Rightarrow> nat \<Rightarrow> 'a connector \<Rightarrow> ('a connector \<times> fault) option"
    and K rs n s r
  assume IH: "\<And>K rs n s y. f K rs n s = Some y \<Longrightarrow> \<exists>i \<ge> n. fatal (rs i)"
    and run: "(case processEvent K (rs n) s of (s', Inl e) \<Rightarrow> Some (s', e) | (s', Inr _) \<Rightarrow> f K rs (Suc n) s')
      = Some r"
  show "\<exists>i \<ge> n. fatal (rs i)"
  proof (cases "fatal (rs n)")
    case True
    then show ?thesis by blast
  next
    case False
    with run have "f K rs (Suc n) (fst (processEvent K (rs n) s)) = Some r"
      using processEvent_continues [OF False, of K s] by (simp add: split_beta)
    then have "\<exists>i \<ge> Suc n. fatal (rs i)" by (rule IH)
    then show ?thesis using Suc_leD by blast
  qed
qed

text \<open>
  C24. Listening in the caller never returns normally: it ends only with an exception, and it
  ends exactly when some call of \<open>recv\<close> reports an error other than an interruption.
\<close>

theorem listenBlock_never_returns:
  "(listen K rs True s = None \<longleftrightarrow> (\<forall>i. \<not> fatal (rs i)))
    \<and> (\<nexists>s'. listen K rs True s = Some (s', Inr ()))"
proof -
  have "listenBlock K rs 0 s \<noteq> None" if "fatal (rs i)" for i
  proof -
    define n where "n = (LEAST i. fatal (rs i))"
    have "fatal (rs n)"
      unfolding n_def by (rule LeastI [of "\<lambda>i. fatal (rs i)", OF that])
    then obtain e where e: "rs (0 + n) = Recv_error e" "e \<noteq> EINTR" by (cases "rs n") simp_all
    have "\<forall>j < n. \<not> fatal (rs (0 + j))"
      unfolding n_def add_0 by (intro allI impI) (erule not_less_Least)
    from listenBlock_events [OF this e, of K s] show ?thesis by (elim exE conjE) simp
  qed
  note ends = this
  have "listenBlock K rs 0 s = None" if safe: "\<forall>i. \<not> fatal (rs i)"
  proof (cases "listenBlock K rs 0 s")
    case None
    then show ?thesis .
  next
    case (Some r)
    from listenBlock_Some_fatal [OF this] safe show ?thesis by simp
  qed
  with ends have "(listenBlock K rs 0 s = None) = (\<forall>i. \<not> fatal (rs i))" by metis
  then show ?thesis
    by (cases "listenBlock K rs 0 s") (simp_all add: listen_def split_beta)
qed

section \<open>The life of an object\<close>

text \<open>
  The states of an object between the end of its constructor and its destruction.  \<open>alive_event\<close>
  is one turn of the loop, in the caller or on the thread.
\<close>

inductive alive :: "kernel \<Rightarrow> 'e connector \<Rightarrow> bool" for K where
  alive_start: "trace raw = [] \<Longrightarrow> ProcConnector K raw = (s, Inr ()) \<Longrightarrow> alive K s"
| alive_callback: "alive K s \<Longrightarrow> alive K (addCallback cb s)"
| alive_event: "alive K s \<Longrightarrow> processEvent K r s = (s', x) \<Longrightarrow> alive K s'"
| alive_thread: "alive K s \<Longrightarrow> listen K rs False s = Some (s', x) \<Longrightarrow> alive K s'"

fun call_socket :: "'e call \<Rightarrow> c_int option" where
  "call_socket (Bind fd _ _ _) = Some fd"
| "call_socket (Close fd) = Some fd"
| "call_socket (Send fd _) = Some fd"
| "call_socket (Recv fd) = Some fd"
| "call_socket _ = None"

lemma open_after_received:
  "open_after fds (received_trace fd cbs r) = fds"
proof -
  have "open_after fds (map (\<lambda>cb. (Notify cb ev, Ok 0)) cbs) = fds" for ev :: 'a
    by (induction cbs) simp_all
  then show ?thesis by (cases r) simp_all
qed

lemma constructed_state:
  assumes "ProcConnector K raw = (s, Inr ())" and "trace raw = []"
  shows "open_sockets s = [m_nl_sock s] \<and> m_nl_sock s \<noteq> -1
    \<and> (\<forall>c \<in> fst ` set (trace s). call_socket c \<in> {None, Some (m_nl_sock s)})"
  using assms
  by (auto simp: connector_run open_sockets_def split: answer.splits if_splits)

lemma alive_state:
  "alive K s \<Longrightarrow> open_sockets s = [m_nl_sock s] \<and> m_nl_sock s \<noteq> -1
    \<and> (\<forall>c \<in> fst ` set (trace s). call_socket c \<in> {None, Some (m_nl_sock s)})"
proof (induction rule: alive.induct)
  case (alive_start raw s)
  from constructed_state [OF alive_start(2,1)] show ?case .
next
  case (alive_callback s cb)
  then show ?case by (simp add: addCallback_def open_sockets_def)
next
  case (alive_event s r s' x)
  have "\<forall>c \<in> fst ` set (received_trace (m_nl_sock s) (m_subscribers s) r).
      call_socket c \<in> {None, Some (m_nl_sock s)}"
    by (cases r) auto
  moreover have "s' = fst (processEvent K r s)" using alive_event.hyps by simp
  ultimately show ?case
    using alive_event.IH
    by (auto simp: processEvent_run open_sockets_def open_after_append open_after_received)
next
  case (alive_thread s rs s' x)
  then show ?case
    by (auto simp: listen_def open_sockets_def open_after_append)
qed

text \<open>
  C7. As long as an object lives, exactly one socket is open, it is the one of the object, every
  system call of the object was made on it, and destroying the object closes it.
\<close>

theorem alive_one_socket:
  assumes "alive K s"
  shows "open_sockets s = [m_nl_sock s]
    \<and> (\<forall>c \<in> fst ` set (trace s). call_socket c \<in> {None, Some (m_nl_sock s)})
    \<and> open_sockets (destroy K s) = []"
  using alive_state [OF assms]
  by (auto simp: destroy_def syscall_def open_sockets_def open_after_append Let_def split: answer.splits)

theorem alive_one_socket_witness:
  "\<exists>s :: nat connector. alive example_kernel s \<and> open_sockets s = [3] \<and> open_sockets (destroy example_kernel s) = []"
proof -
  let ?s = "fst (ProcConnector example_kernel example_connector)"
  have "ProcConnector example_kernel example_connector = (?s, Inr ())" and fd: "m_nl_sock ?s = 3"
    by (simp_all add: connector_run example_kernel_def example_connector_def)
  then have "alive example_kernel ?s"
    by (intro alive_start [of example_connector]) (simp_all add: example_connector_def)
  then show ?thesis
    using alive_one_socket [of example_kernel ?s] fd by (intro exI [of _ ?s]) simp
qed

text \<open>
  Destroying an object whose listening thread was started ends the program: the handle is
  deleted while the thread can still be joined.
\<close>

theorem destroy_terminates:
  "map_option (\<lambda>(s', r). last (trace (destroy K s'))) (listen K rs False s) = Some (Terminate, Ok 0)"
  by (simp add: listen_def destroy_def syscall_def Let_def split: answer.splits)

end
