(* ===== verification/Display.thy ===== *)
theory Display
  imports Process_Files
begin

text \<open>
  The output operator of \<open>processinfo.cpp\<close>, which prints a process to a stream \<open>os\<close>.  The
  stream is another one than \<open>std::cout\<close> here, with the default formatting.  \<open>MAJOR\<close> and
  \<open>MINOR\<close> of \<open>linux/kdev_t.h\<close> and the iteration order of \<open>std::unordered_map\<close> are arguments.
\<close>

section \<open>Iteration over a map\<close>

type_synonym fd_order = "(c_int \<rightharpoonup> string) \<Rightarrow> (c_int \<times> string) list"

locale map_iteration =
  fixes order :: fd_order
  assumes order_lookup: "finite (dom m) \<Longrightarrow> map_of (order m) = m"
    and order_distinct: "finite (dom m) \<Longrightarrow> distinct (map fst (order m))"
begin

lemma order_visits: "finite (dom m) \<Longrightarrow> (k, v) \<in> set (order m) \<longleftrightarrow> m k = Some v"
  using order_lookup [of m] order_distinct [of m] by (metis map_of_eq_Some_iff)

lemma order_length: "finite (dom m) \<Longrightarrow> length (order m) = card (dom m)"
  using order_lookup [of m] order_distinct [of m]
  by (metis distinct_card dom_map_of_conv_image_fst length_map list.set_map)

end

definition ascending :: fd_order where
  "ascending m = map (\<lambda>k. (k, the (m k))) (sorted_list_of_set (dom m))"

interpretation ascending: map_iteration ascending
proof unfold_locales
  fix m :: "c_int \<rightharpoonup> string"
  assume "finite (dom m)"
  then have "set (sorted_list_of_set (dom m)) = dom m" by simp
  then show "map_of (ascending m) = m"
    by (auto simp: ascending_def map_of_map_restrict restrict_map_def dom_def fun_eq_iff)
  show "distinct (map fst (ascending m))"
    by (simp add: ascending_def comp_def)
qed

section \<open>The operator\<close>

record screen =
  os_text :: string
  cout_text :: string

type_synonym display_state = "process_info \<times> screen"

definition emit :: "string \<Rightarrow> (display_state, unit) action" where
  "emit s = modify (\<lambda>(p, scr). (p, scr\<lparr>os_text := os_text scr @ s\<rparr>))"

definition on_object :: "(process_info, 'a) action \<Rightarrow> (display_state, 'a) action" where
  "on_object m s = (case m (fst s) of (p, r) \<Rightarrow> ((p, snd s), r))"

text \<open>
  \<^verbatim>\<open>os << before << call () << after << std::endl;\<close> where \<open>text_of\<close> prints the value.
  C++14 does not say whether \<open>before\<close> is written before or after the call, so
  \<open>left_to_right\<close> does.
\<close>

definition print_line ::
  "bool \<Rightarrow> (process_info \<Rightarrow> string) \<Rightarrow> (process_info, 'a) action \<Rightarrow> ('a \<Rightarrow> string) \<Rightarrow> string \<Rightarrow>
   (display_state, unit) action" where
  "print_line left_to_right before call text_of after =
     (if left_to_right then
        and_then (\<lambda>(p, scr). emit (before p) (p, scr)) (\<lambda>_.
        and_then (on_object call) (\<lambda>v. emit (text_of v @ after @ [CHR 0x0A])))
      else
        and_then (on_object call) (\<lambda>v (p, scr).
        emit (before p @ text_of v @ after @ [CHR 0x0A]) (p, scr)))"

definition print_fds :: "fd_order \<Rightarrow> world \<Rightarrow> (display_state, unit) action" where
  "print_fds order w =
     and_then (on_object (fds w)) (\<lambda>f.
       for_each (\<lambda>(fd, target).
         emit (''['' @ to_string fd @ '']'' @ '' => '' @ target @ [CHR 0x0A])) (order f))"

text \<open>The last line names \<open>std::cout\<close> and not \<open>os\<close>.\<close>

definition print_user :: "bool \<Rightarrow> boost \<Rightarrow> world \<Rightarrow> (display_state, unit) action" where
  "print_user left_to_right B w =
     (let cout_put = \<lambda>s. modify (\<lambda>(p, scr). (p, scr\<lparr>cout_text := cout_text scr @ s\<rparr>))
      in if left_to_right then
           and_then (cout_put ''user name : '') (\<lambda>_.
           and_then (on_object (userName B w)) (\<lambda>v. cout_put (v @ [CHR 0x0A])))
         else and_then (on_object (userName B w)) (\<lambda>v. cout_put (''user name : '' @ v @ [CHR 0x0A])))"

definition print_process ::
  "(c_int \<Rightarrow> c_int) \<Rightarrow> (c_int \<Rightarrow> c_int) \<Rightarrow> fd_order \<Rightarrow> bool \<Rightarrow> boost \<Rightarrow> world \<Rightarrow>
   (display_state, unit) action" where
  "print_process MAJOR MINOR order ltr B w = do_all
     [print_line ltr (\<lambda>_. ''Name : '') (process_name w) id [],
      print_line ltr (\<lambda>_. ''PID : '') (\<lambda>p. (p, Inr (pid p))) to_string [],
      print_line ltr (\<lambda>_. ''Parent PID : '') (ppid w) to_string [],
      print_line ltr (\<lambda>_. ''Process Group ID : '') (pgid w) to_string [],
      print_line ltr (\<lambda>_. ''Session ID : '') (sid w) to_string [],
      print_line ltr
        (\<lambda>p. ''Controlling tty : '' @ ''Major : '' @ to_string (MAJOR (m_tty_nr p))
           @ '', Minor : '' @ to_string (MINOR (m_tty_nr p)) @ '' ('')
        (ttyNr B w) id '')'',
      print_line ltr
        (\<lambda>p. ''starttime : '' @ ''jiffies : '' @ int_str (uint (m_starttime p)) @ '', diff : '')
        (startTime w) (\<lambda>n. int_str (uint n)) [],
      print_line ltr (\<lambda>p. ''Threads : '' @ int_str (sint (m_num_threads p))) (returns ()) (\<lambda>_. []) [],
      emit (''Opened Files :'' @ [CHR 0x0A]),
      print_fds order w,
      print_user ltr B w]"

section \<open>Running it\<close>

lemma emit_run: "emit s (p, scr) = ((p, scr\<lparr>os_text := os_text scr @ s\<rparr>), Inr ())"
  by (simp add: emit_def modify_def)

lemma print_line_run:
  assumes "call p = (q, Inr v)" and "before p = b" and "before q = b"
  shows "print_line ltr before call text_of after (p, scr)
    = ((q, scr\<lparr>os_text := os_text scr @ b @ text_of v @ after @ [CHR 0x0A]\<rparr>), Inr ())"
  using assms by (simp add: print_line_def and_then_def emit_run on_object_def)

lemma print_line_throws:
  assumes "call p = (q, Inl e)"
  shows "print_line ltr before call text_of after (p, scr)
    = ((q, if ltr then scr\<lparr>os_text := os_text scr @ before p\<rparr> else scr), Inl e)"
  using assms by (simp add: print_line_def and_then_def emit_run on_object_def)

lemma emit_each:
  "for_each (\<lambda>x. emit (f x)) xs (p, scr)
    = ((p, scr\<lparr>os_text := os_text scr @ concat (map f xs)\<rparr>), Inr ())"
  by (induction xs arbitrary: scr) (simp_all add: emit_run)

definition fd_line :: "c_int \<times> string \<Rightarrow> string" where
  "fd_line e = ''['' @ to_string (fst e) @ ''] => '' @ snd e"

lemma print_fds_run:
  assumes "fds w p = (q, Inr f)"
  shows "print_fds order w (p, scr)
    = ((q, scr\<lparr>os_text := os_text scr @ unlines CHR 0x0A (map fd_line (order f))\<rparr>), Inr ())"
proof -
  have "(\<lambda>x. case x of (fd, target) \<Rightarrow>
        emit (''['' @ to_string fd @ '']'' @ '' => '' @ target @ [CHR 0x0A]))
      = (\<lambda>x. emit (fd_line x @ [CHR 0x0A]))"
    by (simp add: fd_line_def fun_eq_iff split_beta)
  with assms show ?thesis
    by (simp add: print_fds_def and_then_def on_object_def emit_each unlines_def comp_def)
qed

lemma print_user_run:
  assumes "userName B w p = (q, Inr user)"
  shows "print_user ltr B w (p, scr)
    = ((q, scr\<lparr>cout_text := cout_text scr @ ''user name : '' @ user @ [CHR 0x0A]\<rparr>), Inr ())"
  using assms by (simp add: print_user_def and_then_def modify_def on_object_def)

text \<open>The first line reads the group of \<open>/proc/<pid>/stat\<close>; the others find it read.\<close>

lemma settled_getters:
  assumes "q = stat_view w p"
  shows "process_name w p = (q, Inr (m_name q))" "ppid w q = (q, Inr (m_ppid q))"
    "pgid w q = (q, Inr (m_pgid q))" "sid w q = (q, Inr (m_session q))"
    "ttyNr B w q = (q, find_tty B w q)"
    "clk_tck w \<noteq> 0 \<Longrightarrow> startTime w q = (q, Inr (uptime w - m_starttime q div clk_tck w))"
proof -
  have "\<not> m_need_update_stat q" by (simp add: assms stat_view_def)
  then have quiet: "stat_refresh w q = (q, Inr ())"
    by (simp add: stat_refresh_def refresh_def returns_def)
  show "process_name w p = (q, Inr (m_name q))" "ppid w q = (q, Inr (m_ppid q))"
    "pgid w q = (q, Inr (m_pgid q))" "sid w q = (q, Inr (m_session q))"
    by (simp_all add: process_name_def ppid_def pgid_def sid_def stat_getter_view stat_view_settled assms)
  show "ttyNr B w q = (q, find_tty B w q)"
    "clk_tck w \<noteq> 0 \<Longrightarrow> startTime w q = (q, Inr (uptime w - m_starttime q div clk_tck w))"
    by (simp_all add: ttyNr_def startTime_def and_then_def quiet)
qed

definition identity_lines :: "process_info \<Rightarrow> string list" where
  "identity_lines q =
     [''Name : '' @ m_name q, ''PID : '' @ to_string (m_pid q),
      ''Parent PID : '' @ to_string (m_ppid q), ''Process Group ID : '' @ to_string (m_pgid q),
      ''Session ID : '' @ to_string (m_session q)]"

definition time_lines :: "(c_int \<Rightarrow> c_int) \<Rightarrow> (c_int \<Rightarrow> c_int) \<Rightarrow> world \<Rightarrow> string \<Rightarrow> process_info \<Rightarrow> string list" where
  "time_lines MAJOR MINOR w tty q =
     [''Controlling tty : Major : '' @ to_string (MAJOR (m_tty_nr q)) @ '', Minor : ''
        @ to_string (MINOR (m_tty_nr q)) @ '' ('' @ tty @ '')'',
      ''starttime : jiffies : '' @ int_str (uint (m_starttime q)) @ '', diff : ''
        @ int_str (uint (uptime w - m_starttime q div clk_tck w)),
      ''Threads : '' @ int_str (sint (m_num_threads q))]"

lemma print_identity:
  assumes "q = stat_view w p"
  shows "do_all (print_line ltr (\<lambda>_. ''Name : '') (process_name w) id []
      # print_line ltr (\<lambda>_. ''PID : '') (\<lambda>p. (p, Inr (pid p))) to_string []
      # print_line ltr (\<lambda>_. ''Parent PID : '') (ppid w) to_string []
      # print_line ltr (\<lambda>_. ''Process Group ID : '') (pgid w) to_string []
      # print_line ltr (\<lambda>_. ''Session ID : '') (sid w) to_string [] # rest) (p, scr)
    = do_all rest (q, scr\<lparr>os_text := os_text scr @ unlines CHR 0x0A (identity_lines q)\<rparr>)"
proof -
  have own: "(\<lambda>p. (p, Inr (pid p))) q = (q, Inr (m_pid q))" by (simp add: pid_def)
  show ?thesis
    unfolding identity_lines_def
    by (simp add: print_line_run [where call = "process_name w", OF settled_getters(1) [OF assms]]
      print_line_run [where call = "ppid w", OF settled_getters(2) [OF assms]]
      print_line_run [where call = "pgid w", OF settled_getters(3) [OF assms]]
      print_line_run [where call = "sid w", OF settled_getters(4) [OF assms]]
      print_line_run [where call = "\<lambda>p. (p, Inr (pid p))", OF own])
qed

lemma print_times:
  assumes "q = stat_view w p" and "find_tty B w q = Inr tty" and "clk_tck w \<noteq> 0"
  shows "do_all (print_line ltr
        (\<lambda>p. ''Controlling tty : '' @ ''Major : '' @ to_string (MAJOR (m_tty_nr p))
           @ '', Minor : '' @ to_string (MINOR (m_tty_nr p)) @ '' ('')
        (ttyNr B w) id '')''
      # print_line ltr
        (\<lambda>p. ''starttime : '' @ ''jiffies : '' @ int_str (uint (m_starttime p)) @ '', diff : '')
        (startTime w) (\<lambda>n. int_str (uint n)) []
      # print_line ltr (\<lambda>p. ''Threads : '' @ int_str (sint (m_num_threads p))) (returns ()) (\<lambda>_. [])
        [] # rest) (q, scr)
    = do_all rest
       (q, scr\<lparr>os_text := os_text scr @ unlines CHR 0x0A (time_lines MAJOR MINOR w tty q)\<rparr>)"
proof -
  have tty: "ttyNr B w q = (q, Inr tty)"
    using settled_getters(5) [OF assms(1), of B] assms(2) by simp
  show ?thesis
    unfolding time_lines_def
    by (simp add: print_line_run [where call = "ttyNr B w", OF tty]
        print_line_run [where call = "startTime w", OF settled_getters(6) [OF assms(1,3)]]
        print_line_run [where call = "returns ()", OF returns_run])
qed

section \<open>Properties\<close>

text \<open>
  C22. Printing a process whose terminal, descriptors and user can be determined: the stream
  receives eight lines that are all taken from one read of \<open>stat\<close>, then one line for every
  descriptor that is recorded and no other; the user name is not among them, it goes to
  \<open>std::cout\<close>.
\<close>

theorem print_process_text:
  assumes "map_iteration order" and "finite (dom f)"
    and "q = stat_view w p" and "find_tty B w q = Inr tty" and "clk_tck w \<noteq> 0"
    and "fds w q = (r, Inr f)" and "userName B w r = (t, Inr user)"
  shows "\<exists>es. print_process MAJOR MINOR order ltr B w (p, scr)
      = ((t, \<lparr>os_text = os_text scr @ unlines CHR 0x0A (identity_lines q
            @ time_lines MAJOR MINOR w tty q @ [''Opened Files :''] @ map fd_line es),
          cout_text = cout_text scr @ ''user name : '' @ user @ [CHR 0x0A]\<rparr>), Inr ())
    \<and> (\<forall>fd target. (fd, target) \<in> set es \<longleftrightarrow> f fd = Some target) \<and> length es = card (dom f)"
proof (intro exI conjI allI)
  show "print_process MAJOR MINOR order ltr B w (p, scr)
      = ((t, \<lparr>os_text = os_text scr @ unlines CHR 0x0A (identity_lines q
            @ time_lines MAJOR MINOR w tty q @ [''Opened Files :''] @ map fd_line (order f)),
          cout_text = cout_text scr @ ''user name : '' @ user @ [CHR 0x0A]\<rparr>), Inr ())"
    unfolding print_process_def print_identity [OF assms(3)] print_times [OF assms(3-5)]
    by (cases scr) (simp add: emit_run print_fds_run [OF assms(6)] print_user_run [OF assms(7)] unlines_def)
  show "(fd, target) \<in> set (order f) \<longleftrightarrow> f fd = Some target" for fd target
    by (rule map_iteration.order_visits [OF assms(1,2)])
  show "length (order f) = card (dom f)"
    by (rule map_iteration.order_length [OF assms(1,2)])
qed

definition quiet_world :: world where
  "quiet_world = empty_world\<lparr>directories := \<lambda>_. Some []\<rparr>"

definition read_process :: "process_info \<Rightarrow> process_info" where
  "read_process raw = raw\<lparr>m_need_update_stat := False, m_need_update_fd := False,
     m_need_update_status := False, m_uids := [0], m_fds := [3 \<mapsto> ''pipe'']\<rparr>"

lemma print_process_text_witness:
  "\<forall>raw. \<exists>es. print_process id id ascending True reference_boost quiet_world
      (read_process raw, \<lparr>os_text = [], cout_text = []\<rparr>)
    = ((read_process raw, \<lparr>os_text = [] @ unlines CHR 0x0A (identity_lines (read_process raw)
          @ time_lines id id quiet_world [] (read_process raw) @ [''Opened Files :''] @ map fd_line es),
        cout_text = [] @ ''user name : '' @ ''0'' @ [CHR 0x0A]\<rparr>), Inr ())
    \<and> (\<forall>fd target. (fd, target) \<in> set es \<longleftrightarrow> [3 \<mapsto> ''pipe''] fd = Some target)
    \<and> length es = card (dom [3 \<mapsto> ''pipe''])"
proof
  fix raw
  have "stat_view quiet_world (read_process raw) = read_process raw"
    by (simp add: stat_view_def read_process_def)
  moreover have "find_tty reference_boost quiet_world (read_process raw) = Inr []"
    by (simp add: find_tty_def quiet_world_def)
  moreover have "clk_tck quiet_world \<noteq> 0"
    by (simp add: quiet_world_def empty_world_def)
  moreover have "fds quiet_world (read_process raw) = (read_process raw, Inr [3 \<mapsto> ''pipe''])"
    by (simp add: fds_def getter_cases read_process_def)
  moreover have "userName reference_boost quiet_world (read_process raw) = (read_process raw, Inr ''0'')"
    by (simp add: userName_def refresh_def run_simps read_process_def user_of_def quiet_world_def
        empty_world_def to_string_def int_str_def nat_str_digit digit_char_literals)
  ultimately show "\<exists>es. print_process id id ascending True reference_boost quiet_world
      (read_process raw, \<lparr>os_text = [], cout_text = []\<rparr>)
    = ((read_process raw, \<lparr>os_text = [] @ unlines CHR 0x0A (identity_lines (read_process raw)
          @ time_lines id id quiet_world [] (read_process raw) @ [''Opened Files :''] @ map fd_line es),
        cout_text = [] @ ''user name : '' @ ''0'' @ [CHR 0x0A]\<rparr>), Inr ())
    \<and> (\<forall>fd target. (fd, target) \<in> set es \<longleftrightarrow> [3 \<mapsto> ''pipe''] fd = Some target)
    \<and> length es = card (dom [3 \<mapsto> ''pipe''])"
    using print_process_text [of ascending "[3 \<mapsto> ''pipe'']" "read_process raw" quiet_world
        "read_process raw" reference_boost "[]" "read_process raw" "read_process raw" "''0''" id id True
        "\<lparr>os_text = [], cout_text = []\<rparr>"] ascending.map_iteration_axioms
    by simp
qed

text \<open>
  When the terminals cannot be listed (no \<open>/dev/pts\<close>, as in a container without one), the
  operator throws after five lines: the caller has a part of the text, neither the
  descriptors nor the user name has been looked up, and nothing has gone to \<open>std::cout\<close>.
\<close>

theorem print_process_no_terminals:
  assumes "directories w ''/dev'' = Some dev" and "\<forall>e \<in> set dev. \<not> same_device w q (''/dev/'' @ filename e)"
    and "directories w ''/dev/pts'' = None" and "q = stat_view w p"
  shows "\<exists>part. print_process MAJOR MINOR order ltr B w (p, scr)
      = ((q, scr\<lparr>os_text := os_text scr @ unlines CHR 0x0A (identity_lines q) @ part\<rparr>),
         Inl Filesystem_error)
    \<and> CHR 0x0A \<notin> set part"
proof -
  have no_tty: "find_tty B w q = Inl Filesystem_error"
  proof -
    have "List.find (\<lambda>e. regex_match B regex_tty (filename e) \<noteq> None
        \<and> same_device w q (''/dev/'' @ filename e)) dev = None"
      using assms(2) by (auto simp: find_None_iff)
    then show ?thesis by (simp add: find_tty_def assms(1,3))
  qed
  have digits: "CHR 0x0A \<notin> set (to_string n)" for n
    by (auto simp: to_string_def dest: int_str_chars)
  have throws: "ttyNr B w q = (q, Inl Filesystem_error)"
    using settled_getters(5) [OF assms(4), of B] no_tty by simp
  show ?thesis
    unfolding print_process_def print_identity [OF assms(4)]
    by (rule exI [where x = "if ltr then ''Controlling tty : '' @ ''Major : '' @ to_string (MAJOR (m_tty_nr q))
        @ '', Minor : '' @ to_string (MINOR (m_tty_nr q)) @ '' ('' else []"])
      (use digits in \<open>simp add: print_line_throws [where call = "ttyNr B w", OF throws]\<close>)
qed

lemma print_process_no_terminals_witness:
  "\<forall>raw. \<exists>part. print_process id id ascending True reference_boost
        (empty_world\<lparr>directories := [''/dev'' \<mapsto> []]\<rparr>) (read_process raw, \<lparr>os_text = [], cout_text = []\<rparr>)
      = ((read_process raw, \<lparr>os_text = [], cout_text = []\<rparr>\<lparr>os_text := os_text \<lparr>os_text = [], cout_text = []\<rparr>
            @ unlines CHR 0x0A (identity_lines (read_process raw)) @ part\<rparr>), Inl Filesystem_error)
    \<and> CHR 0x0A \<notin> set part"
  by (rule allI, rule print_process_no_terminals [where dev = "[]"])
     (simp_all add: stat_view_def read_process_def)

end
