(* ===== verification/Stat_Cache.thy ===== *)
theory Stat_Cache
  imports Process_Stat
begin

text \<open>
  The getters of \<open>/proc/<pid>/stat\<close> as a cache.  The specification keeps at most one snapshot of
  the line of the kernel and answers every request from it; the refinement says that an object
  answers any sequence of requests as the specification does.
\<close>

section \<open>Sequences of requests\<close>

fun replies :: "('i \<Rightarrow> 's \<Rightarrow> 's \<times> 'o) \<Rightarrow> 'i list \<Rightarrow> 's \<Rightarrow> 'o list" where
  "replies f [] s = []"
| "replies f (i # is) s = (case f i s of (t, r) \<Rightarrow> r # replies f is t)"

text \<open>A simulation: related states give equal replies and stay related.\<close>

locale simulation =
  fixes step :: "'i \<Rightarrow> 's \<Rightarrow> 's \<times> 'o" and spec :: "'j \<Rightarrow> 't \<Rightarrow> 't \<times> 'o"
    and input :: "'i \<Rightarrow> 'j \<Rightarrow> bool" and related :: "'s \<Rightarrow> 't \<Rightarrow> bool"
  assumes simulates: "input i j \<Longrightarrow> related s t \<Longrightarrow>
    snd (step i s) = snd (spec j t) \<and> related (fst (step i s)) (fst (spec j t))"
begin

lemma same_replies:
  "list_all2 input is js \<Longrightarrow> related s t \<Longrightarrow> replies step is s = replies spec js t"
proof (induction "is" js arbitrary: s t rule: list_all2_induct)
  case Nil
  then show ?case by simp
next
  case (Cons i "is" j js)
  with simulates [of i j s t] show ?case by (simp add: split_beta)
qed

end

section \<open>The requests\<close>

text \<open>\<open>Ask_number k\<close> is the k-th of the getters that return a number.\<close>

datatype stat_request = Drop_cache | Ask_name | Ask_state | Ask_policy | Ask_number nat

datatype stat_reply = No_reply | Text string | Number int | Thrown fault

definition number_of :: "('a \<Rightarrow> int) \<Rightarrow> (process_info, 'a) action \<Rightarrow> (process_info, int) action" where
  "number_of f m = and_then m (\<lambda>v. returns (f v))"

definition number_getters :: "world \<Rightarrow> (process_info, int) action list" where
  "number_getters w =
    [number_of sint (ppid w), number_of sint (pgid w), number_of sint (sid w),
     number_of sint (tpgid w), number_of uint (process_flags w), number_of uint (minflt w),
     number_of uint (cminflt w), number_of uint (majflt w), number_of uint (cmajflt w),
     number_of uint (utime w), number_of uint (stime w), number_of uint (cutime w),
     number_of uint (cstime w), number_of sint (process_priority w), number_of sint (process_nice w),
     number_of sint (numThreads w), number_of uint (vmSize w), number_of uint (startCode w),
     number_of uint (endCode w), number_of uint (startStack w), number_of uint (kstkEsp w),
     number_of uint (kstkEip w), number_of uint (wchanAddr w), number_of sint (processor w),
     number_of uint (rtPriority w), number_of uint (delayacctBlkioTicks w),
     number_of uint (guestTime w), number_of uint (cguestTime w), number_of uint (startData w),
     number_of uint (endData w), number_of uint (startBrk w), number_of uint (startArg w),
     number_of uint (endArg w), number_of uint (startEnv w), number_of uint (endEnv w)]"

definition reply_of :: "('a \<Rightarrow> stat_reply) \<Rightarrow> (process_info, 'a) action \<Rightarrow> process_info \<Rightarrow> process_info \<times> stat_reply" where
  "reply_of f m p = (case m p of (q, Inl e) \<Rightarrow> (q, Thrown e) | (q, Inr v) \<Rightarrow> (q, f v))"

fun ask_stat :: "world \<times> stat_request \<Rightarrow> process_info \<Rightarrow> process_info \<times> stat_reply" where
  "ask_stat (w, Drop_cache) p = (needUpdate p, No_reply)"
| "ask_stat (w, Ask_name) p = reply_of Text (process_name w) p"
| "ask_stat (w, Ask_state) p = reply_of Text (process_state w) p"
| "ask_stat (w, Ask_policy) p = reply_of Text (policy w) p"
| "ask_stat (w, Ask_number k) p = reply_of Number (number_getters w ! k) p"

section \<open>The specification\<close>

text \<open>What the kernel shows at one moment: the numbers are those after the state, as printed.\<close>

record snapshot =
  shown_name :: string
  shown_state :: string
  shown_numbers :: "int list"

text \<open>
  Which number of the line each getter is for, in the order of \<open>number_getters\<close>.  The ticks
  the children spent as guests are printed signed and returned unsigned.
\<close>

definition line_numbers :: "(int list \<Rightarrow> int) list" where
  "line_numbers =
     map (\<lambda>i l. l ! i) [0, 1, 2, 4, 5, 6, 7, 8, 9, 10, 11, 12, 13, 14, 15, 16, 19, 22, 23, 24, 25,
       26, 31, 35, 36, 38, 39]
     @ [\<lambda>l. l ! 40 mod 2 ^ 64] @ map (\<lambda>i l. l ! i) [41, 42, 43, 44, 45, 46, 47]"

fun spec_answer :: "stat_request \<Rightarrow> snapshot \<Rightarrow> stat_reply" where
  "spec_answer Drop_cache s = No_reply"
| "spec_answer Ask_name s = Text (shown_name s)"
| "spec_answer Ask_state s = Text (state_name (shown_state s))"
| "spec_answer Ask_policy s = Text (policy_name (word_of_int (shown_numbers s ! 37)))"
| "spec_answer (Ask_number k) s = Number ((line_numbers ! k) (shown_numbers s))"

text \<open>The cache is filled with the snapshot of the moment of a request that finds it empty.\<close>

fun ask_spec :: "snapshot \<times> stat_request \<Rightarrow> snapshot option \<Rightarrow> snapshot option \<times> stat_reply" where
  "ask_spec (now, Drop_cache) cache = (None, No_reply)"
| "ask_spec (now, r) cache =
     (let s = (case cache of None \<Rightarrow> now | Some s \<Rightarrow> s) in (Some s, spec_answer r s))"

text \<open>The file shows a snapshot of the process at \<open>path\<close>; a request is one the object has.\<close>

definition stat_file_shows :: "world \<Rightarrow> string \<Rightarrow> snapshot \<Rightarrow> bool" where
  "stat_file_shows w path s \<longleftrightarrow>
     (\<exists>q. files w (path @ ''stat'') = Some (proc_stat_line q (shown_name s) (shown_state s))
        \<and> shown_numbers s = stat_numbers q)
     \<and> (\<forall>c \<in> set (shown_name s). \<not> is_space c) \<and> set (shown_name s) \<inter> set ''()'' = {}
     \<and> plain_word (shown_state s)"

fun known_request :: "stat_request \<Rightarrow> bool" where
  "known_request (Ask_number k) \<longleftrightarrow> k < 35"
| "known_request r \<longleftrightarrow> True"

definition same_call :: "string \<Rightarrow> world \<times> stat_request \<Rightarrow> snapshot \<times> stat_request \<Rightarrow> bool" where
  "same_call path = (\<lambda>(w, r) (s, r'). r = r' \<and> known_request r \<and> stat_file_shows w path s)"

section \<open>The simulation\<close>

definition holds_snapshot :: "process_info \<Rightarrow> snapshot \<Rightarrow> bool" where
  "holds_snapshot p s \<longleftrightarrow> m_name p = shown_name s \<and> m_state p = state_name (shown_state s)
     \<and> stat_numbers p = shown_numbers s"

definition cache_related :: "string \<Rightarrow> process_info \<Rightarrow> snapshot option \<Rightarrow> bool" where
  "cache_related path p cache \<longleftrightarrow> m_proc_path p = path \<and>
     (case cache of None \<Rightarrow> m_need_update_stat p
      | Some s \<Rightarrow> \<not> m_need_update_stat p \<and> holds_snapshot p s)"

lemma uint_mod_sint: "uint (v :: 64 word) = sint v mod 2 ^ 64"
  by (simp add: uint_sint take_bit_eq_mod)

text \<open>Every getter of a number returns the number of the line that it is for.\<close>

lemma number_getters_lines:
  "list_all2 (\<lambda>m f. \<forall>p. m p = (stat_view w p, Inr (f (stat_numbers (stat_view w p)))))
     (number_getters w) line_numbers"
  unfolding number_getters_def line_numbers_def
  by (simp add: number_of_def and_then_def returns_def stat_getter_view stat_numbers_def
      ppid_def pgid_def sid_def tpgid_def process_flags_def minflt_def cminflt_def majflt_def
      cmajflt_def utime_def stime_def cutime_def cstime_def process_priority_def process_nice_def
      numThreads_def vmSize_def startCode_def endCode_def startStack_def kstkEsp_def kstkEip_def
      wchanAddr_def processor_def rtPriority_def delayacctBlkioTicks_def guestTime_def
      cguestTime_def startData_def endData_def startBrk_def startArg_def endArg_def startEnv_def
      endEnv_def uint_mod_sint)

lemma readStat_snapshot:
  assumes "stat_file_shows w (m_proc_path p) s"
  shows "holds_snapshot (readStat w p) s"
proof -
  from assms obtain q where line: "files w (m_proc_path p @ ''stat'')
      = Some (proc_stat_line q (shown_name s) (shown_state s))"
      "\<forall>c \<in> set (shown_name s). \<not> is_space c" "set (shown_name s) \<inter> set ''()'' = {}"
      "plain_word (shown_state s)"
    and numbers: "shown_numbers s = stat_numbers q"
    unfolding stat_file_shows_def by blast
  show ?thesis
    unfolding holds_snapshot_def readStat_line [OF line] numbers
    by (simp add: stat_fields_def stat_numbers_def)
qed

lemma view_related:
  assumes "stat_file_shows w path now" and "cache_related path p cache"
    and "s = (case cache of None \<Rightarrow> now | Some s \<Rightarrow> s)"
  shows "cache_related path (stat_view w p) (Some s)"
proof (cases cache)
  case None
  with assms(2) have "m_need_update_stat p" and path: "m_proc_path p = path"
    by (simp_all add: cache_related_def)
  moreover have "holds_snapshot (readStat w p) now"
    using readStat_snapshot assms(1) path by simp
  ultimately show ?thesis
    using stat_view_keeps(5) [of w p] assms(3) None
    by (simp add: cache_related_def stat_view_def holds_snapshot_def stat_numbers_def)
next
  case (Some s')
  with assms(2,3) show ?thesis by (simp add: cache_related_def stat_view_def)
qed

lemma policy_number: "word_of_int (stat_numbers p ! 37) = m_policy p"
  by (simp add: stat_numbers_def)

lemma ask_number:
  assumes "k < 35"
  shows "ask_stat (w, Ask_number k) p
    = (stat_view w p, Number ((line_numbers ! k) (stat_numbers (stat_view w p))))"
proof -
  have "length line_numbers = 35" by (simp add: line_numbers_def)
  with assms list_all2_nthD2 [OF number_getters_lines, of k w] show ?thesis
    by (simp add: reply_of_def)
qed

interpretation stat_cache: simulation ask_stat ask_spec "same_call path" "cache_related path"
  for path
proof unfold_locales
  fix i j p cache
  assume same: "same_call path i j" and related: "cache_related path p cache"
  obtain w r now where call: "i = (w, r)" "j = (now, r)" "known_request r"
      and shows_now: "stat_file_shows w path now"
    using same by (auto simp: same_call_def)
  define s where "s = (case cache of None \<Rightarrow> now | Some s \<Rightarrow> s)"
  have filled: "cache_related path (stat_view w p) (Some s)"
    by (rule view_related [OF shows_now related s_def])
  then have holds: "m_name (stat_view w p) = shown_name s"
      "m_state (stat_view w p) = state_name (shown_state s)"
      "stat_numbers (stat_view w p) = shown_numbers s"
    by (simp_all add: cache_related_def holds_snapshot_def)
  show "snd (ask_stat i p) = snd (ask_spec j cache)
      \<and> cache_related path (fst (ask_stat i p)) (fst (ask_spec j cache))"
  proof (cases r)
    case Drop_cache
    then show ?thesis
      using related by (simp add: call cache_related_def needUpdate_def)
  next
    case (Ask_number k)
    then show ?thesis
      using call(3) filled ask_number [of k w p] holds by (simp add: call s_def Let_def del: ask_stat.simps)
  qed (use filled holds policy_number [of "stat_view w p"] in
      \<open>simp_all add: call s_def Let_def reply_of_def process_name_def process_state_def policy_def
        stat_getter_view\<close>)
qed

section \<open>Property\<close>

text \<open>
  C2. The getters of \<open>/proc/<pid>/stat\<close> refine a cache of one snapshot: for any sequence of
  requests and invalidations, with the kernel showing at each moment whatever it likes, a new
  object answers as the specification that takes a snapshot at the first request after an
  invalidation, answers every request from it, and never mixes two snapshots.
\<close>

theorem stat_getters_refine_cache:
  assumes "\<forall>(w, s, r) \<in> set calls. known_request r
      \<and> stat_file_shows w (''/proc/'' @ to_string n @ ''/'') s"
  shows "replies ask_stat (map (\<lambda>(w, s, r). (w, r)) calls) (ProcessInfo raw n)
    = replies ask_spec (map (\<lambda>(w, s, r). (s, r)) calls) None"
proof (rule stat_cache.same_replies)
  show "list_all2 (same_call (''/proc/'' @ to_string n @ ''/''))
      (map (\<lambda>(w, s, r). (w, r)) calls) (map (\<lambda>(w, s, r). (s, r)) calls)"
    using assms by (induction calls) (auto simp: same_call_def)
  show "cache_related (''/proc/'' @ to_string n @ ''/'') (ProcessInfo raw n) None"
    by (simp add: cache_related_def ProcessInfo_def needUpdate_def)
qed

definition shown_by :: "process_info \<Rightarrow> snapshot" where
  "shown_by q = \<lparr>shown_name = ''sshd'', shown_state = ''S'', shown_numbers = stat_numbers q\<rparr>"

definition world_of :: "process_info \<Rightarrow> world" where
  "world_of q = stat_world ''/proc/7/stat'' (proc_stat_line q ''sshd'' ''S'')"

lemma stat_getters_refine_cache_witness:
  "\<forall>raw q1 q2. replies ask_stat
      [(world_of q1, Ask_name), (world_of q2, Ask_number 9), (world_of q2, Drop_cache),
       (world_of q2, Ask_number 9)] (ProcessInfo raw 7)
    = [Text ''sshd'', Number (uint (m_utime q1)), No_reply, Number (uint (m_utime q2))]"
proof (intro allI)
  fix raw q1 q2
  have path: "''/proc/'' @ to_string 7 @ ''/'' = ''/proc/7/''"
    by (simp add: to_string_def int_str_def nat_str_digit digit_char_literals)
  have seen: "stat_file_shows (world_of q) (''/proc/'' @ to_string 7 @ ''/'') (shown_by q)" for q
    unfolding path
    by (auto simp: stat_file_shows_def world_of_def shown_by_def stat_world_def plain_word_def is_space_def)
  show "replies ask_stat
      [(world_of q1, Ask_name), (world_of q2, Ask_number 9), (world_of q2, Drop_cache),
       (world_of q2, Ask_number 9)] (ProcessInfo raw 7)
    = [Text ''sshd'', Number (uint (m_utime q1)), No_reply, Number (uint (m_utime q2))]"
    using stat_getters_refine_cache [of "[(world_of q1, shown_by q1, Ask_name),
        (world_of q2, shown_by q2, Ask_number 9), (world_of q2, shown_by q2, Drop_cache),
        (world_of q2, shown_by q2, Ask_number 9)]" 7 raw] seen [of q1] seen [of q2]
    by (simp add: Let_def shown_by_def line_numbers_def stat_numbers_def del: ask_stat.simps)
qed

end
