(* ===== verification/Lifetime.thy ===== *)
theory Lifetime
  imports Sampling Process_Maps Display
begin

text \<open>
  Objects in use: every public operation of \<open>ProcessInfo\<close> on any number of objects that share
  the static map of old states.  What every object is at all times, and what the static part
  keeps for ever.
\<close>

section \<open>A well-formed object\<close>

definition map_categories :: "string set" where
  "map_categories = {''Image'', ''Heap'', ''Stack'', ''Shareable'', ''Mapped File'', ''Private''}"

definition environ_entry_ok :: "string \<times> string \<Rightarrow> bool" where
  "environ_entry_ok = (\<lambda>(k, v). CHR ''='' \<notin> set k \<and> CHR 0x00 \<notin> set k \<and> CHR 0x00 \<notin> set v
     \<and> CHR 0x0A \<notin> set v)"

definition object_ok :: "process_info \<Rightarrow> bool" where
  "object_ok p \<longleftrightarrow>
     (m_proc_path p = [] \<or> (\<exists>n. m_proc_path p = ''/proc/'' @ to_string n @ ''/''))
   \<and> (\<forall>c \<in> set (m_name p). \<not> is_space c \<and> c \<notin> set ''()'')
   \<and> (\<forall>a \<in> set (m_cmdline p). CHR 0x00 \<notin> set a)
   \<and> finite (dom (m_environ p)) \<and> (\<forall>k v. m_environ p k = Some v \<longrightarrow> environ_entry_ok (k, v))
   \<and> CHR 0x0A \<notin> set (m_wchan_name p)
   \<and> finite (dom (m_fds p))
   \<and> (\<forall>m \<in> set (m_maps p). category m \<in> map_categories)"

definition keeps_ok :: "(process_info, 'a) action \<Rightarrow> bool" where
  "keeps_ok m \<longleftrightarrow> (\<forall>p. object_ok p \<longrightarrow> object_ok (fst (m p)))"

named_theorems ok_rules \<open>what keeps an object well-formed\<close>

text \<open>Members that the invariant does not mention.\<close>

definition ok_view where
  "ok_view p = (m_proc_path p, m_name p, m_cmdline p, m_environ p, m_wchan_name p, m_fds p, m_maps p)"

lemma object_ok_view: "ok_view q = ok_view p \<Longrightarrow> object_ok q = object_ok p"
  by (simp add: ok_view_def object_ok_def)

lemma keeps_ok_view: "(\<And>p. ok_view (fst (m p)) = ok_view p) \<Longrightarrow> keeps_ok m"
  unfolding keeps_ok_def using object_ok_view by blast

lemma object_ok_updates [simp]:
  "object_ok (p\<lparr>m_need_update_stat := b\<rparr>) = object_ok p"
  "object_ok (p\<lparr>m_need_update_status := b\<rparr>) = object_ok p"
  "object_ok (p\<lparr>m_need_update_io := b\<rparr>) = object_ok p"
  "object_ok (p\<lparr>m_need_update_cwd := b\<rparr>) = object_ok p"
  "object_ok (p\<lparr>m_need_update_exe := b\<rparr>) = object_ok p"
  "object_ok (p\<lparr>m_need_update_root := b\<rparr>) = object_ok p"
  "object_ok (p\<lparr>m_need_update_cmdline := b\<rparr>) = object_ok p"
  "object_ok (p\<lparr>m_need_update_environ := b\<rparr>) = object_ok p"
  "object_ok (p\<lparr>m_need_update_fd := b\<rparr>) = object_ok p"
  "object_ok (p\<lparr>m_need_update_wchan := b\<rparr>) = object_ok p"
  "object_ok (p\<lparr>m_need_update_smaps := b\<rparr>) = object_ok p"
  "object_ok (p\<lparr>m_need_update_io_read_usage := b\<rparr>) = object_ok p"
  "object_ok (p\<lparr>m_need_update_io_write_usage := b\<rparr>) = object_ok p"
  "object_ok (p\<lparr>m_need_update_cpu_usage := b\<rparr>) = object_ok p"
  "object_ok (p\<lparr>m_io := i\<rparr>) = object_ok p"
  "object_ok (p\<lparr>m_io_read_usage := d\<rparr>) = object_ok p"
  "object_ok (p\<lparr>m_io_write_usage := d\<rparr>) = object_ok p"
  "object_ok (p\<lparr>m_cpu_usage := n\<rparr>) = object_ok p"
  "object_ok (p\<lparr>m_last_cpu_total_time := t, m_last_process_total_time := u\<rparr>) = object_ok p"
  by (simp_all add: object_ok_def)

lemma needUpdate_ok [simp]: "object_ok (needUpdate p) = object_ok p"
  by (simp add: object_ok_def needUpdate_def)

lemma constructed_ok: "object_ok (ProcessInfo raw n)" "object_ok (ProcessInfo0 raw)"
  by (auto simp: ProcessInfo_def ProcessInfo0_def fresh_process_def object_ok_def needUpdate_def Let_def)

section \<open>The readers\<close>

lemma keeps_ok_modify [ok_rules]: "(\<And>p. object_ok p \<Longrightarrow> object_ok (f p)) \<Longrightarrow> keeps_ok (modify f)"
  by (simp add: keeps_ok_def modify_def)

lemma keeps_ok_returns [ok_rules]: "keeps_ok (returns v)"
  by (simp add: keeps_ok_def returns_def)

lemma keeps_ok_and_then [ok_rules]:
  assumes "keeps_ok m" and "\<And>v. keeps_ok (k v)"
  shows "keeps_ok (and_then m k)"
  unfolding keeps_ok_def
proof (intro allI impI)
  fix p assume "object_ok p"
  obtain q r where step: "m p = (q, r)" by fastforce
  with assms(1) \<open>object_ok p\<close> have "object_ok q" by (auto simp: keeps_ok_def dest: spec [of _ p])
  with assms(2) step show "object_ok (fst (and_then m k p))"
    by (auto simp: and_then_def keeps_ok_def split: sum.splits)
qed

lemma keeps_ok_refresh [ok_rules]:
  assumes "keeps_ok reader" and "\<And>p. object_ok (clear p) = object_ok p"
  shows "keeps_ok (refresh flag clear reader)"
proof -
  have "keeps_ok (and_then reader (\<lambda>_. modify clear))"
    using assms by (intro keeps_ok_and_then keeps_ok_modify) simp_all
  then show ?thesis by (simp add: keeps_ok_def refresh_def returns_def)
qed

lemma keeps_ok_getter [ok_rules]:
  assumes "keeps_ok reader" and "\<And>p. object_ok (clear p) = object_ok p"
  shows "keeps_ok (getter flag clear reader val)"
proof -
  have "keeps_ok (and_then (refresh flag clear reader) (\<lambda>_ t. returns (val t) t))"
    by (intro keeps_ok_and_then keeps_ok_refresh assms) (simp add: keeps_ok_def returns_def)
  then show ?thesis by (simp add: keeps_ok_def getter_def)
qed

lemma keeps_ok_read [ok_rules]: "keeps_ok (\<lambda>p. (p, r p))"
  by (simp add: keeps_ok_def)

lemma extract_string_no_space:
  assumes "\<forall>c \<in> set old. \<not> is_space c"
  shows "\<forall>c \<in> set (snd (extract_string is old)). \<not> is_space c"
  using assms by (auto simp: extract_string_def Let_def dest: set_takeWhileD split: prod.splits bool.splits)

lemma extract_field_name:
  "f \<in> set stat_fields \<Longrightarrow> m_name (snd (extract_field f (is, p))) = m_name p"
  by (simp add: stat_fields_def) (elim disjE; simp add: split_beta)

lemma fold_extract_name:
  "set fs \<subseteq> set stat_fields \<Longrightarrow> m_name (snd (fold extract_field fs (is, p))) = m_name p"
proof (induction fs arbitrary: "is" p)
  case Nil
  then show ?case by simp
next
  case (Cons f fs)
  obtain is' p' where "extract_field f (is, p) = (is', p')" by fastforce
  with Cons extract_field_name [of f "is" p] show ?case by simp
qed

lemma readStat_name:
  assumes "\<forall>c \<in> set (m_name p). \<not> is_space c"
  shows "\<forall>c \<in> set (m_name (readStat w p)). \<not> is_space c \<and> c \<notin> set ''()''"
proof -
  obtain s v where "m_name (readStat w p) = erase_char CHR '')'' (erase_char CHR ''('' (snd (extract_string s (m_name p))))"
    by (simp add: readStat_def Let_def split_beta fold_extract_name)
  with extract_string_no_space [OF assms, of s] show ?thesis
    by (auto simp: erase_char_def)
qed

lemma readStat_ok: "object_ok p \<Longrightarrow> object_ok (readStat w p)"
  using readStat_outside [of w p] readStat_name [of p w]
  by (simp add: object_ok_def outside_stat_def)

lemma readStatus_keeps [ok_rules]: "keeps_ok (readStatus B w)"
proof (rule keeps_ok_view)
  show "ok_view (fst (readStatus B w p)) = ok_view p" for p
    using readStatus_outside [of B w p] by (simp add: ok_view_def outside_status_def)
qed

lemma readIo_keeps [ok_rules]: "keeps_ok (readIo B w)"
  by (rule keeps_ok_view, rule readIo_frame) (simp add: ok_view_def)

lemma getline_parts:
  assumes "getline d is [] = (is', l)"
  shows "d \<notin> set l" and "set l \<subseteq> set (buf is)" and "set (buf is') \<subseteq> set (buf is)"
proof -
  have "set (dropWhile (\<lambda>c. c \<noteq> d) (buf is)) \<subseteq> set (buf is)"
    by (auto dest: set_dropWhileD)
  with assms show "set (buf is') \<subseteq> set (buf is)"
    by (auto simp: getline_def Let_def split: if_splits list.splits)
  show "d \<notin> set l" "set l \<subseteq> set (buf is)"
    using assms by (auto simp: getline_def Let_def dest: set_takeWhileD split: if_splits list.splits)
qed

lemma getlines_no_delimiter: "(l, e) \<in> set (getlines d is) \<Longrightarrow> d \<notin> set l"
proof (induction d "is" rule: getlines.induct)
  case (1 d "is")
  obtain is' line where step: "getline d is [] = (is', line)" by fastforce
  have "getlines d is = (if failbit is' then [] else (line, eofbit is') # getlines d is')"
    by (subst getlines.simps) (simp add: step)
  with 1 step getline_parts(1) [OF step] show ?case
    by (auto split: if_splits)
qed

lemma chunks_no_delimiter: "a \<in> set (chunks_of d is) \<Longrightarrow> d \<notin> set a"
  using getlines_no_delimiter [of a _ d "is"] by (auto simp: chunks_of_def)

lemma readCmdline_ok: "object_ok p \<Longrightarrow> object_ok (readCmdline w p)"
  by (simp add: readCmdline_eq object_ok_def chunks_no_delimiter)

lemma key_value_parts:
  assumes "key_value d c = (k, v)"
  shows "d \<notin> set k" and "set k \<union> set v \<subseteq> set c" and "CHR 0x0A \<notin> set v"
proof -
  obtain s where key: "getline d (istringstream c) [] = (s, k)"
    using assms by (auto simp: key_value_def Let_def split: prod.splits)
  obtain s' where val: "getline CHR 0x0A s [] = (s', v)"
    using assms key by (auto simp: key_value_def Let_def split: prod.splits)
  show "d \<notin> set k" "set k \<union> set v \<subseteq> set c" "CHR 0x0A \<notin> set v"
    using getline_parts [OF key] getline_parts [OF val] by auto
qed

lemma environ_chunk_ok:
  assumes "c \<in> set (chunks_of CHR 0x00 is)"
  shows "environ_entry_ok (key_value CHR ''='' c)"
proof -
  obtain k v where kv: "key_value CHR ''='' c = (k, v)" by fastforce
  show ?thesis
    using key_value_parts [OF kv] chunks_no_delimiter [OF assms] by (auto simp: environ_entry_ok_def kv)
qed

lemma readEnviron_ok:
  assumes "object_ok p"
  shows "object_ok (readEnviron w p)"
proof -
  obtain kvs where kvs: "kvs = rev (map (key_value CHR ''='')
      (chunks_of CHR 0x00 (ifstream w (m_proc_path p @ ''environ''))))" by simp
  have result: "readEnviron w p = p\<lparr>m_environ := m_environ p ++ map_of kvs\<rparr>"
    unfolding kvs by (rule readEnviron_eq)
  have new: "environ_entry_ok kv" if "kv \<in> set kvs" for kv
    using that by (auto simp: kvs environ_chunk_ok)
  have old: "environ_entry_ok (k, v)" if "m_environ p k = Some v" for k v
    using that assms unfolding object_ok_def by blast
  have "environ_entry_ok (k, v)" if "(m_environ p ++ map_of kvs) k = Some v" for k v
    using that by (auto simp only: map_add_Some_iff intro: new old map_of_SomeD)
  moreover have "finite (dom (m_environ p ++ map_of kvs))"
    using assms by (simp add: object_ok_def finite_dom_map_of)
  ultimately show ?thesis
    using assms unfolding result object_ok_def by simp
qed

lemma readLinks_ok [simp]:
  "object_ok (readCwd w p) = object_ok p" "object_ok (readExe w p) = object_ok p"
  "object_ok (readRoot w p) = object_ok p"
  by (simp_all add: object_ok_def readCwd_def readExe_def readRoot_def)

lemma readWchan_ok:
  assumes "object_ok p"
  shows "object_ok (readWchan w p)"
proof -
  have "CHR 0x0A \<notin> set (snd (getline CHR 0x0A is old))" if "CHR 0x0A \<notin> set old" for "is" old
    using that by (auto simp: getline_def Let_def dest: set_takeWhileD split: list.splits)
  with assms show ?thesis by (simp add: readWchan_def object_ok_def)
qed

lemma readFd_keeps [ok_rules]: "keeps_ok (readFd w)"
  unfolding keeps_ok_def
proof (intro allI impI)
  fix p assume ok: "object_ok p"
  have "object_ok (fst (for_each (\<lambda>e q. assign (stoi 10 (filename e))
      (\<lambda>n q. q\<lparr>m_fds := (m_fds q)(n \<mapsto> f e)\<rparr>) q) es p))" for es and f :: "dir_entry \<Rightarrow> string"
    by (rule for_each_invariant [where I = object_ok, OF _ ok])
      (auto simp: assign_def object_ok_def split: sum.splits)
  with ok show "object_ok (fst (readFd w p))"
    by (simp add: readFd_def split: option.splits)
qed

lemma do_all_modify_last:
  assumes "do_all [a, b, modify f] s = (t, Inr ())"
  shows "\<exists>u. t = f u"
  using assms by (auto simp: modify_def split: prod.splits sum.splits)

lemma mk_MMap_category:
  assumes "mk_MMap B raw ss = (m, Inr ())"
  shows "category m \<in> map_categories"
proof -
  from assms obtain u where "m = defineCategory u"
    unfolding mk_MMap_def Let_def split_beta by (blast dest: do_all_modify_last)
  then show ?thesis by (auto simp: defineCategory_def category_def map_categories_def)
qed

lemma append_map_ok: "object_ok p \<Longrightarrow> object_ok (fst (append_map B raw ss p))"
  using mk_MMap_category [of B "raw (length (m_maps p))" ss]
  by (auto simp: append_map_def object_ok_def split: prod.splits sum.splits)

lemma smaps_step_ok: "object_ok (fst s) \<Longrightarrow> object_ok (fst (fst (smaps_step B raw line s)))"
  using append_map_ok [of "fst s" B raw "snd s"]
  by (auto simp: smaps_step_def split_beta split: sum.splits)

lemma readSmaps_keeps [ok_rules]: "keeps_ok (readSmaps B raw w)"
  unfolding keeps_ok_def
proof (intro allI impI)
  fix p assume "object_ok p"
  then have cleared: "object_ok (p\<lparr>m_maps := []\<rparr>)" by (simp add: object_ok_def)
  obtain q t r where loop: "for_each (smaps_step B raw)
      (lines_of (ifstream w (m_proc_path p @ ''/smaps''))) (p\<lparr>m_maps := []\<rparr>, []) = ((q, t), r)"
    by (metis prod.exhaust)
  have "object_ok (fst (fst ((for_each (smaps_step B raw)
      (lines_of (ifstream w (m_proc_path p @ ''/smaps''))) (p\<lparr>m_maps := []\<rparr>, [])))))"
    by (rule for_each_invariant [where I = "\<lambda>s. object_ok (fst s)"]) (simp_all add: smaps_step_ok cleared)
  with loop have "object_ok q" by simp
  with append_map_ok cleared show "object_ok (fst (readSmaps B raw w p))"
    by (simp add: readSmaps_def Let_def loop split: sum.splits)
qed

section \<open>The operations on one object\<close>

definition effect :: "(process_info, 'a) action \<Rightarrow> process_info \<Rightarrow> process_info" where
  "effect m p = fst (m p)"

text \<open>What each public member function does to its object.\<close>

definition object_calls :: "boost \<Rightarrow> (nat \<Rightarrow> mmap) \<Rightarrow> world \<Rightarrow> (process_info \<Rightarrow> process_info) list" where
  "object_calls B raw w =
     [needUpdate, effect (process_name w), effect (process_state w), effect (ppid w),
      effect (pgid w), effect (sid w), effect (tpgid w), effect (process_flags w),
      effect (minflt w), effect (cminflt w), effect (majflt w), effect (cmajflt w),
      effect (utime w), effect (stime w), effect (cutime w), effect (cstime w),
      effect (process_priority w), effect (process_nice w), effect (numThreads w),
      effect (vmSize w), effect (startCode w), effect (endCode w), effect (startStack w),
      effect (kstkEsp w), effect (kstkEip w), effect (wchanAddr w), effect (processor w),
      effect (rtPriority w), effect (delayacctBlkioTicks w), effect (guestTime w),
      effect (cguestTime w), effect (startData w), effect (endData w), effect (startBrk w),
      effect (startArg w), effect (endArg w), effect (startEnv w), effect (endEnv w),
      effect (cmdline w), effect (cwd w), effect (exe w), effect (process_root w),
      effect (environ w), effect (readBytes B w), effect (writeBytes B w), effect (uids B w),
      effect (gids B w), effect (vmPeak B w), effect (vmLck B w), effect (vmPin B w),
      effect (vmHwm B w), effect (vmRss B w), effect (vmData B w), effect (vmStk B w),
      effect (vmExe B w), effect (vmLib B w), effect (vmPte B w), effect (vmPmd B w),
      effect (vmSwap B w), effect (fds w), effect (wchanName w), effect (maps B raw w),
      effect (policy w), effect (startTime w), effect (ttyNr B w), effect (userName B w)]"

lemmas call_defs = process_name_def process_state_def ppid_def pgid_def sid_def tpgid_def process_flags_def
  minflt_def cminflt_def majflt_def cmajflt_def utime_def stime_def cutime_def cstime_def
  process_priority_def process_nice_def numThreads_def vmSize_def startCode_def endCode_def
  startStack_def kstkEsp_def kstkEip_def wchanAddr_def processor_def rtPriority_def
  delayacctBlkioTicks_def guestTime_def cguestTime_def startData_def endData_def startBrk_def
  startArg_def endArg_def startEnv_def endEnv_def cmdline_def cwd_def exe_def process_root_def
  environ_def readBytes_def writeBytes_def uids_def gids_def vmPeak_def vmLck_def vmPin_def
  vmHwm_def vmRss_def vmData_def vmStk_def vmExe_def vmLib_def vmPte_def vmPmd_def vmSwap_def
  fds_def wchanName_def maps_def policy_def startTime_def ttyNr_def userName_def

lemma effect_ok: "keeps_ok m \<Longrightarrow> object_ok p \<Longrightarrow> object_ok (effect m p)"
  by (simp add: effect_def keeps_ok_def)

text \<open>Every group has one reader, so nine facts serve all its getters.\<close>

lemma group_keeps:
  "keeps_ok (modify (readStat w))" "keeps_ok (modify (readCmdline w))"
  "keeps_ok (modify (readEnviron w))" "keeps_ok (modify (readWchan w))"
  "keeps_ok (modify (readCwd w))" "keeps_ok (modify (readExe w))" "keeps_ok (modify (readRoot w))"
  by (simp_all add: keeps_ok_modify readStat_ok readCmdline_ok readEnviron_ok readWchan_ok)

lemma getter_keeps:
  "keeps_ok (stat_getter w val)" "keeps_ok (status_getter B w val')" "keeps_ok (io_getter B w val'')"
  "keeps_ok (stat_refresh w)"
  unfolding stat_getter_def status_getter_def io_getter_def stat_refresh_def
  by (simp_all add: keeps_ok_getter keeps_ok_refresh group_keeps readStatus_keeps readIo_keeps)

lemma object_calls_ok:
  assumes "f \<in> set (object_calls B raw w)" and "object_ok p"
  shows "object_ok (f p)"
  using assms(1) unfolding object_calls_def list.set
  by (elim insertE emptyE)
     (simp_all add: effect_ok assms(2) call_defs getter_keeps keeps_ok_getter keeps_ok_and_then
        keeps_ok_read keeps_ok_refresh group_keeps readStatus_keeps readFd_keeps readSmaps_keeps)

section \<open>The operations on an object and the static part\<close>

text \<open>The old states are well-formed and stand under their own pid.\<close>

definition registry_ok :: "globals \<Rightarrow> bool" where
  "registry_ok g \<longleftrightarrow> (\<forall>k old. map_pid_oldstate g k = Some old \<longrightarrow> m_pid old = k \<and> object_ok old)"

text \<open>
  How the static part changes: nothing is removed, an old state changes in the counters of its
  last samples only, and the number of cores stays once it is known.
\<close>

definition same_but_samples :: "process_info \<Rightarrow> process_info \<Rightarrow> bool" where
  "same_but_samples old new \<longleftrightarrow> new = old\<lparr>m_io := m_io new,
     m_last_cpu_total_time := m_last_cpu_total_time new,
     m_last_process_total_time := m_last_process_total_time new\<rparr>"

definition evolves :: "globals \<Rightarrow> globals \<Rightarrow> bool" where
  "evolves g g' \<longleftrightarrow>
     (\<forall>k old. map_pid_oldstate g k = Some old \<longrightarrow>
        (\<exists>new. map_pid_oldstate g' k = Some new \<and> same_but_samples old new))
   \<and> (\<forall>n. nb_core g = Some n \<longrightarrow> nb_core g' = Some n)"

lemma same_but_samples_refl: "same_but_samples p p"
  by (simp add: same_but_samples_def)

lemma same_but_samples_trans:
  assumes "same_but_samples a b" and "same_but_samples b c"
  shows "same_but_samples a c"
proof -
  obtain i t u where b: "b = a\<lparr>m_io := i, m_last_cpu_total_time := t, m_last_process_total_time := u\<rparr>"
    using assms(1) unfolding same_but_samples_def by blast
  obtain i' t' u' where c: "c = b\<lparr>m_io := i', m_last_cpu_total_time := t', m_last_process_total_time := u'\<rparr>"
    using assms(2) unfolding same_but_samples_def by blast
  show ?thesis unfolding same_but_samples_def c b by simp
qed

lemma evolves_refl: "evolves g g"
  by (simp add: evolves_def same_but_samples_refl)

lemma evolves_trans:
  assumes "evolves a b" and "evolves b c"
  shows "evolves a c"
proof -
  have "\<exists>new. map_pid_oldstate c k = Some new \<and> same_but_samples old new"
    if "map_pid_oldstate a k = Some old" for k old
  proof -
    from that assms(1) obtain mid where "map_pid_oldstate b k = Some mid" "same_but_samples old mid"
      unfolding evolves_def by blast
    moreover with assms(2) obtain new where "map_pid_oldstate c k = Some new" "same_but_samples mid new"
      unfolding evolves_def by blast
    ultimately show ?thesis using same_but_samples_trans by blast
  qed
  moreover have "nb_core a = Some n \<Longrightarrow> nb_core c = Some n" for n
    using assms unfolding evolves_def by blast
  ultimately show ?thesis unfolding evolves_def by blast
qed

definition usage_keeps :: "(usage_state, 'a) action \<Rightarrow> bool" where
  "usage_keeps m \<longleftrightarrow> (\<forall>g p g' p' r. m (g, p) = ((g', p'), r) \<longrightarrow> object_ok p \<longrightarrow> registry_ok g
     \<longrightarrow> object_ok p' \<and> registry_ok g' \<and> evolves g g')"

lemma usage_keepsI:
  assumes "\<And>g p g' p' r. m (g, p) = ((g', p'), r) \<Longrightarrow> object_ok p \<Longrightarrow> registry_ok g
    \<Longrightarrow> object_ok p' \<and> registry_ok g' \<and> evolves g g'"
  shows "usage_keeps m"
  unfolding usage_keeps_def using assms by blast

lemma usage_keepsD:
  assumes "usage_keeps m" and "m (g, p) = ((g', p'), r)" and "object_ok p" and "registry_ok g"
  shows "object_ok p'" and "registry_ok g'" and "evolves g g'"
  using assms unfolding usage_keeps_def by blast+

lemma usage_keeps_and_then:
  assumes "usage_keeps m" and "\<And>v. usage_keeps (k v)"
  shows "usage_keeps (and_then m k)"
proof (rule usage_keepsI)
  fix g p g' p' r
  assume run: "and_then m k (g, p) = ((g', p'), r)" and ok: "object_ok p" "registry_ok g"
  obtain g1 p1 r1 where first: "m (g, p) = ((g1, p1), r1)" by (metis prod.exhaust)
  note keeps = usage_keepsD [OF assms(1) first ok]
  show "object_ok p' \<and> registry_ok g' \<and> evolves g g'"
  proof (cases r1)
    case (Inl e)
    with run first keeps show ?thesis by (simp add: and_then_def)
  next
    case (Inr v)
    with run first have "k v (g1, p1) = ((g', p'), r)" by (simp add: and_then_def)
    from usage_keepsD [OF assms(2) this keeps(1,2)] evolves_trans [OF keeps(3)]
    show ?thesis by simp
  qed
qed

lemma usage_keeps_on_process: "keeps_ok m \<Longrightarrow> usage_keeps (on_process m)"
  by (rule usage_keepsI) (force simp: on_process_def keeps_ok_def evolves_refl split: prod.splits)

lemma usage_keeps_local:
  assumes "\<And>g p. fst (fst (m (g, p))) = g" and "\<And>g p. object_ok p \<Longrightarrow> object_ok (snd (fst (m (g, p))))"
  shows "usage_keeps m"
  by (rule usage_keepsI) (metis assms evolves_refl fst_conv snd_conv)

lemma usage_keeps_getter:
  assumes "usage_keeps reader" and "\<And>g p. object_ok (h p) = object_ok p"
  shows "usage_keeps (getter flag (\<lambda>(g, p). (g, h p)) reader val)"
proof -
  have clear: "usage_keeps (\<lambda>s. ((fst s, h (snd s)), Inr (val (fst s, h (snd s)))))"
      and quiet: "usage_keeps (\<lambda>s. (s, Inr (val s)))"
    by (rule usage_keeps_local; simp add: assms(2))+
  have "getter flag (\<lambda>(g, p). (g, h p)) reader val s = (if flag s
      then and_then reader (\<lambda>_ s. ((fst s, h (snd s)), Inr (val (fst s, h (snd s))))) s
      else (s, Inr (val s)))" for s
    by (auto simp: getter_cases and_then_def split_beta split: prod.splits sum.splits)
  moreover have "usage_keeps (and_then reader (\<lambda>_ s. ((fst s, h (snd s)), Inr (val (fst s, h (snd s))))))"
    by (rule usage_keeps_and_then [OF assms(1) clear])
  ultimately show ?thesis
    using quiet unfolding usage_keeps_def by presburger
qed

lemma registry_insert:
  assumes "registry_ok g" and "object_ok p" and "map_pid_oldstate g (m_pid p) = None"
    and "m_pid q = m_pid p" and "object_ok q"
  shows "registry_ok (g\<lparr>map_pid_oldstate := (map_pid_oldstate g)(m_pid p \<mapsto> q)\<rparr>)"
    and "evolves g (g\<lparr>map_pid_oldstate := (map_pid_oldstate g)(m_pid p \<mapsto> q)\<rparr>)"
  using assms by (auto simp: registry_ok_def evolves_def same_but_samples_refl)

lemma registry_update:
  assumes "registry_ok g" and "map_pid_oldstate g k = Some old" and "same_but_samples old new"
  shows "registry_ok (g\<lparr>map_pid_oldstate := (map_pid_oldstate g)(k \<mapsto> new)\<rparr>)"
    and "evolves g (g\<lparr>map_pid_oldstate := (map_pid_oldstate g)(k \<mapsto> new)\<rparr>)"
proof -
  obtain i t u where new: "new = old\<lparr>m_io := i, m_last_cpu_total_time := t, m_last_process_total_time := u\<rparr>"
    using assms(3) unfolding same_but_samples_def by blast
  have "m_pid new = m_pid old" "object_ok new = object_ok old"
    by (simp_all add: new object_ok_def)
  with assms show "registry_ok (g\<lparr>map_pid_oldstate := (map_pid_oldstate g)(k \<mapsto> new)\<rparr>)"
    "evolves g (g\<lparr>map_pid_oldstate := (map_pid_oldstate g)(k \<mapsto> new)\<rparr>)"
    by (auto simp: registry_ok_def evolves_def same_but_samples_refl)
qed

lemma updateIoUsage_keeps:
  assumes "keeps_ok get_bytes" and "\<And>u q. object_ok (put u q) = object_ok q"
  shows "usage_keeps (updateIoUsage get_bytes counter put)"
proof (rule usage_keepsI)
  fix g p g' p' r
  assume run: "updateIoUsage get_bytes counter put (g, p) = ((g', p'), r)"
    and ok: "object_ok p" "registry_ok g"
  obtain q x where get: "get_bytes p = (q, x)" by fastforce
  with assms(1) ok(1) have q: "object_ok q" by (auto simp: keeps_ok_def dest: spec [of _ p])
  show "object_ok p' \<and> registry_ok g' \<and> evolves g g'"
  proof (cases x)
    case (Inl e)
    with get run q ok(2) show ?thesis by (simp add: updateIoUsage_throws evolves_refl)
  next
    case (Inr bytes)
    note get = get [unfolded Inr]
    show ?thesis
    proof (cases "map_pid_oldstate g (m_pid q)")
      case None
      from run updateIoUsage_first [where get_bytes = get_bytes and p = p and q = q and
          bytes = bytes and g = g and counter = counter and put = put, OF get None] registry_insert [OF ok(2) q None refl q]
      show ?thesis by (auto simp: assms(2) q)
    next
      case (Some old)
      have "same_but_samples old (old\<lparr>m_io := m_io q\<rparr>)" by (simp add: same_but_samples_def)
      from run updateIoUsage_later [where get_bytes = get_bytes and p = p and q = q and
          bytes = bytes and g = g and counter = counter and put = put, OF get Some] registry_update [OF ok(2) Some this]
      show ?thesis by (auto simp: assms(2) q)
    qed
  qed
qed

lemma init_nb_core_keeps: "usage_keeps (init_nb_core B w)"
  by (rule usage_keepsI)
     (auto simp: init_nb_core_def evolves_def registry_ok_def same_but_samples_refl
       split: option.splits sum.splits)

lemma updateCPUUsage_keeps: "usage_keeps (updateCPUUsage raw B w)"
  unfolding updateCPUUsage_def
proof (intro usage_keeps_and_then init_nb_core_keeps usage_keeps_on_process)
  show "keeps_ok (utime w)" "keeps_ok (stime w)"
    by (simp_all add: utime_def stime_def getter_keeps)
next
  fix n ut st
  show "usage_keeps (\<lambda>(g, p). let cpu_total_time = cpuTotalTime raw w; process_total_time = ut + st
    in case map_pid_oldstate g (m_pid p) of
         None \<Rightarrow>
           let p' = p\<lparr>m_last_cpu_total_time := cpu_total_time,
                      m_last_process_total_time := process_total_time\<rparr>
           in ((g\<lparr>map_pid_oldstate := (map_pid_oldstate g)(m_pid p' \<mapsto> p')\<rparr>, p'\<lparr>m_cpu_usage := 0\<rparr>), Inr ())
       | Some oldstate \<Rightarrow>
           let delta_cpu_time = cpu_total_time - m_last_cpu_total_time oldstate;
               delta_process_time = process_total_time - m_last_process_total_time oldstate;
               cpu_usage = if delta_cpu_time \<noteq> 0
                 then cpu_percentage n delta_process_time delta_cpu_time else 0;
               oldstate' = oldstate\<lparr>m_last_cpu_total_time := cpu_total_time,
                                    m_last_process_total_time := process_total_time\<rparr>
           in ((g\<lparr>map_pid_oldstate := (map_pid_oldstate g)(m_pid p \<mapsto> oldstate')\<rparr>,
                p\<lparr>m_cpu_usage := cpu_usage\<rparr>), Inr ()))" (is "usage_keeps ?body")
  proof (rule usage_keepsI)
    fix g p g' p' r
    assume run: "?body (g, p) = ((g', p'), r)" and ok: "object_ok p" "registry_ok g"
    show "object_ok p' \<and> registry_ok g' \<and> evolves g g'"
    proof (cases "map_pid_oldstate g (m_pid p)")
      case None
      note grown = registry_insert [OF ok(2,1) None, of "p\<lparr>m_last_cpu_total_time := t,
          m_last_process_total_time := u\<rparr>" for t u]
      from run None ok(1) grown show ?thesis by (auto simp: Let_def)
    next
      case (Some old)
      note grown = registry_update [OF ok(2) Some, of "old\<lparr>m_last_cpu_total_time := t,
          m_last_process_total_time := u\<rparr>" for t u]
      from run Some ok(1) grown show ?thesis by (auto simp: Let_def same_but_samples_def)
    qed
  qed
qed

lemma usage_calls_keep:
  "usage_keeps (ioReadUsage B w)" "usage_keeps (ioWriteUsage B w)"
  "usage_keeps (ioTotalUsage b B w)" "usage_keeps (cpuUsage raw B w)"
proof -
  show r: "usage_keeps (ioReadUsage B w)"
    unfolding ioReadUsage_def updateIoReadUsage_def readBytes_def
    by (intro usage_keeps_getter updateIoUsage_keeps getter_keeps) simp_all
  show w: "usage_keeps (ioWriteUsage B w)"
    unfolding ioWriteUsage_def updateIoWriteUsage_def writeBytes_def
    by (intro usage_keeps_getter updateIoUsage_keeps getter_keeps) simp_all
  have add: "usage_keeps (returns v)" for v :: double
    by (rule usage_keeps_local) (simp_all add: returns_def)
  show "usage_keeps (ioTotalUsage b B w)"
    unfolding ioTotalUsage_def by (cases b) (simp_all add: usage_keeps_and_then r w add)
  show "usage_keeps (cpuUsage raw B w)"
    unfolding cpuUsage_def by (intro usage_keeps_getter updateCPUUsage_keeps) simp
qed

section \<open>Printing\<close>

definition display_keeps :: "(display_state, 'a) action \<Rightarrow> bool" where
  "display_keeps m \<longleftrightarrow> (\<forall>s. object_ok (fst s) \<longrightarrow> object_ok (fst (fst (m s))))"

lemma display_keeps_and_then:
  assumes "display_keeps m" and "\<And>v. display_keeps (k v)"
  shows "display_keeps (and_then m k)"
  unfolding display_keeps_def
proof (intro allI impI)
  fix s :: display_state
  assume "object_ok (fst s)"
  obtain t r where step: "m s = (t, r)" by fastforce
  with assms(1) \<open>object_ok (fst s)\<close> have "object_ok (fst t)"
    unfolding display_keeps_def by (metis fst_conv)
  with assms(2) step show "object_ok (fst (fst (and_then m k s)))"
    by (cases t) (auto simp: and_then_def display_keeps_def split: sum.splits)
qed

lemma display_keeps_emit: "display_keeps (emit s)" "display_keeps (\<lambda>(p, scr). emit (f p) (p, scr))"
  by (simp_all add: display_keeps_def emit_def modify_def split_beta)

lemma display_keeps_call: "keeps_ok m \<Longrightarrow> display_keeps (on_object m)"
  by (force simp: display_keeps_def on_object_def keeps_ok_def split: prod.splits)

lemma display_keeps_line: "keeps_ok call \<Longrightarrow> display_keeps (print_line ltr before call text_of after)"
  unfolding print_line_def
  by (cases ltr) (simp_all add: display_keeps_and_then display_keeps_emit display_keeps_call)

lemma display_keeps_all:
  assumes "\<forall>a \<in> set as. display_keeps a"
  shows "display_keeps (do_all as)"
  using assms
proof (induction as)
  case Nil
  then show ?case by (simp add: display_keeps_def)
next
  case (Cons a as)
  have "do_all (a # as) = and_then a (\<lambda>_. do_all as)"
    by (simp add: fun_eq_iff and_then_def)
  with Cons show ?case by (simp add: display_keeps_and_then)
qed

lemma print_process_keeps: "display_keeps (print_process MAJOR MINOR order ltr B w)"
  unfolding print_process_def
proof (rule display_keeps_all, unfold list.set, intro ballI, elim insertE emptyE; hypsubst)
  have "display_keeps (for_each (\<lambda>(fd, target). emit (''['' @ to_string fd @ '']'' @ '' => '' @ target
      @ [CHR 0x0A])) xs)" for xs
    unfolding display_keeps_def
    by (intro allI impI for_each_invariant [where I = "\<lambda>s. object_ok (fst s)"])
       (auto simp: emit_def modify_def split: prod.splits)
  moreover have "keeps_ok (fds w)"
    by (simp add: fds_def keeps_ok_getter readFd_keeps)
  ultimately show "display_keeps (print_fds order w)"
    unfolding print_fds_def by (intro display_keeps_and_then display_keeps_call)
  have cout: "display_keeps (modify (\<lambda>(p, scr). (p, scr\<lparr>cout_text := cout_text scr @ s\<rparr>)))" for s
    by (simp add: display_keeps_def modify_def split_beta)
  have "keeps_ok (userName B w)"
    by (simp add: userName_def keeps_ok_and_then keeps_ok_refresh keeps_ok_read readStatus_keeps)
  then show "display_keeps (print_user ltr B w)"
    unfolding print_user_def Let_def
    by (cases ltr) (simp_all add: display_keeps_and_then display_keeps_call cout)
qed (simp_all add: display_keeps_line display_keeps_emit call_defs getter_keeps keeps_ok_and_then
      keeps_ok_read keeps_ok_returns)

section \<open>Programs that use the library\<close>

text \<open>The objects by their addresses, and the static part.\<close>

record system =
  statics :: globals
  objects :: "nat \<rightharpoonup> process_info"

definition initial_system :: system where
  "initial_system = \<lparr>statics = initial_globals, objects = Map.empty\<rparr>"

definition usage_calls ::
  "boost \<Rightarrow> world \<Rightarrow> bool \<Rightarrow> c_ull \<times> c_ull \<times> c_ull \<Rightarrow> (usage_state \<Rightarrow> usage_state) list" where
  "usage_calls B w b raw = [\<lambda>s. fst (ioReadUsage B w s), \<lambda>s. fst (ioWriteUsage B w s),
     \<lambda>s. fst (ioTotalUsage b B w s), \<lambda>s. fst (cpuUsage raw B w s)]"

inductive library_step :: "boost \<Rightarrow> system \<Rightarrow> system \<Rightarrow> bool" for B where
  construct: "objects s i = None \<Longrightarrow>
    library_step B s (s\<lparr>objects := (objects s)(i \<mapsto> ProcessInfo raw n)\<rparr>)"
| construct_default: "objects s i = None \<Longrightarrow>
    library_step B s (s\<lparr>objects := (objects s)(i \<mapsto> ProcessInfo0 raw)\<rparr>)"
| copy: "objects s i = Some p \<Longrightarrow> objects s j = None \<Longrightarrow>
    library_step B s (s\<lparr>objects := (objects s)(j \<mapsto> p)\<rparr>)"
| destroy: "objects s i = Some p \<Longrightarrow>
    library_step B s (s\<lparr>objects := (objects s)(i := None)\<rparr>)"
| object_call: "objects s i = Some p \<Longrightarrow> f \<in> set (object_calls B raw_maps w) \<Longrightarrow>
    library_step B s (s\<lparr>objects := (objects s)(i \<mapsto> f p)\<rparr>)"
| usage_call: "objects s i = Some p \<Longrightarrow> f \<in> set (usage_calls B w b raw) \<Longrightarrow>
    f (statics s, p) = (g, q) \<Longrightarrow>
    library_step B s (s\<lparr>statics := g, objects := (objects s)(i \<mapsto> q)\<rparr>)"
| print_call: "objects s i = Some p \<Longrightarrow>
    print_process MAJOR MINOR order ltr B w (p, scr) = ((q, scr'), r) \<Longrightarrow>
    library_step B s (s\<lparr>objects := (objects s)(i \<mapsto> q)\<rparr>)"

inductive_cases library_stepE: "library_step B s t"

definition system_ok :: "system \<Rightarrow> bool" where
  "system_ok s \<longleftrightarrow> registry_ok (statics s) \<and> (\<forall>i p. objects s i = Some p \<longrightarrow> object_ok p)"

lemma usage_keeps_state:
  assumes "usage_keeps m" and "fst (m (g, p)) = (g', p')" and "object_ok p" and "registry_ok g"
  shows "object_ok p' \<and> registry_ok g' \<and> evolves g g'"
proof -
  have "m (g, p) = ((g', p'), snd (m (g, p)))" by (simp add: assms(2) [symmetric])
  from usage_keepsD [OF assms(1) this assms(3,4)] show ?thesis by simp
qed

lemma usage_call_ok:
  assumes "f \<in> set (usage_calls B w b raw)" and "f (g, p) = (g', p')" and "object_ok p" and "registry_ok g"
  shows "object_ok p' \<and> registry_ok g' \<and> evolves g g'"
proof -
  from assms(1) consider "f = (\<lambda>s. fst (ioReadUsage B w s))" | "f = (\<lambda>s. fst (ioWriteUsage B w s))"
    | "f = (\<lambda>s. fst (ioTotalUsage b B w s))" | "f = (\<lambda>s. fst (cpuUsage raw B w s))"
    unfolding usage_calls_def by auto
  then show ?thesis
    by cases (use assms(2) usage_keeps_state [OF usage_calls_keep(1) _ assms(3,4)]
        usage_keeps_state [OF usage_calls_keep(2) _ assms(3,4)] usage_keeps_state [OF usage_calls_keep(3) _ assms(3,4)]
        usage_keeps_state [OF usage_calls_keep(4) _ assms(3,4)] in simp_all)
qed

lemma library_step_ok:
  assumes "library_step B s t" and "system_ok s"
  shows "system_ok t \<and> evolves (statics s) (statics t)"
  using assms
proof (cases rule: library_step.cases)
  case (object_call i p f raw_maps w)
  with assms(2) object_calls_ok [of f B raw_maps w p] show ?thesis
    by (auto simp: system_ok_def evolves_refl)
next
  case (usage_call i p f w b raw g q)
  with assms(2) usage_call_ok [of f B w b raw "statics s" p g q] show ?thesis
    by (auto simp: system_ok_def)
next
  case (print_call i p MAJOR MINOR order ltr w scr q scr' r)
  with assms(2) have "object_ok p" by (simp add: system_ok_def)
  with print_call(3) print_process_keeps [of MAJOR MINOR order ltr B w] have "object_ok q"
    unfolding display_keeps_def by (metis fst_conv)
  with print_call(1) assms(2) show ?thesis by (auto simp: system_ok_def evolves_refl)
qed (use constructed_ok in \<open>auto simp: system_ok_def evolves_refl\<close>)

lemma reachable_ok:
  assumes "(library_step B)\<^sup>*\<^sup>* s t" and "system_ok s"
  shows "system_ok t \<and> evolves (statics s) (statics t)"
  using assms
proof (induction rule: rtranclp_induct)
  case base
  then show ?case by (simp add: evolves_refl)
next
  case (step t u)
  with library_step_ok [OF step(2)] evolves_trans show ?case by blast
qed

lemma initial_system_ok: "system_ok initial_system"
  by (simp add: system_ok_def initial_system_def registry_ok_def initial_globals_def)

section \<open>Properties\<close>

text \<open>
  C3. Whatever a program does with the library (any number of objects, constructed, copied,
  destroyed, read, sampled and printed in any order, on any files, with or without
  exceptions), every object is well-formed at all times: its path is that of a process, its
  name has no blank and no parenthesis, its arguments and environment entries are free of the
  separators, and every mapping has one of the six categories; every old state is well-formed
  too and stands under its own pid.
\<close>

theorem library_objects_ok:
  assumes "(library_step B)\<^sup>*\<^sup>* initial_system s"
  shows "(\<forall>i p. objects s i = Some p \<longrightarrow> object_ok p)
    \<and> (\<forall>k old. map_pid_oldstate (statics s) k = Some old \<longrightarrow> m_pid old = k \<and> object_ok old)"
  using reachable_ok [OF assms initial_system_ok] by (simp add: system_ok_def registry_ok_def)

lemma one_object:
  assumes "f \<in> set (object_calls B raw_maps w)"
  shows "(library_step B)\<^sup>*\<^sup>* initial_system
    \<lparr>statics = initial_globals, objects = [0 \<mapsto> f (ProcessInfo raw n)]\<rparr>"
proof -
  have "library_step B initial_system \<lparr>statics = initial_globals, objects = [0 \<mapsto> ProcessInfo raw n]\<rparr>"
    using construct [of initial_system 0 B raw n] by (simp add: initial_system_def)
  moreover have "library_step B \<lparr>statics = initial_globals, objects = [0 \<mapsto> ProcessInfo raw n]\<rparr>
      \<lparr>statics = initial_globals, objects = [0 \<mapsto> f (ProcessInfo raw n)]\<rparr>"
    using object_call [of "\<lparr>statics = initial_globals, objects = [0 \<mapsto> ProcessInfo raw n]\<rparr>" 0
        "ProcessInfo raw n" f B raw_maps w] assms by simp
  ultimately show ?thesis by (meson r_into_rtranclp rtranclp_trans)
qed

lemma library_objects_ok_witness:
  "\<forall>raw w. object_ok (effect (process_name w) (ProcessInfo raw 7))"
proof (intro allI)
  fix raw w
  have "effect (process_name w) \<in> set (object_calls reference_boost (\<lambda>_. undefined) w)"
    by (simp add: object_calls_def)
  from library_objects_ok [OF one_object [OF this, of raw 7]]
  show "object_ok (effect (process_name w) (ProcessInfo raw 7))" by simp
qed

text \<open>
  C13. The static part only grows: from any state of a program on, an old state is never removed
  and keeps everything but the counters and times of its last samples, also when every object
  of its process has been destroyed, and the number of cores is never looked up again.
\<close>

theorem library_statics_grow:
  assumes "(library_step B)\<^sup>*\<^sup>* initial_system s" and "(library_step B)\<^sup>*\<^sup>* s t"
  shows "(\<forall>k old. map_pid_oldstate (statics s) k = Some old \<longrightarrow>
        (\<exists>new. map_pid_oldstate (statics t) k = Some new
           \<and> new = old\<lparr>m_io := m_io new, m_last_cpu_total_time := m_last_cpu_total_time new,
               m_last_process_total_time := m_last_process_total_time new\<rparr>))
    \<and> (\<forall>n. nb_core (statics s) = Some n \<longrightarrow> nb_core (statics t) = Some n)"
proof -
  have "system_ok s" using reachable_ok [OF assms(1) initial_system_ok] by simp
  from reachable_ok [OF assms(2) this] show ?thesis
    unfolding evolves_def same_but_samples_def by (rule conjunct2)
qed

lemma first_rate_sample:
  "\<exists>q. fst (ioReadUsage reference_boost empty_world (initial_globals, ProcessInfo raw 7))
    = (initial_globals\<lparr>map_pid_oldstate := [7 \<mapsto> q]\<rparr>, q\<lparr>m_io_read_usage := 0, m_need_update_io_read_usage := False\<rparr>)"
proof -
  let ?p = "ProcessInfo raw 7"
  let ?q = "?p\<lparr>m_io := (m_io ?p)\<lparr>last_read := 0\<rparr>, m_need_update_io := False\<rparr>"
  have flags: "m_need_update_io_read_usage ?p" "m_need_update_io ?p"
    by (simp_all add: ProcessInfo_def Let_def)
  have "io_getter reference_boost empty_world (\<lambda>p. read_bytes (m_io p)) ?p = (?q, Inr (read_bytes (m_io ?q)))"
    using flags(2) by (simp add: io_getter_cases readIo_def run_simps ifstream_def empty_world_def)
  from updateIoUsage_first [where get_bytes = "io_getter reference_boost empty_world (\<lambda>p. read_bytes (m_io p))"
      and g = initial_globals and counter = read_bytes and put = "\<lambda>u p. p\<lparr>m_io_read_usage := u\<rparr>", OF this]
  have "updateIoReadUsage reference_boost empty_world (initial_globals, ?p)
      = ((initial_globals\<lparr>map_pid_oldstate := [7 \<mapsto> ?q]\<rparr>, ?q\<lparr>m_io_read_usage := 0\<rparr>), Inr ())"
    by (simp add: updateIoReadUsage_def readBytes_def initial_globals_def ProcessInfo_def needUpdate_def Let_def)
  with flags(1) show ?thesis
    by (intro exI [of _ ?q]) (simp add: ioReadUsage_def getter_cases)
qed

lemma library_statics_grow_witness:
  "\<forall>raw. \<exists>s t. (library_step reference_boost)\<^sup>*\<^sup>* initial_system s \<and> library_step reference_boost s t
    \<and> dom (objects s) = {0} \<and> dom (objects t) = {}
    \<and> map_pid_oldstate (statics s) 7 \<noteq> None \<and> map_pid_oldstate (statics t) 7 \<noteq> None"
proof
  fix raw
  obtain q where sample: "fst (ioReadUsage reference_boost empty_world (initial_globals, ProcessInfo raw 7))
    = (initial_globals\<lparr>map_pid_oldstate := [7 \<mapsto> q]\<rparr>, q\<lparr>m_io_read_usage := 0, m_need_update_io_read_usage := False\<rparr>)"
    using first_rate_sample [of raw] by blast
  define q' where "q' = q\<lparr>m_io_read_usage := 0, m_need_update_io_read_usage := False\<rparr>"
  define s where "s = \<lparr>statics = initial_globals\<lparr>map_pid_oldstate := [7 \<mapsto> q]\<rparr>, objects = [0 \<mapsto> q']\<rparr>"
  define t where "t = s\<lparr>objects := (objects s)(0 := None)\<rparr>"
  let ?c = "\<lparr>statics = initial_globals, objects = [0 \<mapsto> ProcessInfo raw 7]\<rparr>"
  have "library_step reference_boost initial_system ?c"
    using construct [of initial_system 0 reference_boost raw 7] by (simp add: initial_system_def)
  moreover have "library_step reference_boost ?c s"
    using usage_call [of ?c 0 "ProcessInfo raw 7" "\<lambda>s. fst (ioReadUsage reference_boost empty_world s)"
        reference_boost empty_world] sample
    by (simp add: usage_calls_def s_def q'_def)
  ultimately have run: "(library_step reference_boost)\<^sup>*\<^sup>* initial_system s"
    by (meson r_into_rtranclp rtranclp_trans)
  have last: "library_step reference_boost s t"
    unfolding t_def by (rule destroy [of s 0 q']) (simp add: s_def)
  have seen: "map_pid_oldstate (statics s) 7 = Some q" by (simp add: s_def)
  with library_statics_grow [OF run r_into_rtranclp, OF last]
  have "map_pid_oldstate (statics t) 7 \<noteq> None" by fastforce
  with run last seen show "\<exists>s t. (library_step reference_boost)\<^sup>*\<^sup>* initial_system s
      \<and> library_step reference_boost s t \<and> dom (objects s) = {0} \<and> dom (objects t) = {}
      \<and> map_pid_oldstate (statics s) 7 \<noteq> None \<and> map_pid_oldstate (statics t) 7 \<noteq> None"
    by (intro exI [of _ s] exI [of _ t]) (simp add: t_def s_def)
qed

end
