(* ===== verification/Listener.thy ===== *)
theory Listener
  imports Proc_Connector
begin

text \<open>
  The listening loops of \<open>procconnector.cpp\<close> beside each other: \<open>listen(false)\<close> starts a thread that
  runs the loop, \<open>listen(true)\<close> runs it on the thread of the owner until an exception ends it.
  The calls of the owner interleave with the turns of the loops, which are interrupted between
  \<open>recv\<close> and the callbacks.  Steps are atomic and in one order for all threads; callbacks return
  normally and do not call the object.
\<close>

section \<open>Threads\<close>

text \<open>
  A loop is in \<open>recv\<close>, or it has received an event and the callbacks left are those at and
  after its iterator.  A loop is that of the owner, inside \<open>listen(true)\<close>, or that of the i-th
  thread started.
\<close>

datatype 'e thread = At_recv | Notifying 'e "nat list"

datatype actor = Owner | Thread nat

text \<open>
  \<open>Terminated\<close>: \<open>std::terminate\<close> has been called.  \<open>Raced\<close>: a callback was added while some thread
  was iterating over the vector, which is undefined.
\<close>

datatype run_status = Running | Terminated | Raced

text \<open>
  What happened, in the order of the steps: a record of the run that no step looks at.
\<close>

datatype 'e entry = Added nat | Started | Received actor "'e received" | Called actor nat 'e

record 'e program =
  object :: "'e connector option"
  threads :: "'e thread list"
  owner :: "'e thread option"
  status :: run_status
  log :: "'e entry list"

definition iterating :: "'e thread \<Rightarrow> bool" where
  "iterating t \<longleftrightarrow> t \<noteq> At_recv"

fun loop_at :: "'e program \<Rightarrow> actor \<Rightarrow> 'e thread option" where
  "loop_at p Owner = owner p"
| "loop_at p (Thread i) = (if i < length (threads p) then Some (threads p ! i) else None)"

fun set_loop :: "actor \<Rightarrow> 'e thread \<Rightarrow> 'e program \<Rightarrow> 'e program" where
  "set_loop Owner t p = p\<lparr>owner := Some t\<rparr>"
| "set_loop (Thread i) t p = p\<lparr>threads := (threads p)[i := t]\<rparr>"

text \<open>
  The exception of a turn: nothing catches it on a thread; on the owner's side it leaves
  \<open>listen(true)\<close> and the owner goes on.
\<close>

fun end_loop :: "actor \<Rightarrow> 'e program \<Rightarrow> 'e program" where
  "end_loop Owner p = p\<lparr>owner := None\<rparr>"
| "end_loop (Thread i) p = p\<lparr>status := Terminated\<rparr>"

text \<open>What the owner does when it is not inside \<open>listen(true)\<close>, and one step of a loop.\<close>

inductive background :: "kernel \<Rightarrow> 'e program \<Rightarrow> 'e program \<Rightarrow> bool" for K where
  own_add: "object p = Some s \<Longrightarrow> status p = Running \<Longrightarrow> owner p = None \<Longrightarrow>
    \<not> list_ex iterating (threads p) \<Longrightarrow>
    background K p (p\<lparr>object := Some (addCallback cb s), log := log p @ [Added cb]\<rparr>)"
| own_add_race: "object p = Some s \<Longrightarrow> status p = Running \<Longrightarrow> owner p = None \<Longrightarrow>
    list_ex iterating (threads p) \<Longrightarrow> background K p (p\<lparr>status := Raced\<rparr>)"
| own_listen: "object p = Some s \<Longrightarrow> status p = Running \<Longrightarrow> owner p = None \<Longrightarrow>
    listen K rs False s = Some (s', r) \<Longrightarrow>
    background K p (p\<lparr>object := Some s', threads := threads p @ [At_recv], log := log p @ [Started]\<rparr>)"
| own_block: "object p = Some s \<Longrightarrow> status p = Running \<Longrightarrow> owner p = None \<Longrightarrow>
    background K p (p\<lparr>owner := Some At_recv\<rparr>)"
| own_destroy: "object p = Some s \<Longrightarrow> status p = Running \<Longrightarrow> owner p = None \<Longrightarrow>
    background K p (p\<lparr>object := None,
      status := (if last (trace (destroy K s)) = (Terminate, Ok 0) then Terminated else Running)\<rparr>)"
| receive_event: "object p = Some s \<Longrightarrow> status p = Running \<Longrightarrow> loop_at p a = Some At_recv \<Longrightarrow>
    background K p ((set_loop a (Notifying ev (m_subscribers s)) p)
      \<lparr>object := Some (s\<lparr>trace := trace s @ [(Recv (m_nl_sock s), Ok 0)]\<rparr>),
       log := log p @ [Received a (Event ev)]\<rparr>)"
| receive_error: "object p = Some s \<Longrightarrow> status p = Running \<Longrightarrow> loop_at p a = Some At_recv \<Longrightarrow>
    processEvent K (Recv_error e) s = (s', r) \<Longrightarrow>
    background K p ((case r of Inl x \<Rightarrow> end_loop a p | Inr _ \<Rightarrow> p)
      \<lparr>object := Some s', log := log p @ [Received a (Recv_error e)]\<rparr>)"
| notify: "object p = Some s \<Longrightarrow> status p = Running \<Longrightarrow> loop_at p a = Some (Notifying ev (cb # cbs)) \<Longrightarrow>
    background K p ((set_loop a (Notifying ev cbs) p)
      \<lparr>object := Some (s\<lparr>trace := trace s @ [(Notify cb ev, Ok 0)]\<rparr>),
       log := log p @ [Called a cb ev]\<rparr>)"
| next_turn: "object p = Some s \<Longrightarrow> status p = Running \<Longrightarrow> loop_at p a = Some (Notifying ev []) \<Longrightarrow>
    background K p (set_loop a At_recv p)"

inductive_cases backgroundE: "background K p q"

definition started_with :: "'e connector \<Rightarrow> 'e program" where
  "started_with s = \<lparr>object = Some s, threads = [], owner = None, status = Running, log = []\<rparr>"

section \<open>Loops\<close>

lemma loop_at_frame [simp]:
  "loop_at (p\<lparr>object := x\<rparr>) a = loop_at p a" "loop_at (p\<lparr>status := y\<rparr>) a = loop_at p a"
  "loop_at (p\<lparr>log := z\<rparr>) a = loop_at p a"
  by (cases a; simp)+

lemma set_loop_frame [simp]:
  "object (set_loop a t p) = object p" "status (set_loop a t p) = status p" "log (set_loop a t p) = log p"
  "length (threads (set_loop a t p)) = length (threads p)"
  by (cases a; simp)+

lemma loop_at_set_loop:
  "loop_at p a \<noteq> None \<Longrightarrow> loop_at (set_loop a t p) b = (if b = a then Some t else loop_at p b)"
  by (cases a; cases b) (auto split: if_splits)

lemma set_loop_same: "loop_at p a = Some t \<Longrightarrow> set_loop a t p = p"
  by (cases a) (auto split: if_splits intro: program.equality)

lemma set_loop_twice: "set_loop a t (set_loop a u p) = set_loop a t p"
  by (cases a) simp_all

lemma set_loop_upd:
  "set_loop a t (p\<lparr>object := x, log := z\<rparr>) = (set_loop a t p)\<lparr>object := x, log := z\<rparr>"
  by (cases a) simp_all

lemma end_loop_frame [simp]:
  "object (end_loop a p) = object p" "log (end_loop a p) = log p" "threads (end_loop a p) = threads p"
  by (cases a; simp)+

text \<open>A turn that nothing interrupts is the turn of the loop in \<open>listenBlock\<close>.\<close>

lemma notify_run:
  assumes "object p = Some s" and "status p = Running" and "loop_at p a = Some (Notifying ev cbs)"
  shows "(background K)\<^sup>*\<^sup>* p ((set_loop a At_recv p)\<lparr>object := Some (s\<lparr>trace := trace s
      @ map (\<lambda>cb. (Notify cb ev, Ok 0)) cbs\<rparr>), log := log p @ map (\<lambda>cb. Called a cb ev) cbs\<rparr>)"
  using assms
proof (induction cbs arbitrary: p s)
  case Nil
  have "(set_loop a At_recv p)\<lparr>object := Some (s\<lparr>trace := trace s @ []\<rparr>), log := log p @ []\<rparr>
      = set_loop a At_recv p"
    using Nil by (intro program.equality) simp_all
  then show ?case using next_turn [OF Nil] by (simp add: r_into_rtranclp)
next
  case (Cons cb cbs)
  let ?s = "s\<lparr>trace := trace s @ [(Notify cb ev, Ok 0)]\<rparr>"
  let ?p = "(set_loop a (Notifying ev cbs) p)\<lparr>object := Some ?s, log := log p @ [Called a cb ev]\<rparr>"
  have "background K p ?p" by (rule notify [OF Cons.prems])
  moreover have "(background K)\<^sup>*\<^sup>* ?p ((set_loop a At_recv ?p)\<lparr>object := Some (?s\<lparr>trace := trace ?s
      @ map (\<lambda>cb. (Notify cb ev, Ok 0)) cbs\<rparr>), log := log ?p @ map (\<lambda>cb. Called a cb ev) cbs\<rparr>)"
    using Cons.prems by (intro Cons.IH) (simp_all add: loop_at_set_loop)
  ultimately show ?case
    by (simp add: converse_rtranclp_into_rtranclp set_loop_upd set_loop_twice)
qed

lemma turn_is_processEvent:
  assumes "object p = Some s" and "status p = Running" and "loop_at p a = Some At_recv" and "\<not> fatal r"
  shows "\<exists>lg. (background K)\<^sup>*\<^sup>* p (p\<lparr>object := Some (fst (processEvent K r s)), log := log p @ lg\<rparr>)"
proof (cases r)
  case (Recv_error e)
  with assms(4) show ?thesis
    using receive_error [OF assms(1-3), where e = e and K = K] by (auto simp: processEvent_run)
next
  case (Event ev)
  let ?s = "s\<lparr>trace := trace s @ [(Recv (m_nl_sock s), Ok 0)]\<rparr>"
  let ?p = "(set_loop a (Notifying ev (m_subscribers s)) p)
    \<lparr>object := Some ?s, log := log p @ [Received a (Event ev)]\<rparr>"
  have "background K p ?p" by (rule receive_event [OF assms(1-3)])
  moreover have "(background K)\<^sup>*\<^sup>* ?p ((set_loop a At_recv ?p)\<lparr>object := Some (?s\<lparr>trace := trace ?s
      @ map (\<lambda>cb. (Notify cb ev, Ok 0)) (m_subscribers s)\<rparr>),
      log := log ?p @ map (\<lambda>cb. Called a cb ev) (m_subscribers s)\<rparr>)"
    using assms by (intro notify_run) (simp_all add: loop_at_set_loop)
  ultimately have "(background K)\<^sup>*\<^sup>* p (p\<lparr>object := Some (fst (processEvent K r s)), log := log p
      @ Received a (Event ev) # map (\<lambda>cb. Called a cb ev) (m_subscribers s)\<rparr>)"
    using Event by (simp add: processEvent_run converse_rtranclp_into_rtranclp set_loop_upd
        set_loop_twice set_loop_same [OF assms(3)])
  then show ?thesis by blast
qed

text \<open>
  A blocking \<open>listen\<close> that nothing interrupts ends as the function \<open>listenBlock\<close> does.
\<close>

lemma block_run:
  assumes "\<forall>i < k. \<not> fatal (rs (n + i))" and "rs (n + k) = Recv_error e" and "e \<noteq> EINTR"
    and "object p = Some s" and "status p = Running" and "owner p = Some At_recv"
  shows "\<exists>s' lg. listenBlock K rs n s = Some (s', String_exn (strerror K e))
    \<and> (background K)\<^sup>*\<^sup>* p (p\<lparr>owner := None, object := Some s', log := log p @ lg\<rparr>)"
  using assms
proof (induction k arbitrary: n p s)
  case 0
  have at: "loop_at p Owner = Some At_recv" using 0 by simp
  let ?s = "fst (processEvent K (Recv_error e) s)"
  have "background K p (p\<lparr>owner := None, object := Some ?s,
      log := log p @ [Received Owner (Recv_error e)]\<rparr>)"
    using receive_error [OF 0(4,5) at, of K e] 0(3) by (simp add: processEvent_run)
  moreover have "listenBlock K rs n s = Some (?s, String_exn (strerror K e))"
    using listenBlock_stop [of rs n e K s] 0(2,3) by simp
  ultimately show ?case by blast
next
  case (Suc k)
  let ?s = "fst (processEvent K (rs n) s)"
  have ok: "\<not> fatal (rs n)" using Suc.prems(1) by force
  have at: "loop_at p Owner = Some At_recv" using Suc.prems by simp
  obtain lg where turn: "(background K)\<^sup>*\<^sup>* p (p\<lparr>object := Some ?s, log := log p @ lg\<rparr>)"
    using turn_is_processEvent [OF Suc.prems(4,5) at ok] by blast
  have "\<forall>i < k. \<not> fatal (rs (Suc n + i))" "rs (Suc n + k) = Recv_error e"
    using Suc.prems(1,2) by force+
  from Suc.IH [OF this Suc.prems(3), of "p\<lparr>object := Some ?s, log := log p @ lg\<rparr>" ?s]
  obtain s' lg' where "listenBlock K rs (Suc n) ?s = Some (s', String_exn (strerror K e))"
    "(background K)\<^sup>*\<^sup>* (p\<lparr>object := Some ?s, log := log p @ lg\<rparr>)
       (p\<lparr>owner := None, object := Some s', log := log p @ lg @ lg'\<rparr>)"
    using Suc.prems(4-6) by auto
  moreover from this(2) have "(background K)\<^sup>*\<^sup>* p (p\<lparr>owner := None, object := Some s', log := log p @ lg @ lg'\<rparr>)"
    by (rule rtranclp_trans [OF turn])
  ultimately show ?case
    unfolding listenBlock_continue [of rs n K s, OF ok] by blast
qed

section \<open>No thread outlives the object\<close>

definition handles_ok :: "'e program \<Rightarrow> bool" where
  "handles_ok p \<longleftrightarrow>
     (case object p of
        Some s \<Rightarrow> m_thread_listen s \<longleftrightarrow> threads p \<noteq> []
      | None \<Rightarrow> threads p = [] \<and> status p = Running \<or> threads p \<noteq> [] \<and> status p = Terminated)"

lemma destroy_last:
  "last (trace (destroy K s)) = (Terminate, Ok 0) \<longleftrightarrow> m_thread_listen s"
  by (auto simp: destroy_def syscall_def Let_def split: answer.splits)

lemma set_loop_threads [simp]: "threads (set_loop a t p) = [] \<longleftrightarrow> threads p = []"
  by (cases a) simp_all

lemma background_handles: "background K p q \<Longrightarrow> handles_ok p \<Longrightarrow> handles_ok q"
proof (induction rule: background.induct)
  case (own_destroy p s)
  then show ?case by (simp add: handles_ok_def destroy_last)
next
  case (receive_error p s a e s' r)
  then have "m_thread_listen s' = m_thread_listen s" by (auto simp: processEvent_run)
  with receive_error show ?case by (simp add: handles_ok_def split: sum.splits)
qed (auto simp: handles_ok_def addCallback_def listen_def)

lemma reachable_handles:
  assumes "(background K)\<^sup>*\<^sup>* p q" and "handles_ok p"
  shows "handles_ok q"
  using assms by (induction rule: rtranclp_induct) (simp_all add: background_handles)

lemma constructed_handles:
  "ProcConnector K raw = (s, Inr ()) \<Longrightarrow> \<not> m_thread_listen s \<and> m_subscribers s = []"
  by (auto simp: connector_run split: answer.splits if_splits)

section \<open>What the loops deliver\<close>

text \<open>The calls of an entry, the subscribers an entry has added, and the callbacks made by a loop.\<close>

fun entry_calls :: "c_int \<Rightarrow> 'e entry \<Rightarrow> ('e call \<times> answer) list" where
  "entry_calls fd (Added cb) = []"
| "entry_calls fd Started = [(Start_thread, Ok 0)]"
| "entry_calls fd (Received a (Event ev)) = [(Recv fd, Ok 0)]"
| "entry_calls fd (Received a (Recv_error e)) = [(Recv fd, Fail e)]"
| "entry_calls fd (Called a cb ev) = [(Notify cb ev, Ok 0)]"

fun added :: "'e entry list \<Rightarrow> nat list" where
  "added [] = []"
| "added (Added cb # l) = cb # added l"
| "added (_ # l) = added l"

fun made :: "actor \<Rightarrow> 'e entry list \<Rightarrow> (nat \<times> 'e) list" where
  "made a [] = []"
| "made a (Called b cb ev # l) = (if b = a then [(cb, ev)] else []) @ made a l"
| "made a (_ # l) = made a l"

text \<open>
  The callbacks a loop owes: each event it received, for every subscriber of the moment it was
  received, in the order of the subscriptions.
\<close>

fun owed :: "actor \<Rightarrow> nat list \<Rightarrow> 'e entry list \<Rightarrow> (nat \<times> 'e) list" where
  "owed a subscribers [] = []"
| "owed a subscribers (Added cb # l) = owed a (subscribers @ [cb]) l"
| "owed a subscribers (Received b (Event ev) # l) =
     (if b = a then map (\<lambda>cb. (cb, ev)) subscribers else []) @ owed a subscribers l"
| "owed a subscribers (_ # l) = owed a subscribers l"

text \<open>What is left of the event a loop is at.\<close>

fun pending :: "'e thread option \<Rightarrow> (nat \<times> 'e) list" where
  "pending (Some (Notifying ev cbs)) = map (\<lambda>cb. (cb, ev)) cbs"
| "pending _ = []"

lemma added_append [simp]: "added (l @ m) = added l @ added m"
  by (induction l rule: added.induct) simp_all

lemma made_append [simp]: "made a (l @ m) = made a l @ made a m"
  by (induction a l rule: made.induct) simp_all

lemma owed_append: "owed a subs (l @ m) = owed a subs l @ owed a (subs @ added l) m"
  by (induction a subs l rule: owed.induct) simp_all

lemma pending_owner:
  "pending (owner p) = [] \<Longrightarrow> pending x = [] \<Longrightarrow> pending (loop_at (p\<lparr>owner := x\<rparr>) a) = pending (loop_at p a)"
  by (cases a) simp_all

definition deliveries_ok :: "'e connector \<Rightarrow> 'e program \<Rightarrow> bool" where
  "deliveries_ok s0 p \<longleftrightarrow> (\<forall>s. object p = Some s \<longrightarrow> status p = Running \<longrightarrow>
     m_nl_sock s = m_nl_sock s0 \<and> m_subscribers s = added (log p)
   \<and> trace s = trace s0 @ concat (map (entry_calls (m_nl_sock s0)) (log p))
   \<and> length (filter (\<lambda>x. x = Started) (log p)) = length (threads p)
   \<and> (\<forall>a. owed a [] (log p) = made a (log p) @ pending (loop_at p a))
   \<and> (\<forall>i e. Received (Thread i) (Recv_error e) \<in> set (log p) \<longrightarrow> e = EINTR))"

lemma background_deliveries:
  assumes "background K p q" and "deliveries_ok s0 p"
  shows "deliveries_ok s0 q"
  using assms
proof (induction rule: background.induct)
  case (own_add p s cb)
  then show ?case
    by (simp add: deliveries_ok_def addCallback_def owed_append)
next
  case (own_listen p s rs s' r)
  have "pending (loop_at (p\<lparr>object := x, threads := threads p @ [At_recv]\<rparr>) a) = pending (loop_at p a)" for a x
    by (cases a) (auto simp: nth_append)
  with own_listen show ?case
    by (auto simp: deliveries_ok_def owed_append listen_def)
next
  case (own_block p s)
  then show ?case by (simp add: deliveries_ok_def pending_owner)
next
  case (receive_event p s a ev)
  then show ?case
    by (auto simp: deliveries_ok_def owed_append loop_at_set_loop)
next
  case (receive_error p s a e s' r)
  show ?case
  proof (cases "e = EINTR")
    case True
    with receive_error show ?thesis
      by (auto simp: deliveries_ok_def owed_append processEvent_run)
  next
    case False
    with receive_error show ?thesis
      by (cases a) (auto simp: deliveries_ok_def owed_append processEvent_run pending_owner)
  qed
next
  case (notify p s a ev cb cbs)
  then show ?case
    by (auto simp: deliveries_ok_def owed_append loop_at_set_loop)
next
  case (next_turn p s a ev)
  then show ?case
    by (auto simp: deliveries_ok_def loop_at_set_loop)
qed (simp_all add: deliveries_ok_def)

lemma reachable_deliveries:
  assumes "(background K)\<^sup>*\<^sup>* p q" and "deliveries_ok s0 p"
  shows "deliveries_ok s0 q"
  using assms by (induction rule: rtranclp_induct) (simp_all add: background_deliveries)

section \<open>Properties\<close>

text \<open>
  C26. No thread uses an object that is gone: in every interleaving of the owner's calls with any
  number of listening threads, the program has been terminated when the object is destroyed
  after a thread was started, and can go on after the destruction only when none was.
\<close>

theorem no_thread_outlives_object:
  assumes "ProcConnector K raw = (s0, Inr ())" and "(background K)\<^sup>*\<^sup>* (started_with s0) p"
  shows "object p = None \<longrightarrow> (if threads p = [] then status p = Running else status p = Terminated)"
proof -
  have "handles_ok (started_with s0)"
    using constructed_handles [OF assms(1)] by (simp add: handles_ok_def started_with_def)
  from reachable_handles [OF assms(2) this] show ?thesis by (auto simp: handles_ok_def)
qed

definition example_object :: "nat connector" where
  "example_object = fst (ProcConnector example_kernel example_connector)"

lemma example_constructed: "ProcConnector example_kernel example_connector = (example_object, Inr ())"
  by (simp add: example_object_def connector_run example_kernel_def example_connector_def)

definition listening :: "nat connector" where
  "listening = (addCallback 5 example_object)\<lparr>m_thread_listen := True,
     trace := trace example_object @ [(Start_thread, Ok 0)]\<rparr>"

text \<open>A run in which a callback is added and a thread is started.\<close>

definition example_program :: "nat program" where
  "example_program = \<lparr>object = Some listening, threads = [At_recv], owner = None, status = Running,
     log = [Added 5, Started]\<rparr>"

lemma example_listening:
  "(background example_kernel)\<^sup>*\<^sup>* (started_with example_object) example_program"
proof -
  let ?p = "\<lparr>object = Some (addCallback 5 example_object), threads = [], owner = None,
     status = Running, log = [Added 5]\<rparr>"
  have "background example_kernel (started_with example_object) ?p"
    using own_add [of "started_with example_object" example_object example_kernel 5]
    by (simp add: started_with_def)
  moreover have "background example_kernel ?p example_program"
    using own_listen [of ?p "addCallback 5 example_object" example_kernel undefined listening "Inr ()"]
    by (simp add: listen_def listening_def addCallback_def example_program_def)
  ultimately show ?thesis by (meson r_into_rtranclp rtranclp_trans)
qed

theorem no_thread_outlives_object_witness:
  "\<exists>p. (background example_kernel)\<^sup>*\<^sup>* (started_with example_object) p \<and> object p = None
    \<and> threads p = [At_recv] \<and> status p = Terminated"
proof -
  obtain st where "background example_kernel example_program (example_program\<lparr>object := None, status := st\<rparr>)"
    using own_destroy [of example_program listening example_kernel] by (auto simp: example_program_def)
  with example_listening have run: "(background example_kernel)\<^sup>*\<^sup>* (started_with example_object)
      (example_program\<lparr>object := None, status := st\<rparr>)" by (rule rtranclp.rtrancl_into_rtrancl)
  from no_thread_outlives_object [OF example_constructed run] have "st = Terminated"
    by (simp add: example_program_def)
  with run show ?thesis
    by (intro exI [of _ "example_program\<lparr>object := None, status := st\<rparr>"]) (simp add: example_program_def)
qed

text \<open>
  C9. In every interleaving of the owner's calls, blocking listening among them, with any number of
  listening threads, as long as the program runs and no callback is added during a dispatch:
  the system calls and callbacks of the object are exactly those of the entries of the record,
  in their order; the subscribers are the callbacks added; and each loop has called, once and in
  order, exactly the subscribers of the moment for every event it received, except for those
  that it is still to call for its present event.  The errors its threads received were
  interruptions, and there is one thread for each call of \<open>listen(false)\<close>.
\<close>

theorem background_delivers:
  assumes "ProcConnector K raw = (s0, Inr ())" and "(background K)\<^sup>*\<^sup>* (started_with s0) p"
    and "object p = Some s" and "status p = Running"
  shows "trace s = trace s0 @ concat (map (entry_calls (m_nl_sock s)) (log p))
    \<and> m_subscribers s = added (log p)
    \<and> (\<forall>loop. owed loop [] (log p) = made loop (log p) @
        (case loop_at p loop of Some (Notifying ev cbs) \<Rightarrow> map (\<lambda>cb. (cb, ev)) cbs | _ \<Rightarrow> []))
    \<and> (\<forall>i e. Received (Thread i) (Recv_error e) \<in> set (log p) \<longrightarrow> e = EINTR)
    \<and> length (filter (\<lambda>x. x = Started) (log p)) = length (threads p)"
proof -
  have "pending (loop_at (started_with s0) a) = []" for a
    by (cases a) (simp_all add: started_with_def)
  then have "deliveries_ok s0 (started_with s0)"
    using constructed_handles [OF assms(1)] by (simp add: deliveries_ok_def started_with_def)
  from reachable_deliveries [OF assms(2) this] have "m_nl_sock s = m_nl_sock s0"
    "m_subscribers s = added (log p)"
    "trace s = trace s0 @ concat (map (entry_calls (m_nl_sock s0)) (log p))"
    "length (filter (\<lambda>x. x = Started) (log p)) = length (threads p)"
    "\<forall>a. owed a [] (log p) = made a (log p) @ pending (loop_at p a)"
    "\<forall>i e. Received (Thread i) (Recv_error e) \<in> set (log p) \<longrightarrow> e = EINTR"
    using assms(3,4) unfolding deliveries_ok_def by blast+
  moreover have "pending x = (case x of Some (Notifying ev cbs) \<Rightarrow> map (\<lambda>cb. (cb, ev)) cbs | _ \<Rightarrow> [])"
    for x :: "'a thread option"
    by (cases x rule: pending.cases) simp_all
  ultimately show ?thesis by simp
qed

text \<open>
  The thread has received event 9 and has still to call the subscriber; the owner, which listens
  as well, has received event 8 and called it.
\<close>

theorem background_delivers_witness:
  "\<exists>p s. (background example_kernel)\<^sup>*\<^sup>* (started_with example_object) p \<and> object p = Some s
    \<and> threads p = [Notifying 9 [5]] \<and> owner p = Some (Notifying 8 []) \<and> m_subscribers s = [5]
    \<and> owed Owner [] (log p) = made Owner (log p) \<and> owed (Thread 0) [] (log p) = [(5, 9)]
    \<and> made (Thread 0) (log p) = []"
proof -
  let ?B = "background example_kernel"
  have socket: "m_nl_sock listening = 3" "m_subscribers listening = [5]"
    by (simp_all add: listening_def addCallback_def example_object_def connector_run example_kernel_def
        example_connector_def)
  let ?p = "example_program\<lparr>owner := Some At_recv\<rparr>"
  let ?s = "listening\<lparr>trace := trace listening @ [(Recv 3, Ok 0)]\<rparr>"
  let ?q = "?p\<lparr>object := Some ?s, threads := [Notifying 9 [5]],
    log := [Added 5, Started, Received (Thread 0) (Event 9)]\<rparr>"
  let ?t = "?s\<lparr>trace := trace ?s @ [(Recv 3, Ok 0)]\<rparr>"
  let ?r = "?q\<lparr>object := Some ?t, owner := Some (Notifying 8 [5]), log := log ?q @ [Received Owner (Event 8)]\<rparr>"
  let ?u = "?t\<lparr>trace := trace ?t @ [(Notify 5 8, Ok 0)]\<rparr>"
  let ?v = "?r\<lparr>object := Some ?u, owner := Some (Notifying 8 []), log := log ?r @ [Called Owner 5 8]\<rparr>"
  have "?B example_program ?p"
    using own_block [of example_program listening] by (simp add: example_program_def)
  moreover have "?B ?p ?q"
    using receive_event [of ?p listening "Thread 0" example_kernel 9] socket by (simp add: example_program_def)
  moreover have "?B ?q ?r"
    using receive_event [of ?q ?s Owner example_kernel 8] socket by (simp add: example_program_def)
  moreover have "?B ?r ?v"
    using notify [of ?r ?t Owner 8 5 "[]" example_kernel] by (simp add: example_program_def)
  ultimately have run: "?B\<^sup>*\<^sup>* (started_with example_object) ?v"
    using example_listening by (meson rtranclp.rtrancl_into_rtrancl)
  have "object ?v = Some ?u" "status ?v = Running" by (simp_all add: example_program_def)
  note facts = background_delivers [OF example_constructed run this]
  then have "\<forall>loop. owed loop [] (log ?v) = made loop (log ?v) @
        (case loop_at ?v loop of Some (Notifying ev cbs) \<Rightarrow> map (\<lambda>cb. (cb, ev)) cbs | _ \<Rightarrow> [])" by blast
  then have "owed Owner [] (log ?v) = made Owner (log ?v)" by (auto dest: spec [of _ Owner])
  with run socket show ?thesis
    by (intro exI [of _ ?v] exI [of _ ?u]) (simp add: example_program_def)
qed

end
