(* ===== verification/Spec2Isabelle.thy ===== *)
theory Spec2Isabelle
  imports Prelude Sampling Process_Maps Process_Private Sockets Proc_List Proc_Connector Display
    Stat_Cache Lifetime Listener
begin

text \<open>
  A model of libsysinfo, a C++ library that reads the state of a Linux system from \<open>/proc\<close>: the
  processes with their members and usage rates, the memory mappings of a process, the
  processors, the sockets, and the stream of process events of the kernel.

  \<^bold>\<open>How the program is built.\<close>  \<open>ProcessInfo\<close> (\<open>processinfo.h\<close>, \<open>processinfo.cpp\<close>) is an object
  with about 110 members in groups, one group per file of \<open>/proc/<pid>\<close>.  Every group has a flag;
  a getter reads its file when the flag is set, clears the flag and returns the member.
  \<open>needUpdate\<close> sets all flags.  Three getters compute a rate between two samples; the earlier
  sample is a copy of the object in a static map under the pid.  \<open>MMap\<close> (\<open>mmap.cpp\<close>) is one mapping
  of \<open>/proc/<pid>/smaps\<close>.  \<open>sysinfo.cpp\<close> lists the processors, the processes and the sockets.
  \<open>ProcConnector\<close> (\<open>procconnector.cpp\<close>) subscribes to the process events of the kernel and hands
  each event to its subscribers.

  \<^bold>\<open>How it is modelled.\<close>  A member function is an action: a function from the object to the object
  it leaves behind and either a value or the fault it ends with (\<open>Prelude\<close>), so that what was
  assigned before an exception stays assigned.  Members that no constructor assigns are what
  the memory held, an argument \<open>raw\<close>.  The C integers are words of their width, with
  \<open>std::stoi\<close>, \<open>std::stol\<close> and the stream extractions written out on strings (\<open>Numbers\<close>,
  \<open>Streams\<close>).  A regular expression is an abstract pattern whose matches are an inductive
  relation (\<open>Regex\<close>).  The files, directories, links, users and clocks are a record \<open>world\<close> that
  every call gets anew, so anything may change between two calls (\<open>World\<close>).  A \<open>double\<close> is a
  rational rounded to 53 bits and a \<open>float\<close> one rounded to 24 (\<open>Doubles\<close>); overflow and subnormal numbers cannot occur in the
  quotients that are computed.

  \<^bold>\<open>The parameters.\<close>  The Boost functions are a record of three functions.  The locales
  \<open>regex_engine\<close>, \<open>perl_engine\<close>, \<open>trimming\<close> and \<open>splitting\<close> say what is relied on (a match exists
  exactly when the pattern fits, the leftmost alternatives and longest repetitions are tried
  first, blanks are removed at both ends, the text is cut at every separator), and
  \<open>reference_boost\<close> interprets them.  \<open>map_iteration\<close> says that iterating over a map visits each
  entry once.  \<open>lazy_group\<close> and \<open>lazy_reader\<close> are the contract of a group of getters, interpreted
  on every group.  \<open>simulation\<close> is the contract of a refinement of request sequences.

  \<^bold>\<open>The theories.\<close>
  \<^item> \<open>Process_Info\<close>: the members, the constructors, \<open>needUpdate\<close>, the shape of a getter.
  \<^item> \<open>Process_Stat\<close>: \<open>readStat\<close>, its getters, the terminal search, the start time, the policy;
    \<open>readStat_line\<close> is the round trip with the line the kernel prints, \<open>ttyNr_device\<close> says which
    terminal is found.
  \<^item> \<open>Stat_Cache\<close>: the getters of that group refine a cache of one snapshot.
  \<^item> \<open>Process_Status\<close>: \<open>readStatus\<close>, ids, memory figures, user name.
  \<^item> \<open>Process_Files\<close>: \<open>cmdline\<close>, \<open>environ\<close>, \<open>wchan\<close>, \<open>fd\<close>, the links.
  \<^item> \<open>Process_Io\<close>: \<open>readIo\<close> with its time stamp.  \<open>Usage\<close>, \<open>Sampling\<close>: the three computed values, one
    sample at a time and in sequences.  A monitor holds at most one object per pid at a time; its
    invariant is that no old state is younger than counters the object of its pid has kept, from
    which rates are never negative; with two objects of one pid they can be.
  \<^item> \<open>MMap\<close>, \<open>Process_Maps\<close>: one mapping and the cutting of the file into mappings.
  \<^item> \<open>Process_Private\<close>: the readers of control groups, limits and the kernel stack.
  \<^item> \<open>Cpu_Info\<close>, \<open>Proc_List\<close>, \<open>Sockets\<close>: the functions of \<open>sysinfo.cpp\<close>, the tables of sockets on
    the lines that the kernel prints with their widths and headers.
  \<^item> \<open>Proc_Connector\<close>: the object with a trace of its system calls; \<open>listenBlock\<close> is a partial
    function, because it ends only when \<open>recv\<close> fails.
  \<^item> \<open>Listener\<close>: any number of listening threads beside the owner of the object, which may itself
    listen and then does nothing else until an exception ends its loop, as interleavings of steps;
    the invariants say what each loop has delivered and that no thread outlives the object.
  \<^item> \<open>Display\<close>: the output operator.
  \<^item> \<open>Lifetime\<close>: programs that construct, copy, destroy, read, sample and print any number of
    objects; the invariant of the objects and of the static part by rule induction.
  This theory composes the process list with the getters.

  \<^bold>\<open>Termination and bounds.\<close>  All readers are total functions: their loops run over the lines of
  the file, which \<open>getlines\<close> computes with a measure on the rest of the stream.  No fuel is used.
  The bounds of the properties are those of the C types.

  \<^bold>\<open>What the theorems show that one may not expect.\<close>  A blank in the command name derails
  \<open>readStat\<close>; values of \<open>smaps\<close> of two digits are not stored; the offset of a mapping is read in
  base 10; ids are appended and never cleared; the total rate is the rate of one operand; the
  usage compares with uninitialised members when a rate was sampled first, and with a dead
  process when a pid is used again; attributes of \<open>smaps\<close> with an underscore in the key are ignored; addresses of sockets are printed backwards on a
  little-endian machine; TCP sockets from slot 1000 on are lost, and so are unix sockets without a
  path, with a short inode or with a hexadecimal letter in a column; a failed subscription leaks the
  socket; a listening object cannot be destroyed; the user name is printed to \<open>std::cout\<close>.

  \<^bold>\<open>Not modelled.\<close>  The tests under \<open>src/tests\<close>.  Weakly ordered memory: the steps of the listening
  threads are in one order with those of the owner.  The callbacks of the connector are events of the trace, so a
  callback that throws or calls the object is not covered; adding a callback while a thread
  iterates over them is undefined and ends the run as \<open>Raced\<close>.  Formatting flags of a stream given to the output
  operator.  Memory exhaustion.
\<close>

section \<open>The process list and the objects it returns\<close>

lemma listed_process:
  assumes "processList raw B w = Inr ps" and "i < length ps"
  shows "\<exists>r n. ps ! i = ProcessInfo r n"
proof -
  from assms(1) obtain pids where
    "ps = fold (\<lambda>pid l. l @ [ProcessInfo (raw (length l)) pid]) pids []"
    by (auto simp: processList_def split: sum.splits)
  then have "ps = map (\<lambda>(i, pid). ProcessInfo (raw i) pid) (enumerate 0 pids)"
    using fold_constructs [of raw pids "[]"] by simp
  with assms(2) show ?thesis by (auto simp: nth_enumerate_eq)
qed

text \<open>
  C14. The objects of the process list are caches of their own processes: for each of them, any
  sequence of requests for the members of \<open>/proc/<pid>/stat\<close> is answered as by a cache of one
  snapshot of the process with the pid of that object.
\<close>

theorem listed_processes_refine:
  assumes "processList raw B w = Inr ps" and "i < length ps"
    and "\<forall>(w, s, r) \<in> set calls. known_request r
      \<and> stat_file_shows w (''/proc/'' @ to_string (pid (ps ! i)) @ ''/'') s"
  shows "replies ask_stat (map (\<lambda>(w, s, r). (w, r)) calls) (ps ! i)
    = replies ask_spec (map (\<lambda>(w, s, r). (s, r)) calls) None"
proof -
  from listed_process [OF assms(1,2)] obtain r n where p: "ps ! i = ProcessInfo r n" by blast
  let ?path = "''/proc/'' @ to_string (pid (ps ! i)) @ ''/''"
  show ?thesis
  proof (rule stat_cache.same_replies)
    show "list_all2 (same_call ?path) (map (\<lambda>(w, s, r). (w, r)) calls) (map (\<lambda>(w, s, r). (s, r)) calls)"
      using assms(3) by (induction calls) (auto simp: same_call_def)
    show "cache_related ?path (ps ! i) None"
      by (simp add: p cache_related_def pid_def ProcessInfo_def Let_def) (simp add: needUpdate_def)
  qed
qed

theorem listed_processes_refine_witness:
  "\<forall>raw q. \<exists>ps. processList raw reference_boost (empty_world\<lparr>directories := [''/proc'' \<mapsto>
      [\<lparr>filename = ''7'', is_dir = True\<rparr>]]\<rparr>) = Inr ps
    \<and> replies ask_stat [(world_of q, Ask_name), (world_of q, Ask_number 0)] (ps ! 0)
      = [Text ''sshd'', Number (sint (m_ppid q))]"
proof (intro allI)
  fix raw q
  let ?e = "\<lparr>filename = ''7'', is_dir = True\<rparr>"
  let ?w = "empty_world\<lparr>directories := [''/proc'' \<mapsto> [?e]]\<rparr>"
  let ?calls = "[(world_of q, shown_by q, Ask_name), (world_of q, shown_by q, Ask_number 0)]"
  have rx: "regex_engine (regex_match reference_boost)"
    using reference.boost_library_axioms by (simp add: boost_library_def)
  have e: "pid_directory ?e" "entry_pid ?e = 7" "num_val 10 0 (filename ?e) \<le> 2147483647"
    by (simp_all add: pid_directory_def dec_field_def entry_pid_def is_digit_def digit_val_def)
  have "processListPid reference_boost ?w = Inr [7]"
    using pid_loop [OF rx, of "[?e]" "[]"] e by (simp add: processListPid_def)
  then have ps: "processList raw reference_boost ?w = Inr [ProcessInfo (raw 0) 7]"
    by (simp add: processList_def)
  have path: "''/proc/'' @ to_string (pid ([ProcessInfo (raw 0) 7] ! 0)) @ ''/'' = ''/proc/7/''"
    by (simp add: pid_def ProcessInfo_def needUpdate_def Let_def to_string_def int_str_def nat_str_digit
        digit_char_literals)
  have seen: "stat_file_shows (world_of q) ''/proc/7/'' (shown_by q)"
    by (auto simp: stat_file_shows_def world_of_def shown_by_def stat_world_def plain_word_def is_space_def)
  have "\<forall>(w, s, r) \<in> set ?calls. known_request r
      \<and> stat_file_shows w (''/proc/'' @ to_string (pid ([ProcessInfo (raw 0) 7] ! 0)) @ ''/'') s"
    unfolding path using seen by simp
  from listed_processes_refine [OF ps _ this]
  have "replies ask_stat [(world_of q, Ask_name), (world_of q, Ask_number 0)] ([ProcessInfo (raw 0) 7] ! 0)
      = [Text ''sshd'', Number (sint (m_ppid q))]"
    by (simp add: Let_def shown_by_def line_numbers_def stat_numbers_def del: ask_stat.simps)
  with ps show "\<exists>ps. processList raw reference_boost ?w = Inr ps
    \<and> replies ask_stat [(world_of q, Ask_name), (world_of q, Ask_number 0)] (ps ! 0)
      = [Text ''sshd'', Number (sint (m_ppid q))]"
    by blast
qed

end
